(* ===== verification/Prelude.thy ===== *)
theory Prelude
  imports Main "HOL-Library.Word" "HOL-Library.AList" "HOL-Library.Sublist" "HOL-Library.Multiset"
begin

text \<open>
  Shared vocabulary of the development: the names of the protocol's scalar types at their
  widths (\<^verbatim>\<open>src/types.rs\<close> re-exports them from the protocol crate), the checked arithmetic of
  Rust's \<^verbatim>\<open>usize\<close>, the two-slice scatter used by the socket buffers, and the generic facts on lists,
  options, association lists and words that the component theories share.

  A Rust \<^verbatim>\<open>usize\<close> is a natural number; a subtraction that would underflow is a panic and is
  \<^term>\<open>None\<close> in the model.  A Rust \<^verbatim>\<open>HashMap\<close> is an association list with distinct keys: the order of the
  list is the iteration order, which Rust leaves unspecified, so a theorem about every
  well-formed list holds for every iteration order.
\<close>

section \<open>Scalar types\<close>

type_synonym byte = "8 word"
type_synonym channel_id = "16 word"
type_synonym reply_code = "16 word"
type_synonym heartbeat_secs = "16 word"
type_synonym frame_size = "32 word"
type_synonym message_count = "32 word"
type_synonym delivery_tag = "64 word"
type_synonym payload_size = "64 word"
type_synonym short_string = string

named_theorems checked_simps
  \<open>facts that evaluate arithmetic that panics\<close>
named_theorems store_simps
  \<open>what a read of a store returns after a write\<close>
named_theorems inv_intros
  \<open>preservation of a component's invariant by one of its operations\<close>

section \<open>Checked arithmetic\<close>

definition checked_sub :: "nat \<Rightarrow> nat \<Rightarrow> nat option" where
  "checked_sub a b = (if b \<le> a then Some (a - b) else None)"

definition checked_rem :: "nat \<Rightarrow> nat \<Rightarrow> nat option" where
  "checked_rem a b = (if b = 0 then None else Some (a mod b))"

lemma checked_sub_Some [simp, checked_simps]: "b \<le> a \<Longrightarrow> checked_sub a b = Some (a - b)"
  by (simp add: checked_sub_def)

lemma checked_sub_None [simp, checked_simps]: "a < b \<Longrightarrow> checked_sub a b = None"
  by (simp add: checked_sub_def)

lemma checked_rem_Some [simp, checked_simps]: "0 < b \<Longrightarrow> checked_rem a b = Some (a mod b)"
  by (simp add: checked_rem_def)

lemma checked_rem_zero [simp, checked_simps]: "checked_rem a 0 = None"
  by (simp add: checked_rem_def)

section \<open>Polling\<close>

text \<open>\<^verbatim>\<open>Poll<Result<T>>\<close>: not ready, or ready with an error or a value.\<close>

datatype ('e, 'a) poll = Pending | Ready "'e + 'a"

section \<open>Options\<close>

lemma bind_eq_SomeE:
  assumes "Option.bind m f = Some y"
  obtains x where "m = Some x" "f x = Some y"
  using assms by (cases m) auto

section \<open>Lists\<close>

text \<open>Overwriting a segment of a list: what a \<^verbatim>\<open>copy_from_slice\<close> into a sub-slice does.\<close>

definition overwrite :: "'a list \<Rightarrow> nat \<Rightarrow> 'a list \<Rightarrow> 'a list" where
  "overwrite xs i ys = take i xs @ ys @ drop (i + length ys) xs"

lemma length_overwrite [simp]: "i + length ys \<le> length xs \<Longrightarrow> length (overwrite xs i ys) = length xs"
  by (simp add: overwrite_def)

lemma overwrite_Nil [simp]: "overwrite xs i [] = xs"
  by (simp add: overwrite_def)

lemma nth_overwrite:
  assumes "i + length ys \<le> length xs" "k < length xs"
  shows "overwrite xs i ys ! k = (if i \<le> k \<and> k < i + length ys then ys ! (k - i) else xs ! k)"
  using assms by (auto simp: overwrite_def nth_append min_def)

lemma take_map_nth_upt:
  "n \<le> length xs \<Longrightarrow> map ((!) xs) [0..<n] = take n xs"
  by (metis take_upt add_0 map_nth take_map)

lemma map_nth_upt_shift:
  "i + n \<le> length xs \<Longrightarrow> map (\<lambda>k. xs ! (i + k)) [0..<n] = take n (drop i xs)"
  by (rule nth_equalityI) auto

section \<open>Modular arithmetic\<close>

lemma add_mod_cancel:
  "(p + i) mod M = (p + j) mod M \<Longrightarrow> i < M \<Longrightarrow> j < M \<Longrightarrow> i = (j :: nat)"
proof (induction i j rule: linorder_wlog)
  case (le i j)
  then have "M dvd (p + j) - (p + i)" by (subst mod_eq_dvd_iff_nat[symmetric]) auto
  with le show ?case by (auto dest: dvd_imp_le)
next
  case (sym i j)
  then show ?case by simp
qed

lemma inj_on_add_mod: "inj_on (\<lambda>i. (p + i) mod M) {0..<M :: nat}"
proof (rule inj_onI)
  fix i j
  assume "i \<in> {0..<M}" "j \<in> {0..<M}" "(p + i) mod M = (p + j) mod M"
  then show "i = j" by (intro add_mod_cancel[of p i M j]) simp_all
qed

lemma image_add_mod: "(\<lambda>i. (p + i) mod M) ` {0..<M} = {0..<M :: nat}"
  by (rule endo_inj_surj[OF _ _ inj_on_add_mod]) auto

lemma add_mod_diff: "c \<le> a \<Longrightarrow> ((p + c) mod M + (a - c)) mod M = (p + a) mod (M :: nat)"
  by (metis add.assoc le_add_diff_inverse mod_add_left_eq)

lemma add_mod_wrap:
  "p < c \<Longrightarrow> i \<le> c \<Longrightarrow> (p + i) mod c = (if p + i < c then p + i else p + i - c :: nat)"
  by (auto simp: mod_if)

section \<open>Words\<close>

lemma unat_pos: "w \<noteq> 0 \<Longrightarrow> 0 < unat (w :: 'a::len word)"
  by (simp add: unat_gt_0)

lemma unat_Suc_pred: "w \<noteq> 0 \<Longrightarrow> Suc (unat (w :: 'a::len word) - 1) = unat w"
  using unat_pos by fastforce

lemma unat_plus_one: "(w :: 'a::len word) < m \<Longrightarrow> unat (w + 1) = unat w + 1"
proof -
  assume "w < m"
  then have "unat w + 1 < 2 ^ LENGTH('a)"
    by (metis Suc_eq_plus1 Suc_leI le_less_trans unsigned_less word_less_nat_alt)
  then show ?thesis by (simp add: unat_word_ariths)
qed

lemma unat_one_plus_of_nat:
  "k < unat (m :: 'a::len word) \<Longrightarrow> unat (1 + of_nat k :: 'a word) = Suc k"
proof -
  assume "k < unat m"
  then have "Suc k < 2 ^ LENGTH('a)" by (metis Suc_leI le_less_trans unsigned_less)
  then show ?thesis using unat_of_nat[of "Suc k", where ?'a = 'a] by simp
qed

section \<open>Association lists\<close>

text \<open>The key sets of the \<^verbatim>\<open>HashMap\<close> operations.\<close>

abbreviation keys :: "('k \<times> 'v) list \<Rightarrow> 'k list" where
  "keys m \<equiv> map fst m"

definition wf_map :: "('k \<times> 'v) list \<Rightarrow> bool" where
  "wf_map m \<longleftrightarrow> distinct (keys m)"

lemma wf_map_Nil [simp, intro]: "wf_map []"
  by (simp add: wf_map_def)

lemma wf_map_update [simp, intro]: "wf_map m \<Longrightarrow> wf_map (AList.update k v m)"
  by (simp add: wf_map_def distinct_update)

lemma wf_map_delete [simp, intro]: "wf_map m \<Longrightarrow> wf_map (AList.delete k m)"
  by (simp add: wf_map_def distinct_delete)

lemma wf_map_filter [simp, intro]: "wf_map m \<Longrightarrow> wf_map (filter P m)"
  by (induction m) (auto simp: wf_map_def)

lemma map_of_mem [simp]: "wf_map m \<Longrightarrow> (k, v) \<in> set m \<Longrightarrow> map_of m k = Some v"
  by (simp add: wf_map_def)

lemma mem_delete: "(k', v) \<in> set (AList.delete k m) \<longleftrightarrow> k' \<noteq> k \<and> (k', v) \<in> set m"
  by (auto simp: AList.delete_eq)

lemma mem_update:
  assumes "wf_map m"
  shows "(k', v') \<in> set (AList.update k v m) \<longleftrightarrow> (k' = k \<and> v' = v) \<or> (k' \<noteq> k \<and> (k', v') \<in> set m)"
  using assms
proof (induction m)
  case (Cons p m)
  then show ?case by (cases p) (auto simp: wf_map_def image_iff)
qed simp

section \<open>Decimal output\<close>

text \<open>What Rust's \<^verbatim>\<open>Display\<close> prints for an unsigned integer.\<close>

fun show_nat :: "nat \<Rightarrow> string" where
  "show_nat n = (if n < 10 then [char_of (48 + n)] else show_nat (n div 10) @ [char_of (48 + n mod 10)])"

declare show_nat.simps [simp del]

definition show_word :: "'a::len word \<Rightarrow> string" where
  "show_word w = show_nat (unat w)"

end
