(* ===== verification/Id_Sequence.thy ===== *)
theory Id_Sequence
  imports Prelude
begin

text \<open>
  Model of \<^verbatim>\<open>src/id_sequence.rs\<close>: the generator of channel numbers (\<^verbatim>\<open>u16\<close>) and of publisher-confirm
  delivery tags (\<^verbatim>\<open>u64\<close>).  The type parameter of the Rust struct is the width of the word.  The
  fields \<^verbatim>\<open>zero\<close> and \<^verbatim>\<open>one\<close> hold the literals 0 and 1 and are written as such.  The increment is the
  wrapping one of a release build.
\<close>

record (overloaded) 'a id_sequence =
  ids_allow_zero :: bool
  ids_max :: "'a word option"
  ids_id :: "'a word"

definition id_sequence_new :: "bool \<Rightarrow> 'a::len id_sequence" where
  "id_sequence_new allow_zero = \<lparr>ids_allow_zero = allow_zero, ids_max = None, ids_id = 0\<rparr>"

definition first_id :: "'a::len id_sequence \<Rightarrow> 'a word" where
  "first_id s = (if ids_allow_zero s then 0 else 1)"

definition current_id :: "'a::len id_sequence \<Rightarrow> 'a word option" where
  "current_id s = (if ids_id s \<le> first_id s then ids_max s else Some (ids_id s - 1))"

definition set_max :: "'a::len word \<Rightarrow> 'a id_sequence \<Rightarrow> 'a id_sequence" where
  "set_max m s = s\<lparr>ids_max := (if m = 0 then None else Some m)\<rparr>"

definition next_id :: "'a::len id_sequence \<Rightarrow> 'a word \<times> 'a id_sequence" where
  "next_id s =
    (let id = (if \<not> ids_allow_zero s \<and> ids_id s = 0 then ids_id s + 1 else ids_id s)
     in if ids_max s = Some id then (id, s\<lparr>ids_id := 0\<rparr>)
        else (id, s\<lparr>ids_id := id + 1\<rparr>))"

text \<open>The ids handed out by \<^verbatim>\<open>n\<close> consecutive calls, and the state after them.\<close>

primrec next_ids :: "nat \<Rightarrow> 'a::len id_sequence \<Rightarrow> 'a word list \<times> 'a id_sequence" where
  "next_ids 0 s = ([], s)"
| "next_ids (Suc n) s =
    (let (id, s') = next_id s; (ids, s'') = next_ids n s' in (id # ids, s''))"


section \<open>The bounded cycle\<close>

text \<open>
  The state the channel allocator uses: zero is never handed out, a maximum is set, and the next id
  does not exceed it.
\<close>

definition cycling :: "'a::len word \<Rightarrow> 'a id_sequence \<Rightarrow> bool" where
  "cycling m s \<longleftrightarrow> \<not> ids_allow_zero s \<and> ids_max s = Some m \<and> m \<noteq> 0 \<and> ids_id s \<le> m"

text \<open>The zero-based index of the next id in the cycle 1, ..., m.\<close>

definition cycle_pos :: "'a::len id_sequence \<Rightarrow> nat" where
  "cycle_pos s = (if ids_id s = 0 then 0 else unat (ids_id s) - 1)"

lemma cycling_set_max:
  "\<not> ids_allow_zero s \<Longrightarrow> m \<noteq> 0 \<Longrightarrow> ids_id s \<le> m \<Longrightarrow> cycling m (set_max m s)"
  by (simp add: cycling_def set_max_def)

lemma cycle_pos_less: "cycling m s \<Longrightarrow> cycle_pos s < unat m"
  using unat_pos[of m] unat_Suc_pred[of "ids_id s"]
  by (auto simp: cycling_def cycle_pos_def word_le_nat_alt)

lemma next_id_nonzero:
  assumes "\<not> ids_allow_zero s"
  shows "next_id s = (if ids_id s = 0 then 1 else ids_id s,
    s\<lparr>ids_id := (if ids_max s = Some (if ids_id s = 0 then 1 else ids_id s) then 0
      else (if ids_id s = 0 then 1 else ids_id s) + 1)\<rparr>)"
  using assms by (simp add: next_id_def Let_def)

lemma next_id_cycling:
  assumes "cycling m s"
  shows "fst (next_id s) = of_nat (cycle_pos s + 1)"
    and "cycling m (snd (next_id s))"
    and "cycle_pos (snd (next_id s)) = (cycle_pos s + 1) mod unat m"
proof -
  let ?id = "if ids_id s = 0 then 1 else ids_id s"
  from assms have m0: "m \<noteq> 0" and le: "?id \<le> m" and nz: "?id \<noteq> 0"
    by (auto simp: cycling_def word_le_nat_alt unat_gt_0 Suc_le_eq)
  from assms have nx: "next_id s = (?id, s\<lparr>ids_id := (if ?id = m then 0 else ?id + 1)\<rparr>)"
    by (simp add: next_id_nonzero cycling_def)
  have pos: "cycle_pos s + 1 = unat ?id"
    using unat_Suc_pred[of "ids_id s"] by (simp add: cycle_pos_def)
  then show "fst (next_id s) = of_nat (cycle_pos s + 1)"
    by (simp add: nx)
  have lt: "?id \<noteq> m \<Longrightarrow> ?id < m" using le by simp
  have suc: "unat (?id + 1) = unat ?id + 1" if "?id \<noteq> m"
    using lt[OF that] by (rule unat_plus_one)
  show "cycling m (snd (next_id s))"
    using assms lt by (auto simp: nx cycling_def inc_le)
  show "cycle_pos (snd (next_id s)) = (cycle_pos s + 1) mod unat m"
  proof (cases "?id = m")
    case True
    then show ?thesis unfolding pos by (simp add: nx cycle_pos_def)
  next
    case False
    with lt suc have "unat ?id + 1 \<le> unat m" "?id + 1 \<noteq> 0"
      by (auto simp: word_less_nat_alt simp flip: unat_eq_zero)
    then show ?thesis unfolding pos using suc[OF False] False
      by (simp add: nx cycle_pos_def)
  qed
qed

text \<open>The ids of \<^term>\<open>n\<close> consecutive calls, in closed form.\<close>

lemma next_ids_cycling:
  assumes "cycling m s"
  shows "fst (next_ids n s) = map (\<lambda>i. of_nat ((cycle_pos s + i) mod unat m + 1)) [0..<n]"
    and "cycling m (snd (next_ids n s))"
    and "cycle_pos (snd (next_ids n s)) = (cycle_pos s + n) mod unat m"
  using assms
proof (atomize(full), induction n arbitrary: s)
  case 0
  then show ?case using cycle_pos_less by fastforce
next
  case (Suc n)
  obtain id s' where nx: "next_id s = (id, s')" by fastforce
  note st = next_id_cycling[OF Suc.prems, unfolded nx fst_conv snd_conv]
  have "[0..<Suc n] = 0 # map Suc [0..<n]" by (simp only: map_Suc_upt upt_conv_Cons)
  with Suc.IH[OF st(2)] st cycle_pos_less[OF Suc.prems] show ?case
    by (simp add: nx split_beta Let_def mod_simps o_def del: upt_Suc)
qed

lemma inj_on_of_nat_Suc:
  "inj_on (\<lambda>k. of_nat (k + 1) :: 'a::len word) {0..<unat (m :: 'a word)}"
proof (rule inj_onI)
  fix k l
  assume kl: "k \<in> {0..<unat m}" "l \<in> {0..<unat m}"
    and "(of_nat (k + 1) :: 'a word) = of_nat (l + 1)"
  then have "unat (1 + of_nat k :: 'a word) = unat (1 + of_nat l :: 'a word)" by simp
  with kl show "k = l" by (simp add: unat_one_plus_of_nat[of _ m])
qed

lemma image_of_nat_Suc:
  "(\<lambda>k. of_nat (k + 1) :: 'a::len word) ` {0..<unat m} = {1..m}"
proof (intro set_eqI iffI)
  fix x :: "'a word"
  assume "x \<in> {1..m}"
  then have "x \<noteq> 0" "unat x \<le> unat m" by (auto simp: word_le_nat_alt)
  with unat_Suc_pred[of x] show "x \<in> (\<lambda>k. of_nat (k + 1)) ` {0..<unat m}"
    by (intro image_eqI[of _ _ "unat x - 1"]) auto
next
  fix x :: "'a word"
  assume "x \<in> (\<lambda>k. of_nat (k + 1)) ` {0..<unat m}"
  then obtain k where k: "x = of_nat (k + 1)" "k < unat m" by auto
  then have "unat x = k + 1" by (simp add: unat_one_plus_of_nat)
  with k show "x \<in> {1..m}" by (simp add: word_le_nat_alt)
qed

text \<open>
  With a maximum \<^term>\<open>m\<close> set and zero not allowed, any \<^term>\<open>unat m\<close> consecutive calls of \<^verbatim>\<open>next\<close> hand out
  every id of 1, ..., m exactly once.
\<close>

lemma next_ids_full_cycle:
  assumes "cycling m s"
  shows "distinct (fst (next_ids (unat m) s)) \<and> set (fst (next_ids (unat m) s)) = {1..m}"
proof -
  let ?p = "\<lambda>i. (cycle_pos s + i) mod unat m"
  let ?w = "\<lambda>k. of_nat (k + 1) :: 'a word"
  have eq: "fst (next_ids (unat m) s) = map (?w \<circ> ?p) [0..<unat m]"
    by (simp add: next_ids_cycling(1)[OF assms])
  have "inj_on (?w \<circ> ?p) {0..<unat m}"
    by (rule comp_inj_on[OF inj_on_add_mod]) (simp only: image_add_mod inj_on_of_nat_Suc)
  moreover have "(?w \<circ> ?p) ` {0..<unat m} = {1..m}"
    by (simp only: image_comp[symmetric] image_add_mod image_of_nat_Suc)
  ultimately show ?thesis
    by (simp only: eq distinct_map set_map set_upt distinct_upt simp_thms)
qed

lemma next_ids_full_cycle_witness:
  "cycling (3 :: 8 word) (set_max 3 (id_sequence_new False))
    \<and> set (fst (next_ids (unat (3 :: 8 word)) (set_max 3 (id_sequence_new False)))) = {1..3 :: 8 word}"
proof -
  have "cycling (3 :: 8 word) (set_max 3 (id_sequence_new False))"
    by (simp add: cycling_def set_max_def id_sequence_new_def)
  with next_ids_full_cycle[OF this] show ?thesis by simp
qed

lemma not_inc_le_one: "(w :: 'a::len word) \<noteq> 0 \<Longrightarrow> w \<noteq> - 1 \<Longrightarrow> \<not> w + 1 \<le> 1"
  using unat_plus_one[of w "- 1"] unat_pos[of w]
  by (simp add: word_le_nat_alt word_order.not_eq_extremum)

text \<open>
  After a call of \<^verbatim>\<open>next\<close> on a sequence that does not hand out zero, \<^verbatim>\<open>current\<close> is the id that call
  returned, unless the increment wrapped around the width of the id.
\<close>

lemma current_after_next:
  assumes "\<not> ids_allow_zero s" "fst (next_id s) = - 1 \<Longrightarrow> ids_max s = Some (- 1)"
  shows "current_id (snd (next_id s)) = Some (fst (next_id s))"
proof -
  define id where "id = (if ids_id s = 0 then 1 else ids_id s)"
  then have "id \<noteq> 0" by simp
  moreover have nx: "next_id s = (id, s\<lparr>ids_id := (if ids_max s = Some id then 0 else id + 1)\<rparr>)"
    unfolding id_def by (rule next_id_nonzero[OF assms(1)])
  ultimately have "ids_max s \<noteq> Some id \<Longrightarrow> \<not> id + 1 \<le> 1"
    using assms(2) not_inc_le_one[of id] by auto
  then show ?thesis using assms(1) by (simp add: nx current_id_def first_id_def)
qed

lemma current_after_next_witness:
  "current_id (snd (next_id (set_max 3 (id_sequence_new False)))) = Some (1 :: 16 word)
    \<and> current_id (snd (next_id (id_sequence_new False))) = Some (1 :: 64 word)"
  using current_after_next[of "set_max 3 (id_sequence_new False) :: 16 id_sequence"]
    current_after_next[of "id_sequence_new False :: 64 id_sequence"]
  by (simp add: next_id_def set_max_def id_sequence_new_def)

end
