(* ===== verification/Parsing.thy ===== *)
theory Parsing
  imports Prelude
begin

text \<open>
  Model of \<^verbatim>\<open>src/parsing.rs\<close>: the parser's view of the bytes waiting in a socket buffer.  The view is a
  pair of slices, the second being the wrapped-around part of the ring buffer.  A slice carries the
  address of its first byte, because \<^verbatim>\<open>Buffer::offset\<close> measures what was consumed by subtracting
  addresses.  Slicing out of range panics in Rust and is \<^term>\<open>None\<close> here.
\<close>

section \<open>Slices\<close>

record slice =
  as_ptr :: nat
  bytes :: "byte list"

definition slice_to :: "nat \<Rightarrow> slice \<Rightarrow> slice option" where
  "slice_to n s = (if n \<le> length (bytes s) then Some (s\<lparr>bytes := take n (bytes s)\<rparr>) else None)"

definition slice_from :: "nat \<Rightarrow> slice \<Rightarrow> slice option" where
  "slice_from n s =
    (if n \<le> length (bytes s) then Some \<lparr>as_ptr = as_ptr s + n, bytes = drop n (bytes s)\<rparr> else None)"

section \<open>The parsing context\<close>

record parsing_context =
  pc_first :: slice
  pc_second :: slice

text \<open>The two \<^verbatim>\<open>From\<close> implementations: one slice, its second half empty at its end, or two slices.\<close>

definition pc_of_slice :: "slice \<Rightarrow> parsing_context" where
  "pc_of_slice s =
    \<lparr>pc_first = s, pc_second = \<lparr>as_ptr = as_ptr s + length (bytes s), bytes = []\<rparr>\<rparr>"

definition pc_of_slices :: "slice \<Rightarrow> slice \<Rightarrow> parsing_context" where
  "pc_of_slices a b = \<lparr>pc_first = a, pc_second = b\<rparr>"

definition pc_as_ptr :: "parsing_context \<Rightarrow> nat" where
  "pc_as_ptr pc = as_ptr (pc_first pc)"

definition pc_iter :: "parsing_context \<Rightarrow> byte list" where
  "pc_iter pc = bytes (pc_first pc) @ bytes (pc_second pc)"

definition input_len :: "parsing_context \<Rightarrow> nat" where
  "input_len pc = sum_list (map (length \<circ> bytes) [pc_first pc, pc_second pc])"

definition pc_take :: "nat \<Rightarrow> parsing_context \<Rightarrow> parsing_context option" where
  "pc_take cnt pc =
    (if length (bytes (pc_first pc)) > cnt
     then map_option pc_of_slice (slice_to cnt (pc_first pc))
     else let needed = cnt - length (bytes (pc_first pc))
          in map_option (pc_of_slices (pc_first pc)) (slice_to needed (pc_second pc)))"

definition pc_take_from :: "nat \<Rightarrow> parsing_context \<Rightarrow> parsing_context option" where
  "pc_take_from index pc =
    (if length (bytes (pc_first pc)) > index
     then map_option (\<lambda>s. pc_of_slices s (pc_second pc)) (slice_from index (pc_first pc))
     else let needed = index - length (bytes (pc_first pc))
          in map_option pc_of_slice (slice_from needed (pc_second pc)))"

definition pc_take_split ::
  "nat \<Rightarrow> parsing_context \<Rightarrow> (parsing_context \<times> parsing_context) option" where
  "pc_take_split index pc =
    (if length (bytes (pc_first pc)) > index
     then Option.bind (slice_from index (pc_first pc)) (\<lambda>rest.
          Option.bind (slice_to index (pc_first pc)) (\<lambda>front.
          Some (pc_of_slices rest (pc_second pc), pc_of_slice front)))
     else let needed = index - length (bytes (pc_first pc))
          in Option.bind (slice_from needed (pc_second pc)) (\<lambda>rest.
             Option.bind (slice_to needed (pc_second pc)) (\<lambda>front.
             Some (pc_of_slice rest, pc_of_slices (pc_first pc) front))))"

text \<open>\<^verbatim>\<open>Iterator::position\<close>: the index of the first element that satisfies the predicate.\<close>

fun iter_position :: "('a \<Rightarrow> bool) \<Rightarrow> 'a list \<Rightarrow> nat option" where
  "iter_position P [] = None"
| "iter_position P (x # xs) = (if P x then Some 0 else map_option Suc (iter_position P xs))"

definition pc_position :: "(byte \<Rightarrow> bool) \<Rightarrow> parsing_context \<Rightarrow> nat option" where
  "pc_position P pc = iter_position P (pc_iter pc)"

definition pc_iter_indices :: "parsing_context \<Rightarrow> (nat \<times> byte) list" where
  "pc_iter_indices pc = enumerate 0 (pc_iter pc)"

text \<open>The left injection is the number of bytes still missing (\<^verbatim>\<open>Needed::new\<close>).\<close>

definition slice_index :: "nat \<Rightarrow> parsing_context \<Rightarrow> nat + nat" where
  "slice_index cnt pc =
    (if input_len pc \<ge> cnt then Inr cnt else Inl (cnt - input_len pc))"

datatype compare_result = CompareOk | CompareIncomplete | CompareError

definition pc_compare_by ::
  "(byte \<Rightarrow> byte \<Rightarrow> bool) \<Rightarrow> byte list \<Rightarrow> parsing_context \<Rightarrow> compare_result" where
  "pc_compare_by eq buf pc =
    (if list_ex (\<lambda>(a, b). \<not> eq a b) (zip (pc_iter pc) buf) then CompareError
     else if input_len pc \<ge> length buf then CompareOk
     else CompareIncomplete)"

definition pc_compare :: "byte list \<Rightarrow> parsing_context \<Rightarrow> compare_result" where
  "pc_compare = pc_compare_by (=)"

definition to_ascii_lowercase :: "byte \<Rightarrow> byte" where
  "to_ascii_lowercase b = (if 65 \<le> b \<and> b \<le> 90 then b + 32 else b)"

definition eq_ignore_ascii_case :: "byte \<Rightarrow> byte \<Rightarrow> bool" where
  "eq_ignore_ascii_case a b \<longleftrightarrow> to_ascii_lowercase a = to_ascii_lowercase b"

definition pc_compare_no_case :: "byte list \<Rightarrow> parsing_context \<Rightarrow> compare_result" where
  "pc_compare_no_case = pc_compare_by eq_ignore_ascii_case"

section \<open>The two-slice view behaves as the concatenated bytes\<close>

lemma input_len_iter: "input_len pc = length (pc_iter pc)"
  by (simp add: input_len_def pc_iter_def)

lemmas pc_defs = pc_iter_def pc_of_slice_def pc_of_slices_def slice_to_def slice_from_def

lemma pc_take_iter:
  "n \<le> length (pc_iter pc) \<Longrightarrow> \<exists>pc'. pc_take n pc = Some pc' \<and> pc_iter pc' = take n (pc_iter pc)"
  by (auto simp: pc_take_def pc_defs Let_def)

lemma pc_take_from_iter:
  "n \<le> length (pc_iter pc) \<Longrightarrow> \<exists>pc'. pc_take_from n pc = Some pc' \<and> pc_iter pc' = drop n (pc_iter pc)"
  by (auto simp: pc_take_from_def pc_defs Let_def)

lemma pc_take_panics: "length (pc_iter pc) < n \<Longrightarrow> pc_take n pc = None \<and> pc_take_from n pc = None"
  by (auto simp: pc_take_def pc_take_from_def pc_defs Let_def)

text \<open>
  Splitting the two-slice view at an index in range returns the rest and the front of the
  concatenated bytes, whichever slice the index falls in, and agrees with the separate \<^verbatim>\<open>take_from\<close>
  and \<^verbatim>\<open>take\<close>; out of range it panics.
\<close>

lemma pc_take_split_iter:
  "pc_take_split n pc =
    (if n \<le> length (pc_iter pc) then Some (the (pc_take_from n pc), the (pc_take n pc)) else None)
   \<and> map_option pc_iter (pc_take_from n pc) =
        (if n \<le> length (pc_iter pc) then Some (drop n (pc_iter pc)) else None)
   \<and> map_option pc_iter (pc_take n pc) =
        (if n \<le> length (pc_iter pc) then Some (take n (pc_iter pc)) else None)"
  by (auto simp: pc_take_split_def pc_take_def pc_take_from_def pc_defs Let_def)

lemma list_ex_zip:
  "list_ex (\<lambda>(a, b). R a b) (zip xs ys) \<longleftrightarrow> (\<exists>n < min (length xs) (length ys). R (xs ! n) (ys ! n))"
  by (auto simp: list_ex_length)

lemma prefix_iff_nth:
  "prefix ys xs \<longleftrightarrow> length ys \<le> length xs \<and> (\<forall>n < length ys. xs ! n = ys ! n)"
proof
  assume "length ys \<le> length xs \<and> (\<forall>n < length ys. xs ! n = ys ! n)"
  then have "take (length ys) xs = ys" by (intro nth_equalityI) auto
  then show "prefix ys xs" by (metis take_is_prefix)
qed (auto simp: prefix_def nth_append)

text \<open>
  The comparison of the two-slice view with a tag answers \<^verbatim>\<open>Ok\<close> exactly when the tag is a prefix of the
  waiting bytes, \<^verbatim>\<open>Incomplete\<close> exactly when the waiting bytes are a proper prefix of the tag, and
  \<^verbatim>\<open>Error\<close> in the remaining case, where the two disagree at some byte.
\<close>

lemma pc_compare_prefix:
  "pc_compare buf pc =
    (if prefix buf (pc_iter pc) then CompareOk
     else if strict_prefix (pc_iter pc) buf then CompareIncomplete
     else CompareError)"
proof (cases "length buf \<le> length (pc_iter pc)")
  case True
  then show ?thesis
    by (auto simp: pc_compare_def pc_compare_by_def list_ex_zip input_len_iter prefix_iff_nth
        strict_prefix_def dest: nth_equalityI)
next
  case False
  then show ?thesis
    by (auto simp: pc_compare_def pc_compare_by_def list_ex_zip input_len_iter prefix_iff_nth
        strict_prefix_def)
qed

end
