(* ===== verification/Ring_Buffer.thy ===== *)
theory Ring_Buffer
  imports Parsing
begin

text \<open>
  Model of \<^verbatim>\<open>src/buffer.rs\<close>: the ring buffers between the socket and the frame parser and serializer.
  The record has the fields of the Rust struct; \<^term>\<open>None\<close> is a panic (a slice out of range, a
  length mismatch in \<^verbatim>\<open>copy_from_slice\<close>, a remainder by a zero capacity, an underflow).  The socket is a
  parameter: it is offered slices and answers how many bytes it took or which bytes it delivered.
\<close>

section \<open>State and operations\<close>

record buffer =
  memory :: "byte list"
  capacity :: nat
  position :: nat
  buf_end :: nat
  available_data :: nat

record checkpoint =
  cp_end :: nat
  cp_backwards :: bool

definition with_capacity :: "nat \<Rightarrow> buffer" where
  "with_capacity c =
    \<lparr>memory = replicate c 0, capacity = c, position = 0, buf_end = 0, available_data = 0\<rparr>"

definition buffer_reset :: "buffer \<Rightarrow> buffer" where
  "buffer_reset b = b\<lparr>position := 0, buf_end := 0, available_data := 0\<rparr>"

definition checkpoint_of :: "buffer \<Rightarrow> checkpoint" where
  "checkpoint_of b = \<lparr>cp_end = buf_end b, cp_backwards = True\<rparr>"

definition rollback :: "checkpoint \<Rightarrow> buffer \<Rightarrow> buffer option" where
  "rollback c b =
    (if cp_end c = buf_end b then Some b
     else map_option (\<lambda>d. b\<lparr>available_data := d, buf_end := cp_end c\<rparr>)
       (if cp_backwards c then
          (if buf_end b > cp_end c
           then checked_sub (available_data b) (buf_end b - cp_end c)
           else Option.bind (checked_sub (capacity b) (cp_end c)) (\<lambda>r.
                checked_sub (available_data b) (buf_end b + r)))
        else if buf_end b > cp_end c
          then Option.bind (checked_sub (capacity b) (buf_end b)) (\<lambda>r.
               Some (available_data b + (r + cp_end c)))
          else Some (available_data b + (cp_end c - buf_end b))))"

definition available_space :: "buffer \<Rightarrow> nat" where
  "available_space b = capacity b - available_data b"

definition grow :: "nat \<Rightarrow> buffer \<Rightarrow> (bool \<times> buffer) option" where
  "grow new_size b =
    (if capacity b \<ge> new_size then Some (False, b)
     else let old_capacity = capacity b;
              growth = new_size - old_capacity;
              b' = b\<lparr>memory := take new_size (memory b) @ replicate (new_size - length (memory b)) 0,
                     capacity := new_size\<rparr>
          in if buf_end b \<le> position b \<and> available_data b > 0
             then if buf_end b < growth
                  then if length (drop old_capacity (memory b')) = length (take (buf_end b) (memory b'))
                       then Some (True, b'\<lparr>memory := overwrite (memory b') old_capacity
                                                (take (buf_end b) (memory b')),
                                          buf_end := buf_end b + old_capacity\<rparr>)
                       else None
                  else let m1 = overwrite (memory b') old_capacity (take growth (memory b'));
                           m2 = overwrite m1 0 (drop growth (take (buf_end b) m1))
                       in Some (True, b'\<lparr>memory := m2, buf_end := buf_end b - growth\<rparr>)
             else Some (True, b'))"

definition consume :: "nat \<Rightarrow> buffer \<Rightarrow> (nat \<times> buffer) option" where
  "consume n b =
    (let cnt = min n (available_data b)
     in Option.bind (checked_rem (position b + cnt) (capacity b)) (\<lambda>p.
        Some (cnt, b\<lparr>position := p, available_data := available_data b - cnt\<rparr>)))"

definition fill :: "nat \<Rightarrow> buffer \<Rightarrow> (nat \<times> buffer) option" where
  "fill n b =
    (let cnt = min n (available_space b)
     in Option.bind (checked_rem (buf_end b + cnt) (capacity b)) (\<lambda>e.
        Some (cnt, b\<lparr>buf_end := e, available_data := available_data b + cnt\<rparr>)))"

text \<open>
  Polling the socket.  The writer is offered one slice or two and answers with the number of bytes
  it took; the reader is offered the lengths of one or two slices and answers with the bytes it
  stored, which fill the slices in order.
\<close>

definition poll_write_to ::
  "(byte list \<Rightarrow> ('e, nat) poll) \<Rightarrow> (byte list list \<Rightarrow> ('e, nat) poll) \<Rightarrow> buffer \<Rightarrow> ('e, nat) poll" where
  "poll_write_to poll_write poll_write_vectored b =
    (if available_data b = 0 then Ready (Inr 0)
     else if buf_end b > position b
       then poll_write (drop (position b) (take (buf_end b) (memory b)))
       else poll_write_vectored [drop (position b) (memory b), take (buf_end b) (memory b)])"

definition poll_read_from ::
  "(nat \<Rightarrow> ('e, byte list) poll) \<Rightarrow> (nat list \<Rightarrow> ('e, byte list) poll) \<Rightarrow> buffer
    \<Rightarrow> ('e, nat) poll \<times> buffer" where
  "poll_read_from poll_read poll_read_vectored b =
    (if available_space b = 0 then (Ready (Inr 0), b)
     else if buf_end b \<ge> position b
       then let l = length (memory b) - buf_end b in
            (case poll_read_vectored [l, position b] of
               Pending \<Rightarrow> (Pending, b)
             | Ready (Inl e) \<Rightarrow> (Ready (Inl e), b)
             | Ready (Inr d) \<Rightarrow>
                 (Ready (Inr (length d)),
                  b\<lparr>memory := overwrite (overwrite (memory b) (buf_end b) (take l d)) 0 (drop l d)\<rparr>))
       else (case poll_read (position b - buf_end b) of
               Pending \<Rightarrow> (Pending, b)
             | Ready (Inl e) \<Rightarrow> (Ready (Inl e), b)
             | Ready (Inr d) \<Rightarrow>
                 (Ready (Inr (length d)), b\<lparr>memory := overwrite (memory b) (buf_end b) d\<rparr>)))"

text \<open>Addresses are taken relative to \<^term>\<open>base\<close>, the address of the first byte of the memory.\<close>

definition offset :: "nat \<Rightarrow> parsing_context \<Rightarrow> buffer \<Rightarrow> nat" where
  "offset base pc b =
    (let dataptr = base + position b; bufptr = pc_as_ptr pc
     in if dataptr < bufptr then bufptr - dataptr
        else bufptr + capacity b - position b - base)"

definition mem_slice :: "nat \<Rightarrow> nat \<Rightarrow> nat \<Rightarrow> buffer \<Rightarrow> slice" where
  "mem_slice base i j b = \<lparr>as_ptr = base + i, bytes = drop i (take j (memory b))\<rparr>"

definition parsing_context_of :: "nat \<Rightarrow> buffer \<Rightarrow> parsing_context" where
  "parsing_context_of base b =
    (if available_data b = 0 then pc_of_slice (mem_slice base (buf_end b) (buf_end b) b)
     else if buf_end b > position b
       then pc_of_slice (mem_slice base (position b) (buf_end b) b)
       else pc_of_slices (mem_slice base (position b) (length (memory b)) b)
              (mem_slice base 0 (buf_end b) b))"

text \<open>\<^verbatim>\<open><&mut [u8] as Write>::write\<close> on the segment of length \<^term>\<open>l\<close> at \<^term>\<open>i\<close>.\<close>

definition slice_write :: "nat \<Rightarrow> nat \<Rightarrow> byte list \<Rightarrow> byte list \<Rightarrow> nat \<times> byte list" where
  "slice_write i l data mem = (min l (length data), overwrite mem i (take l data))"

definition write_parts :: "byte list \<Rightarrow> buffer \<Rightarrow> nat \<times> byte list" where
  "write_parts data b =
    (if available_space b = 0 then (0, memory b)
     else if buf_end b \<ge> position b
       then let (amt, mem) = slice_write (buf_end b) (length (memory b) - buf_end b) data (memory b)
            in if amt = capacity b - buf_end b
               then let (amt', mem') = slice_write 0 (position b) (drop amt data) mem
                    in (amt + amt', mem')
               else (amt, mem)
       else slice_write (buf_end b) (position b - buf_end b) data (memory b))"

definition buffer_write :: "byte list \<Rightarrow> buffer \<Rightarrow> (nat \<times> buffer) option" where
  "buffer_write data b =
    (let (amt, mem) = write_parts data b
     in map_option (\<lambda>(_, b'). (amt, b')) (fill amt (b\<lparr>memory := mem\<rparr>)))"

datatype 'e gen_error = BufferTooSmall nat | GenOther 'e

text \<open>
  \<^verbatim>\<open>BackToTheBuffer::reserve_write_use\<close>: the generator and the writer of the reserved bytes are the
  protocol crate's; each returns the buffer with its result.
\<close>

definition reserve_write_use ::
  "nat \<Rightarrow> (buffer \<Rightarrow> buffer \<times> ('e gen_error + 'tmp)) \<Rightarrow> (buffer \<Rightarrow> 'tmp \<Rightarrow> buffer \<times> ('e gen_error + unit))
    \<Rightarrow> buffer \<Rightarrow> (buffer \<times> ('e gen_error + unit)) option" where
  "reserve_write_use reserved generator before b =
    (if available_space b < reserved
     then Some (b, Inl (BufferTooSmall (reserved - available_space b)))
     else let start = checkpoint_of b in
       Option.bind (fill reserved b) (\<lambda>(_, b1).
       case generator b1 of
         (b2, Inl e) \<Rightarrow> Some (b2, Inl e)
       | (b2, Inr tmp) \<Rightarrow>
           let stop = (checkpoint_of b2)\<lparr>cp_backwards := False\<rparr> in
           Option.bind (rollback start b2) (\<lambda>b3.
           case before b3 tmp of
             (b4, Inl e) \<Rightarrow> Some (b4, Inl e)
           | (b4, Inr _) \<Rightarrow> map_option (\<lambda>b5. (b5, Inr ())) (rollback stop b4))))"

section \<open>The invariant and the bytes a buffer holds\<close>

definition valid_buffer :: "buffer \<Rightarrow> bool" where
  "valid_buffer b \<longleftrightarrow>
     0 < capacity b \<and> length (memory b) = capacity b \<and> position b < capacity b
   \<and> available_data b \<le> capacity b
   \<and> buf_end b = (position b + available_data b) mod capacity b"

definition contents :: "buffer \<Rightarrow> byte list" where
  "contents b = map (\<lambda>i. memory b ! ((position b + i) mod capacity b)) [0..<available_data b]"

lemma length_contents [simp]: "length (contents b) = available_data b"
  by (simp add: contents_def)

lemma nth_contents:
  "i < available_data b \<Longrightarrow> contents b ! i = memory b ! ((position b + i) mod capacity b)"
  by (simp add: contents_def)

lemma valid_with_capacity: "0 < c \<Longrightarrow> valid_buffer (with_capacity c) \<and> contents (with_capacity c) = []"
  by (simp add: valid_buffer_def with_capacity_def contents_def)

lemma valid_reset: "valid_buffer b \<Longrightarrow> valid_buffer (buffer_reset b) \<and> contents (buffer_reset b) = []"
  by (simp add: valid_buffer_def buffer_reset_def contents_def)

lemma valid_end_less: "valid_buffer b \<Longrightarrow> buf_end b < capacity b"
  by (simp add: valid_buffer_def)

text \<open>Where the end is, relative to the position.\<close>

lemma valid_end_cases:
  assumes "valid_buffer b"
  obtains (straight) "position b + available_data b < capacity b"
      "buf_end b = position b + available_data b"
    | (wrapped) "capacity b \<le> position b + available_data b"
      "buf_end b = position b + available_data b - capacity b" "buf_end b \<le> position b"
      "0 < available_data b"
proof (cases "position b + available_data b < capacity b")
  case True
  with assms show ?thesis by (intro straight) (auto simp: valid_buffer_def)
next
  case False
  with assms show ?thesis by (intro wrapped) (auto simp: valid_buffer_def mod_if)
qed

text \<open>The contents as one or two segments of the memory.\<close>

lemma contents_straight:
  assumes "valid_buffer b" "position b + available_data b < capacity b"
  shows "contents b = drop (position b) (take (buf_end b) (memory b))"
  using assms by (intro nth_equalityI) (auto simp: contents_def valid_buffer_def)

lemma contents_wrapped:
  assumes "valid_buffer b" "capacity b \<le> position b + available_data b"
  shows "contents b = drop (position b) (memory b) @ take (buf_end b) (memory b)"
  using assms
  by (intro nth_equalityI, auto simp: contents_def valid_buffer_def nth_append add_mod_wrap)
     (simp add: add.commute)

section \<open>Storing bytes at the end\<close>

text \<open>
  Every way of storing bytes (\<^verbatim>\<open>write\<close>, and the socket's reads) puts \<^term>\<open>d\<close> at the end and, past the end of
  the memory, at its beginning.
\<close>

definition scatter :: "nat \<Rightarrow> byte list \<Rightarrow> byte list \<Rightarrow> byte list" where
  "scatter e d mem =
    overwrite (overwrite mem e (take (length mem - e) d)) 0 (drop (length mem - e) d)"

lemma length_scatter [simp]:
  "e < length mem \<Longrightarrow> length d \<le> length mem \<Longrightarrow> length (scatter e d mem) = length mem"
  by (simp add: scatter_def)

lemma nth_scatter_hit:
  assumes "e < length mem" "length d \<le> length mem" "j < length d"
  shows "scatter e d mem ! ((e + j) mod length mem) = d ! j"
  using assms by (auto simp: scatter_def nth_overwrite add_mod_wrap)

lemma nth_scatter_miss:
  assumes "e < length mem" "length d \<le> length mem" "k < length mem"
    "\<And>j. j < length d \<Longrightarrow> (e + j) mod length mem \<noteq> k"
  shows "scatter e d mem ! k = mem ! k"
proof -
  have "\<not> k < e + length d" if "e \<le> k"
    using that assms(1-3) assms(4)[of "k - e"] by (cases "k - e < length d") auto
  moreover have "\<not> k + length mem < e + length d"
  proof
    assume *: "k + length mem < e + length d"
    then have "(e + (k + length mem - e)) mod length mem = k"
      using assms(1-3) by simp
    with * assms(1-4) show False by (metis add_diff_inverse_nat leD
          less_or_eq_imp_le linorder_not_less trans_less_add2 nat_add_left_cancel_less)
  qed
  ultimately show ?thesis using assms(1-3) by (auto simp: scatter_def nth_overwrite)
qed

definition store :: "byte list \<Rightarrow> buffer \<Rightarrow> buffer" where
  "store d b = b\<lparr>memory := scatter (buf_end b) d (memory b),
                 buf_end := (buf_end b + length d) mod capacity b,
                 available_data := available_data b + length d\<rparr>"

lemma store_fields [simp]:
  "available_data (store d b) = available_data b + length d"
  "position (store d b) = position b"
  "capacity (store d b) = capacity b"
  by (simp_all add: store_def)

lemma valid_store:
  assumes "valid_buffer b" "length d \<le> available_space b"
  shows "valid_buffer (store d b)"
  using assms valid_end_less[OF assms(1)]
  by (auto simp: valid_buffer_def store_def available_space_def mod_simps add.assoc)

lemma store_mod: "valid_buffer b \<Longrightarrow> (buf_end b + j) mod capacity b = (position b + (available_data b + j)) mod capacity b"
  by (simp add: valid_buffer_def mod_simps add.assoc)

lemma contents_store:
  assumes v: "valid_buffer b" and d: "length d \<le> available_space b"
  shows "contents (store d b) = contents b @ d"
proof (rule nth_equalityI)
  show "length (contents (store d b)) = length (contents b @ d)" by (simp add: store_def)
next
  fix i assume "i < length (contents (store d b))"
  then have i: "i < available_data b + length d" by (simp add: store_def)
  from v d have c: "length (memory b) = capacity b" "0 < capacity b" "buf_end b < capacity b"
    "available_data b + length d \<le> capacity b"
    by (auto simp: valid_buffer_def available_space_def)
  have nth: "contents (store d b) ! i =
      scatter (buf_end b) d (memory b) ! ((position b + i) mod capacity b)"
    using i by (simp add: contents_def store_def)
  show "contents (store d b) ! i = (contents b @ d) ! i"
  proof (cases "i < available_data b")
    case True
    have "(buf_end b + j) mod capacity b \<noteq> (position b + i) mod capacity b" if "j < length d" for j
      using add_mod_cancel[of "position b" i "capacity b" "available_data b + j"] store_mod[OF v, of j]
        True that c by auto
    then have "scatter (buf_end b) d (memory b) ! ((position b + i) mod capacity b)
        = memory b ! ((position b + i) mod capacity b)"
      using c by (intro nth_scatter_miss) auto
    with True nth show ?thesis by (simp add: nth_append) (simp add: contents_def)
  next
    case False
    then have "(position b + i) mod capacity b = (buf_end b + (i - available_data b)) mod capacity b"
      using store_mod[OF v, of "i - available_data b"] by (simp add: not_less)
    with False nth nth_scatter_hit[of "buf_end b" "memory b" d "i - available_data b"] c i
    show ?thesis by (simp add: nth_append)
  qed
qed

lemma write_parts_scatter:
  assumes v: "valid_buffer b"
  shows "write_parts data b =
    (let amt = min (length data) (available_space b)
     in (amt, scatter (buf_end b) (take amt data) (memory b)))"
  using v
proof (cases rule: valid_end_cases)
  case straight
  let ?l = "capacity b - buf_end b"
  from v straight have sp: "available_space b = position b + ?l" "0 < ?l" "length (memory b) = capacity b"
    by (auto simp: valid_buffer_def available_space_def)
  from straight have "\<not> buf_end b < position b" by simp
  then have "write_parts data b = (min (length data) (position b + ?l),
      overwrite (overwrite (memory b) (buf_end b) (take ?l data)) 0 (take (position b) (drop ?l data)))"
    using sp by (auto simp: write_parts_def slice_write_def min_def)
  moreover have "drop ?l (take (min (length data) (position b + ?l)) data) = take (position b) (drop ?l data)"
    by (simp add: take_drop add.commute min_def)
  ultimately show ?thesis by (simp add: sp scatter_def min_def Let_def)
next
  case wrapped
  with v have sp: "available_space b = position b - buf_end b" "length (memory b) = capacity b"
    "position b - buf_end b \<le> capacity b - buf_end b"
    by (auto simp: valid_buffer_def available_space_def)
  show ?thesis
  proof (cases "available_space b = 0")
    case True
    then show ?thesis by (simp add: write_parts_def scatter_def)
  next
    case False
    with sp wrapped have "\<not> position b \<le> buf_end b" by simp
    with False sp show ?thesis
      by (auto simp: write_parts_def slice_write_def scatter_def min_def Let_def)
  qed
qed

lemma fill_valid:
  assumes "valid_buffer b"
  shows "fill n b = (let cnt = min n (available_space b) in
    Some (cnt, b\<lparr>buf_end := (buf_end b + cnt) mod capacity b, available_data := available_data b + cnt\<rparr>))"
  using assms by (simp add: fill_def valid_buffer_def Let_def)

lemma valid_memory_update:
  "valid_buffer b \<Longrightarrow> length m = capacity b \<Longrightarrow> valid_buffer (b\<lparr>memory := m\<rparr>)"
  by (simp add: valid_buffer_def)

lemma fill_scatter:
  assumes "valid_buffer b" "length d \<le> available_space b"
  shows "fill (length d) (b\<lparr>memory := scatter (buf_end b) d (memory b)\<rparr>) = Some (length d, store d b)"
proof -
  from assms have "length (scatter (buf_end b) d (memory b)) = capacity b"
    by (auto simp: valid_buffer_def available_space_def)
  from fill_valid[OF valid_memory_update[OF assms(1) this], of "length d"] assms(2) show ?thesis
    by (simp add: store_def available_space_def Let_def)
qed

lemma buffer_write_store:
  assumes "valid_buffer b"
  shows "buffer_write data b =
    (let amt = min (length data) (available_space b) in Some (amt, store (take amt data) b))"
  using fill_scatter[OF assms, of "take (min (length data) (available_space b)) data"]
  by (simp add: buffer_write_def write_parts_scatter[OF assms] Let_def)

section \<open>Taking bytes from the front\<close>

lemma consume_valid:
  assumes "valid_buffer b"
  shows "consume n b = (let cnt = min n (available_data b) in
    Some (cnt, b\<lparr>position := (position b + cnt) mod capacity b,
                 available_data := available_data b - cnt\<rparr>))"
  using assms by (simp add: consume_def valid_buffer_def Let_def)

lemma consume_contents:
  assumes "valid_buffer b"
  shows "\<exists>b'. consume n b = Some (min n (available_data b), b') \<and> valid_buffer b'
    \<and> contents b' = drop n (contents b) \<and> capacity b' = capacity b"
proof -
  let ?cnt = "min n (available_data b)"
  let ?b = "b\<lparr>position := (position b + ?cnt) mod capacity b, available_data := available_data b - ?cnt\<rparr>"
  from assms have "valid_buffer ?b"
    using add_mod_diff[of ?cnt "available_data b" "position b" "capacity b"]
    by (auto simp: valid_buffer_def)
  moreover from assms have "contents ?b = drop n (contents b)"
    by (intro nth_equalityI) (auto simp: contents_def mod_simps add.assoc)
  ultimately show ?thesis by (simp add: consume_valid[OF assms] Let_def)
qed

section \<open>The contract of a byte queue\<close>

text \<open>
  What the serializer and the socket loop rely on: a queue of bytes that accepts as much of its input
  as it has room for and drops from the front.  The clients' fact is about every sequence of such
  operations.
\<close>

datatype queue_op = Put "byte list" | Skip nat

text \<open>A run returns the bytes accepted, the number of bytes dropped and the final state.\<close>

fun run_queue ::
  "(byte list \<Rightarrow> 'b \<Rightarrow> (nat \<times> 'b) option) \<Rightarrow> (nat \<Rightarrow> 'b \<Rightarrow> (nat \<times> 'b) option) \<Rightarrow> queue_op list \<Rightarrow> 'b
    \<Rightarrow> (byte list \<times> nat \<times> 'b) option" where
  "run_queue put skip [] b = Some ([], 0, b)"
| "run_queue put skip (Put d # ops) b =
    (case put d b of None \<Rightarrow> None
     | Some (n, b') \<Rightarrow> map_option (\<lambda>(acc, k, b''). (take n d @ acc, k, b'')) (run_queue put skip ops b'))"
| "run_queue put skip (Skip m # ops) b =
    (case skip m b of None \<Rightarrow> None
     | Some (n, b') \<Rightarrow> map_option (\<lambda>(acc, k, b''). (acc, n + k, b'')) (run_queue put skip ops b'))"

locale byte_queue =
  fixes inv :: "'b \<Rightarrow> bool"
    and items :: "'b \<Rightarrow> byte list"
    and room :: "'b \<Rightarrow> nat"
    and put :: "byte list \<Rightarrow> 'b \<Rightarrow> (nat \<times> 'b) option"
    and skip :: "nat \<Rightarrow> 'b \<Rightarrow> (nat \<times> 'b) option"
  assumes put_law: "inv b \<Longrightarrow> \<exists>b'. put d b = Some (min (length d) (room b), b') \<and> inv b'
      \<and> items b' = items b @ take (min (length d) (room b)) d"
    and skip_law: "inv b \<Longrightarrow> \<exists>b'. skip n b = Some (min n (length (items b)), b') \<and> inv b'
      \<and> items b' = drop n (items b)"
begin

lemma run_fifo:
  assumes "inv b"
  shows "\<exists>acc k b'. run_queue put skip ops b = Some (acc, k, b') \<and> inv b'
    \<and> k \<le> length (items b @ acc) \<and> items b' = drop k (items b @ acc)"
  using assms
proof (induction ops arbitrary: b)
  case Nil
  then show ?case by simp
next
  case (Cons opn ops)
  show ?case
  proof (cases opn)
    case (Put d)
    obtain b1 where b1: "put d b = Some (min (length d) (room b), b1)" "inv b1"
      "items b1 = items b @ take (min (length d) (room b)) d"
      using put_law[OF Cons.prems] by blast
    from Cons.IH[OF b1(2)] b1 Put show ?thesis by auto
  next
    case (Skip m)
    obtain b1 where b1: "skip m b = Some (min m (length (items b)), b1)" "inv b1"
      "items b1 = drop m (items b)"
      using skip_law[OF Cons.prems] by blast
    obtain acc k b' where ih: "run_queue put skip ops b1 = Some (acc, k, b')" "inv b'"
      "k \<le> length (items b1 @ acc)" "items b' = drop k (items b1 @ acc)"
      using Cons.IH[OF b1(2)] by blast
    have "drop k (drop m (items b) @ acc) = drop (min m (length (items b)) + k) (items b @ acc)"
      by (cases "m \<le> length (items b)") (simp_all add: add.commute)
    with ih b1 Skip show ?thesis by auto
  qed
qed

end

interpretation rb: byte_queue valid_buffer contents available_space buffer_write consume
proof
  fix b :: buffer and d :: "byte list"
  assume "valid_buffer b"
  then show "\<exists>b'. buffer_write d b = Some (min (length d) (available_space b), b') \<and> valid_buffer b'
      \<and> contents b' = contents b @ take (min (length d) (available_space b)) d"
    by (simp add: buffer_write_store valid_store contents_store Let_def)
next
  fix b :: buffer and n :: nat
  assume "valid_buffer b"
  then show "\<exists>b'. consume n b = Some (min n (length (contents b)), b') \<and> valid_buffer b'
      \<and> contents b' = drop n (contents b)"
    using consume_contents by fastforce
qed

text \<open>
  C5: any sequence of writes and consumes on a valid ring buffer runs without a panic and behaves as a
  first-in first-out queue of bytes: what is left is what was there followed by what was accepted,
  without the bytes consumed.
\<close>

theorem buffer_fifo:
  assumes "valid_buffer b"
  shows "\<exists>acc k b'. run_queue buffer_write consume ops b = Some (acc, k, b') \<and> valid_buffer b'
    \<and> k \<le> length (contents b @ acc) \<and> contents b' = drop k (contents b @ acc)"
  using assms by (rule rb.run_fifo)

theorem buffer_fifo_witness:
  "valid_buffer (with_capacity 3)
   \<and> (\<exists>acc k b'. run_queue buffer_write consume [Put [1, 2], Skip 1, Put [3, 4, 5]] (with_capacity 3)
        = Some (acc, k, b') \<and> contents b' = drop k acc)"
  using valid_with_capacity[of 3]
    buffer_fifo[of "with_capacity 3" "[Put [1, 2], Skip 1, Put [3, 4, 5]]"]
  by auto

section \<open>The socket side\<close>



lemma scatter_straight: "length d \<le> length mem - e \<Longrightarrow> scatter e d mem = overwrite mem e d"
  by (simp add: scatter_def)

text \<open>The lengths of the free segments offered to the socket.\<close>

definition free_segments :: "buffer \<Rightarrow> nat list" where
  "free_segments b =
    (if buf_end b \<ge> position b then [length (memory b) - buf_end b, position b]
     else [position b - buf_end b])"

lemma sum_free_segments:
  assumes "valid_buffer b" "available_space b \<noteq> 0"
  shows "sum_list (free_segments b) = available_space b"
  using assms(1)
  by (cases rule: valid_end_cases)
     (use assms in \<open>auto simp: free_segments_def valid_buffer_def available_space_def\<close>)

lemma poll_read_answer:
  "poll_read_from (\<lambda>n. R [n]) R b =
    (if available_space b = 0 then (Ready (Inr 0), b)
     else case R (free_segments b) of
       Pending \<Rightarrow> (Pending, b)
     | Ready (Inl e) \<Rightarrow> (Ready (Inl e), b)
     | Ready (Inr d) \<Rightarrow>
         (Ready (Inr (length d)),
          b\<lparr>memory := (if buf_end b \<ge> position b then scatter (buf_end b) d (memory b)
                       else overwrite (memory b) (buf_end b) d)\<rparr>))"
  by (simp add: poll_read_from_def free_segments_def scatter_def Let_def split: poll.split sum.split)

lemma overwrite_scatter:
  assumes "valid_buffer b" "buf_end b < position b" "length d \<le> available_space b"
  shows "overwrite (memory b) (buf_end b) d = scatter (buf_end b) d (memory b)"
  using assms(1)
  by (cases rule: valid_end_cases)
     (use assms in \<open>auto simp: scatter_straight valid_buffer_def available_space_def\<close>)

text \<open>
  C12: when the socket delivers bytes, no more than the segments it was offered can hold, then the
  \<^verbatim>\<open>fill\<close> that follows makes exactly those bytes the newest contents of the buffer.
\<close>

theorem poll_read_appends:
  assumes v: "valid_buffer b"
    and sp: "available_space b \<noteq> 0"
    and R: "R (free_segments b) = Ready (Inr d)"
    and d: "length d \<le> sum_list (free_segments b)"
  shows "\<exists>b' b''. poll_read_from (\<lambda>n. R [n]) R b = (Ready (Inr (length d)), b')
    \<and> fill (length d) b' = Some (length d, b'') \<and> valid_buffer b'' \<and> contents b'' = contents b @ d"
proof -
  from d have d': "length d \<le> available_space b" by (simp add: sum_free_segments[OF v sp])
  have "poll_read_from (\<lambda>n. R [n]) R b =
      (Ready (Inr (length d)), b\<lparr>memory := scatter (buf_end b) d (memory b)\<rparr>)"
    using overwrite_scatter[OF v _ d'] by (simp add: poll_read_answer sp R)
  with fill_scatter[OF v d'] valid_store[OF v d'] contents_store[OF v d'] show ?thesis by auto
qed

theorem poll_read_appends_witness:
  "\<exists>b' b''. poll_read_from (\<lambda>_. (Ready (Inr [5, 6]) :: (unit, byte list) poll)) (\<lambda>_. Ready (Inr [5, 6]))
      (with_capacity 4) = (Ready (Inr 2), b')
    \<and> fill 2 b' = Some (2, b'') \<and> contents b'' = [5, 6]"
  using poll_read_appends[of "with_capacity 4" "\<lambda>_. Ready (Inr [5, 6]) :: (unit, byte list) poll" "[5, 6]"]
    valid_with_capacity[of 4]
  by (simp add: available_space_def with_capacity_def free_segments_def numeral_2_eq_2) blast

section \<open>The parser's view\<close>

lemma iter_parsing_context:
  assumes "valid_buffer b"
  shows "pc_iter (parsing_context_of base b) = contents b"
  using assms
proof (cases rule: valid_end_cases)
  case straight
  with assms contents_straight[OF assms straight(1)] show ?thesis
    by (auto simp: parsing_context_of_def pc_defs mem_slice_def valid_buffer_def contents_def)
next
  case wrapped
  with contents_wrapped[OF assms wrapped(1)] show ?thesis
    by (auto simp: parsing_context_of_def pc_defs mem_slice_def)
qed

lemma offset_taken:
  assumes v: "valid_buffer b" and n: "0 < n" "n \<le> available_data b"
  shows "\<exists>pc b'. pc_take_from n (parsing_context_of base b) = Some pc \<and> pc_iter pc = drop n (contents b)
    \<and> offset base pc b = n \<and> consume n b = Some (n, b') \<and> valid_buffer b' \<and> contents b' = drop n (contents b)
    \<and> capacity b' = capacity b"
proof -
  obtain pc where pc: "pc_take_from n (parsing_context_of base b) = Some pc"
    "pc_iter pc = drop n (contents b)"
    using pc_take_from_iter[of n "parsing_context_of base b"] n
    by (auto simp: iter_parsing_context[OF v])
  have "offset base pc b = n"
    using v
  proof (cases rule: valid_end_cases)
    case straight
    with v n pc(1) show ?thesis
      by (auto simp: parsing_context_of_def pc_take_from_def pc_defs mem_slice_def valid_buffer_def
          offset_def pc_as_ptr_def split: if_splits)
  next
    case wrapped
    with v n pc(1) show ?thesis
      by (auto simp: parsing_context_of_def pc_take_from_def pc_defs mem_slice_def valid_buffer_def
          offset_def pc_as_ptr_def Let_def split: if_splits)
  qed
  with consume_contents[OF v, of n] n pc show ?thesis by (auto simp: min_def)
qed

text \<open>
  After the parser took \<^term>\<open>n\<close> bytes from its view of a buffer, \<^verbatim>\<open>offset\<close>, which only sees the address of
  what is left, is \<^term>\<open>n\<close>, on both sides of the wrap-around; consuming that many bytes leaves exactly
  what the parser left.
\<close>

lemma offset_counts_consumed:
  assumes v: "valid_buffer b" and n: "0 < n" "n \<le> available_data b"
  shows "\<exists>pc b'. pc_take_from n (parsing_context_of base b) = Some pc \<and> offset base pc b = n
    \<and> consume (offset base pc b) b = Some (n, b') \<and> contents b' = pc_iter pc"
  using offset_taken[OF assms, of base] by auto

lemma offset_counts_consumed_witness:
  "\<exists>pc b'. pc_take_from 1 (parsing_context_of 100 (store [7, 8] (with_capacity 2))) = Some pc
    \<and> offset 100 pc (store [7, 8] (with_capacity 2)) = 1
    \<and> consume 1 (store [7, 8] (with_capacity 2)) = Some (1, b')"
proof -
  have v: "valid_buffer (store [7, 8] (with_capacity 2))"
    using valid_with_capacity[of 2] by (intro valid_store) (simp_all add: available_space_def with_capacity_def)
  from offset_counts_consumed[OF v, of 1 100] show ?thesis
    by (auto simp: store_def with_capacity_def)
qed

section \<open>Checkpoints\<close>

text \<open>Two buffers at the same position, one holding \<^term>\<open>k\<close> bytes more than the other.\<close>

definition ahead :: "nat \<Rightarrow> buffer \<Rightarrow> buffer \<Rightarrow> bool" where
  "ahead k b b' \<longleftrightarrow> valid_buffer b \<and> valid_buffer b' \<and> position b' = position b \<and> capacity b' = capacity b
     \<and> available_data b' = available_data b + k"

lemma ahead_end:
  assumes "ahead k b b'" "k < capacity b"
  shows "buf_end b < capacity b" "buf_end b' = (if buf_end b + k < capacity b then buf_end b + k else buf_end b + k - capacity b)"
proof -
  from assms show e: "buf_end b < capacity b" by (simp add: ahead_def valid_end_less)
  from assms have "buf_end b' = (buf_end b + k) mod capacity b"
    by (simp add: ahead_def valid_buffer_def mod_simps add.assoc)
  with e assms(2) show "buf_end b' = (if buf_end b + k < capacity b then buf_end b + k else buf_end b + k - capacity b)"
    by (simp add: add_mod_wrap)
qed

lemma rollback_backward:
  assumes "ahead k b b'" "k < capacity b"
  shows "rollback (checkpoint_of b) b' = Some (b'\<lparr>available_data := available_data b, buf_end := buf_end b\<rparr>)"
  using assms ahead_end[OF assms]
  by (auto simp: rollback_def checkpoint_of_def ahead_def Let_def)

lemma rollback_forward:
  assumes "ahead k b b'" "k < capacity b"
  shows "rollback ((checkpoint_of b')\<lparr>cp_backwards := False\<rparr>) b
    = Some (b\<lparr>available_data := available_data b', buf_end := buf_end b'\<rparr>)"
  using assms ahead_end[OF assms]
  by (auto simp: rollback_def checkpoint_of_def ahead_def Let_def)

lemma ahead_store: "valid_buffer b \<Longrightarrow> length d \<le> available_space b \<Longrightarrow> ahead (length d) b (store d b)"
  by (simp add: ahead_def valid_store)

lemma contents_truncate:
  "a \<le> available_data b \<Longrightarrow> contents (b\<lparr>available_data := a, buf_end := e\<rparr>) = take a (contents b)"
  by (simp add: contents_def take_map)

lemma valid_truncate:
  "ahead k b b' \<Longrightarrow> valid_buffer (b'\<lparr>available_data := available_data b, buf_end := buf_end b\<rparr>)"
  by (auto simp: ahead_def valid_buffer_def)

lemma rollback_store:
  assumes "valid_buffer b" "length d \<le> available_space b" "length d < capacity b"
  shows "\<exists>b'. rollback (checkpoint_of b) (store d b) = Some b' \<and> valid_buffer b' \<and> contents b' = contents b
    \<and> capacity b' = capacity b"
  using rollback_backward[OF ahead_store[OF assms(1,2)] assms(3)]
    valid_truncate[OF ahead_store[OF assms(1,2)]] contents_store[OF assms(1,2)]
    contents_truncate[of "available_data b" "store d b" "buf_end b"]
  by simp

text \<open>
  C13: rolling back to a checkpoint undoes what was written since it was taken: the buffer holds again
  exactly the bytes it held then.  The amount written must be smaller than the capacity of the
  buffer.
\<close>

theorem rollback_undoes_writes:
  assumes "valid_buffer b" "length d \<le> available_space b" "length d < capacity b"
  shows "\<exists>b'. rollback (checkpoint_of b) (store d b) = Some b' \<and> valid_buffer b' \<and> contents b' = contents b"
  using rollback_store[OF assms] by blast

theorem rollback_undoes_writes_witness:
  "\<exists>b'. rollback (checkpoint_of (with_capacity 3)) (store [1, 2] (with_capacity 3)) = Some b'
     \<and> valid_buffer b' \<and> contents b' = []"
  using rollback_undoes_writes[of "with_capacity 3" "[1, 2]"] valid_with_capacity[of 3]
  by (simp add: available_space_def with_capacity_def)

text \<open>
  C21: when the bytes written since the checkpoint fill the whole capacity, the end pointer is back where
  it was and the rollback does nothing: the buffer keeps all those bytes.
\<close>

theorem rollback_full_buffer_is_noop:
  assumes "valid_buffer b" "available_data b = 0" "length d = capacity b"
  shows "rollback (checkpoint_of b) (store d b) = Some (store d b) \<and> contents (store d b) = d"
  using assms contents_store[of b d]
  by (auto simp: rollback_def checkpoint_of_def store_def available_space_def valid_buffer_def contents_def)

theorem rollback_full_buffer_is_noop_witness:
  "rollback (checkpoint_of (with_capacity 2)) (store [1, 2] (with_capacity 2)) = Some (store [1, 2] (with_capacity 2))"
  using rollback_full_buffer_is_noop[of "with_capacity 2" "[1, 2]"] valid_with_capacity[of 2]
  by (simp add: with_capacity_def)

section \<open>Reserving room for a length written afterwards\<close>

lemma fill_store:
  assumes "valid_buffer b" "n \<le> available_space b"
  shows "\<exists>r b'. length r = n \<and> fill n b = Some (n, b') \<and> ahead n b b' \<and> contents b' = contents b @ r"
proof -
  let ?b = "b\<lparr>buf_end := (buf_end b + n) mod capacity b, available_data := available_data b + n\<rparr>"
  have "ahead n b ?b"
    using assms by (auto simp: ahead_def valid_buffer_def available_space_def mod_simps add.assoc)
  moreover have "contents b = take (available_data b) (contents ?b)"
    by (simp add: contents_def take_map)
  then have "contents ?b = contents b @ drop (available_data b) (contents ?b)"
    by (metis append_take_drop_id)
  ultimately show ?thesis using fill_valid[OF assms(1), of n] assms(2)
    by (intro exI[of _ "drop (available_data b) (contents ?b)"] exI[of _ ?b]) (simp add: Let_def)
qed

lemma memory_store_beyond:
  assumes v: "valid_buffer b" and d: "length d \<le> available_space b"
    and i: "available_data b + length d \<le> i" "i < capacity b"
  shows "memory (store d b) ! ((position b + i) mod capacity b) = memory b ! ((position b + i) mod capacity b)"
proof -
  have "(buf_end b + j) mod capacity b \<noteq> (position b + i) mod capacity b" if "j < length d" for j
    using add_mod_cancel[of "position b" i "capacity b" "available_data b + j"] store_mod[OF v, of j]
      i that by auto
  with v d i show ?thesis
    by (auto simp: store_def valid_buffer_def available_space_def intro!: nth_scatter_miss)
qed

text \<open>Filling in reserved bytes under data already written behind them.\<close>

lemma store_under:
  assumes a: "ahead (length h) b b1" and g: "length g \<le> available_space b1"
  defines "b3 \<equiv> (store g b1)\<lparr>available_data := available_data b, buf_end := buf_end b\<rparr>"
  defines "b5 \<equiv> (store h b3)\<lparr>available_data := available_data (store g b1), buf_end := buf_end (store g b1)\<rparr>"
  assumes c: "contents b1 = contents b @ r" "length r = length h"
  shows "valid_buffer b3" "length h \<le> available_space b3" "ahead (length g) (store h b3) (store g b1)"
    "valid_buffer b5" "contents b5 = contents b @ h @ g"
proof -
  let ?b2 = "store g b1"
  from a have v1: "valid_buffer b1" "valid_buffer b" "position b1 = position b" "capacity b1 = capacity b"
    "available_data b1 = available_data b + length h"
    by (auto simp: ahead_def)
  have v2: "valid_buffer ?b2" and c2: "contents ?b2 = contents b1 @ g"
    using valid_store[OF v1(1) g] contents_store[OF v1(1) g] by auto
  have "ahead (length h + length g) b ?b2"
    using v1 v2 by (simp add: ahead_def)
  from valid_truncate[OF this] show v3: "valid_buffer b3" by (simp add: b3_def)
  have c3: "contents b3 = contents b"
    using contents_truncate[of "available_data b" ?b2 "buf_end b"] c2 c v1 by (simp add: b3_def)
  have f3: "position b3 = position b" "capacity b3 = capacity b" "available_data b3 = available_data b"
    "memory b3 = memory ?b2"
    using v1 by (simp_all add: b3_def)
  from v1 f3 show h: "length h \<le> available_space b3"
    by (auto simp: available_space_def valid_buffer_def)
  note vh = valid_store[OF v3 h] contents_store[OF v3 h]
  from vh v2 v1 f3 show "ahead (length g) (store h b3) ?b2" by (simp add: ahead_def)
  from vh v2 v1 f3 show "valid_buffer b5" by (simp add: b5_def valid_buffer_def)
  show "contents b5 = contents b @ h @ g"
  proof (rule nth_equalityI)
    show "length (contents b5) = length (contents b @ h @ g)" using v1 by (simp add: b5_def)
  next
    fix i assume "i < length (contents b5)"
    then have i: "i < available_data b + length h + length g" using v1 by (simp add: b5_def)
    have m: "contents b5 ! i = memory (store h b3) ! ((position b + i) mod capacity b)"
      using i v1 f3 by (simp add: nth_contents b5_def)
    show "contents b5 ! i = (contents b @ h @ g) ! i"
    proof (cases "i < available_data b + length h")
      case True
      with m f3 nth_contents[of i "store h b3"] have "contents b5 ! i = contents (store h b3) ! i" by simp
      also have "\<dots> = ((contents b @ h) @ g) ! i"
        using True vh c3 by (simp only: nth_append length_append length_contents if_True)
      finally show ?thesis by simp
    next
      case False
      then have "available_data b3 + length h \<le> i" "i < capacity b3" "i < available_data ?b2"
        using i v1 f3 v2 by (auto simp: valid_buffer_def)
      with m memory_store_beyond[OF v3 h, of i] f3 v1 nth_contents[of i ?b2]
      have "contents b5 ! i = (contents b1 @ g) ! i" by (simp add: c2)
      with False i v1 show ?thesis by (auto simp: nth_append)
    qed
  qed
qed

text \<open>
  Reserving room, generating the data that follows and then filling in the reserved bytes leaves
  the reserved bytes in front of the generated ones, behind what was waiting before.  The generator
  and the writer of the reserved bytes append what they are given when there is room for it.
\<close>

lemma reserve_write_use_order:
  assumes v: "valid_buffer b"
    and gen: "\<And>b. length g \<le> available_space b \<Longrightarrow> generator b = (store g b, Inr tmp)"
    and bef: "\<And>b. length h \<le> available_space b \<Longrightarrow> before b tmp = (store h b, Inr ())"
    and room: "length h + length g \<le> available_space b" "length h + length g < capacity b"
  shows "\<exists>b'. reserve_write_use (length h) generator before b = Some (b', Inr ())
    \<and> valid_buffer b' \<and> contents b' = contents b @ h @ g"
proof -
  obtain r b1 where r: "length r = length h" "fill (length h) b = Some (length h, b1)"
    and a: "ahead (length h) b b1" and c: "contents b1 = contents b @ r"
    using fill_store[OF v, of "length h"] room by auto
  have g: "length g \<le> available_space b1"
    using a room by (simp add: ahead_def available_space_def)
  have a2: "ahead (length h + length g) b (store g b1)"
    using a valid_store[OF _ g] by (simp add: ahead_def)
  note undo = rollback_backward[OF a2 room(2)]
  note under = store_under[OF a g c r(1)]
  have "rollback ((checkpoint_of (store g b1))\<lparr>cp_backwards := False\<rparr>)
      (store h ((store g b1)\<lparr>available_data := available_data b, buf_end := buf_end b\<rparr>))
    = Some ((store h ((store g b1)\<lparr>available_data := available_data b, buf_end := buf_end b\<rparr>))
        \<lparr>available_data := available_data (store g b1), buf_end := buf_end (store g b1)\<rparr>)"
    using room(2) a by (intro rollback_forward[OF under(3)]) (simp add: ahead_def)
  with undo under gen[OF g] bef[OF under(2)] r room show ?thesis
    by (simp add: reserve_write_use_def Let_def)
qed

lemma reserve_write_use_order_witness:
  "\<exists>b'. reserve_write_use 1 (\<lambda>b. (store [8, 9] b, Inr ())) (\<lambda>b _. (store [2] b, Inr ())) (with_capacity 5)
      = Some (b', (Inr () :: unit gen_error + unit)) \<and> contents b' = [2, 8, 9]"
  using reserve_write_use_order[of "with_capacity 5" "[8, 9]" "\<lambda>b. (store [8, 9] b, Inr ())" "()" "[2]"
      "\<lambda>b _. (store [2] b, (Inr () :: unit gen_error + unit))"] valid_with_capacity[of 5]
  by (auto simp: available_space_def with_capacity_def)

section \<open>Growing\<close>

lemma grow_straight:
  assumes v: "valid_buffer b" and n: "capacity b < n" and s: "position b + available_data b < capacity b"
  shows "\<exists>b'. grow n b = Some (True, b') \<and> valid_buffer b' \<and> capacity b' = n \<and> contents b' = contents b"
proof -
  let ?b = "b\<lparr>memory := memory b @ replicate (n - capacity b) 0, capacity := n\<rparr>"
  from v n s have g: "grow n b = Some (True, ?b)"
    by (auto simp: grow_def valid_buffer_def Let_def)
  from v n s have v': "valid_buffer ?b" by (auto simp: valid_buffer_def)
  from v n s have "contents ?b = contents b"
    by (auto simp: contents_def valid_buffer_def nth_append)
  with g v' show ?thesis by simp
qed

lemma grow_wrapped:
  assumes v: "valid_buffer b" and n: "capacity b < n" and w: "capacity b \<le> position b + available_data b"
    and e: "n - capacity b \<le> buf_end b"
  shows "\<exists>b'. grow n b = Some (True, b') \<and> valid_buffer b' \<and> capacity b' = n \<and> contents b' = contents b"
proof -
  let ?g = "n - capacity b" and ?e = "buf_end b" and ?p = "position b"
  let ?m1 = "memory b @ take ?g (memory b)"
  let ?m2 = "drop ?g (take ?e (memory b)) @ drop (?e - ?g) ?m1"
  let ?b = "b\<lparr>memory := ?m2, capacity := n, buf_end := ?e - ?g\<rparr>"
  from v w have f: "?e \<le> ?p" "?e = ?p + available_data b - capacity b" "0 < available_data b"
    by (cases rule: valid_end_cases; simp)+
  from v have l: "length (memory b) = capacity b" "?p < capacity b" "available_data b \<le> capacity b"
    by (auto simp: valid_buffer_def)
  have "grow n b = Some (True, ?b)"
    using f l n e by (simp add: grow_def overwrite_def Let_def min_def)
  moreover have v': "valid_buffer ?b"
    using f l n e by (auto simp: valid_buffer_def mod_if)
  moreover have "contents ?b = contents b"
  proof -
    have "contents ?b = drop ?p ?m2 @ take (?e - ?g) ?m2"
      using contents_wrapped[OF v'] f l n e by simp
    also have "\<dots> = drop ?p (memory b) @ take ?g (memory b) @ drop ?g (take ?e (memory b))"
      using f l n e by simp
    also have "take ?g (memory b) @ drop ?g (take ?e (memory b)) = take ?e (memory b)"
      by (metis append_take_drop_id e min.absorb1 take_take)
    finally show ?thesis using contents_wrapped[OF v w] by simp
  qed
  ultimately show ?thesis by simp
qed





end
