(* ===== verification/Errors.thy ===== *)
theory Errors
  imports Prelude
begin

text \<open>
  Model of \<^verbatim>\<open>src/error.rs\<close>, of the recovery switch of \<^verbatim>\<open>src/configuration.rs\<close>, and of the two life-cycle
  enumerations that errors mention (\<^verbatim>\<open>ChannelState\<close> of \<^verbatim>\<open>src/channel_status.rs\<close>, \<^verbatim>\<open>ConnectionState\<close> of
  \<^verbatim>\<open>src/connection_status.rs\<close>).  The parser's and the serializer's errors belong to the protocol crate
  and are carried unchanged: they are tokens here.
\<close>

section \<open>Life-cycle states\<close>

datatype channel_state = ChInitial | ChReconnecting | ChConnected | ChClosing | ChClosed | ChError

datatype connection_state =
  CsInitial | CsConnecting | CsConnected | CsClosing | CsClosed | CsReconnecting | CsError

section \<open>Errors\<close>

text \<open>
  An AMQP error is soft (it closes a channel) or hard (it closes the connection), with the reply
  code of the AMQP 0-9-1 specification and a message.
\<close>

datatype amqp_error_kind = Soft reply_code | Hard reply_code

record amqp_error =
  ae_kind :: amqp_error_kind
  ae_message :: string

definition get_id :: "amqp_error \<Rightarrow> reply_code" where
  "get_id e = (case ae_kind e of Soft c \<Rightarrow> c | Hard c \<Rightarrow> c)"

abbreviation precondition_failed :: amqp_error_kind where "precondition_failed \<equiv> Soft 406"
abbreviation frame_error :: amqp_error_kind where "frame_error \<equiv> Hard 501"
abbreviation command_invalid :: amqp_error_kind where "command_invalid \<equiv> Hard 503"
abbreviation channel_error :: amqp_error_kind where "channel_error \<equiv> Hard 504"
abbreviation unexpected_frame :: amqp_error_kind where "unexpected_frame \<equiv> Hard 505"

text \<open>The kinds of \<^verbatim>\<open>std::io::Error\<close> that the source distinguishes.\<close>

datatype io_error_kind = WouldBlock | Interrupted | ConnectionAborted | OtherIo string

datatype parser_error = ParserError nat
datatype serialisation_error = GenError nat
datatype protocol_version = ProtocolVersion byte byte byte

definition amqp_0_9_1 :: protocol_version where
  "amqp_0_9_1 = ProtocolVersion 0 9 1"

datatype error_kind =
    ChannelsLimitReached
  | InvalidProtocolVersion protocol_version
  | InvalidChannel channel_id
  | InvalidChannelState channel_state string
  | InvalidConnectionState connection_state
  | IOError io_error_kind
  | RuntimeShutdownError io_error_kind
  | ParsingError parser_error
  | ProtocolError amqp_error
  | SerialisationError serialisation_error
  | AuthProviderError string
  | FutureCompleted
  | NoDefaultRuntime
  | MissingHeartbeatError

text \<open>The notifier is the index of a one-shot flag in the store.\<close>

record error =
  kind :: error_kind
  notifier :: "nat option"

definition error_of :: "error_kind \<Rightarrow> error" where
  "error_of k = \<lparr>kind = k, notifier = None\<rparr>"

definition with_notifier :: "nat option \<Rightarrow> error \<Rightarrow> error" where
  "with_notifier n e = e\<lparr>notifier := n\<rparr>"

text \<open>\<^verbatim>\<open>Error::io\<close>: whether the runtime was shut down is the runtime's answer.\<close>

definition error_io :: "(io_error_kind \<Rightarrow> bool) \<Rightarrow> io_error_kind \<Rightarrow> error" where
  "error_io is_shutdown k =
    (if is_shutdown k then error_of (RuntimeShutdownError k) else error_of (IOError k))"

definition wouldblock :: "error \<Rightarrow> bool" where
  "wouldblock e = (case kind e of IOError k \<Rightarrow> k = WouldBlock | _ \<Rightarrow> False)"

definition interrupted :: "error \<Rightarrow> bool" where
  "interrupted e = (case kind e of IOError k \<Rightarrow> k = Interrupted | _ \<Rightarrow> False)"

definition is_runtime_shutdown_error :: "error \<Rightarrow> bool" where
  "is_runtime_shutdown_error e = (case kind e of RuntimeShutdownError _ \<Rightarrow> True | _ \<Rightarrow> False)"

definition is_io_error :: "error \<Rightarrow> bool" where
  "is_io_error e = ((case kind e of IOError _ \<Rightarrow> True | _ \<Rightarrow> False) \<or> is_runtime_shutdown_error e)"

definition is_amqp_error :: "error \<Rightarrow> bool" where
  "is_amqp_error e = (case kind e of ProtocolError _ \<Rightarrow> True | _ \<Rightarrow> False)"

definition is_amqp_soft_error :: "error \<Rightarrow> bool" where
  "is_amqp_soft_error e =
    (case kind e of ProtocolError a \<Rightarrow> (case ae_kind a of Soft _ \<Rightarrow> True | Hard _ \<Rightarrow> False) | _ \<Rightarrow> False)"

definition is_amqp_hard_error :: "error \<Rightarrow> bool" where
  "is_amqp_hard_error e =
    (case kind e of ProtocolError a \<Rightarrow> (case ae_kind a of Soft _ \<Rightarrow> False | Hard _ \<Rightarrow> True) | _ \<Rightarrow> False)"

fun kind_can_be_recovered :: "error_kind \<Rightarrow> bool" where
  "kind_can_be_recovered ChannelsLimitReached = False"
| "kind_can_be_recovered (InvalidProtocolVersion _) = False"
| "kind_can_be_recovered (InvalidChannel _) = True"
| "kind_can_be_recovered (InvalidChannelState _ _) = True"
| "kind_can_be_recovered (InvalidConnectionState _) = True"
| "kind_can_be_recovered (IOError _) = True"
| "kind_can_be_recovered (RuntimeShutdownError _) = False"
| "kind_can_be_recovered (ParsingError _) = False"
| "kind_can_be_recovered (ProtocolError _) = True"
| "kind_can_be_recovered (SerialisationError _) = False"
| "kind_can_be_recovered (AuthProviderError _) = False"
| "kind_can_be_recovered FutureCompleted = False"
| "kind_can_be_recovered NoDefaultRuntime = False"
| "kind_can_be_recovered MissingHeartbeatError = True"

definition can_be_recovered :: "error \<Rightarrow> bool" where
  "can_be_recovered e = kind_can_be_recovered (kind e)"

text \<open>The \<^verbatim>\<open>PartialEq\<close> of the source, which is not reflexive.\<close>

definition kind_eq :: "error_kind \<Rightarrow> error_kind \<Rightarrow> bool" where
  "kind_eq a b = (case a of
      ChannelsLimitReached \<Rightarrow> (case b of ChannelsLimitReached \<Rightarrow> True | _ \<Rightarrow> False)
    | InvalidProtocolVersion l \<Rightarrow> (case b of InvalidProtocolVersion r \<Rightarrow> l = r | _ \<Rightarrow> False)
    | InvalidChannel l \<Rightarrow> (case b of InvalidChannel r \<Rightarrow> l = r | _ \<Rightarrow> False)
    | InvalidChannelState l lc \<Rightarrow>
        (case b of InvalidChannelState r rc \<Rightarrow> l = r \<and> lc = rc | _ \<Rightarrow> False)
    | InvalidConnectionState l \<Rightarrow> (case b of InvalidConnectionState r \<Rightarrow> l = r | _ \<Rightarrow> False)
    | IOError _ \<Rightarrow> False
    | RuntimeShutdownError _ \<Rightarrow> False
    | ParsingError l \<Rightarrow> (case b of ParsingError r \<Rightarrow> l = r | _ \<Rightarrow> False)
    | ProtocolError l \<Rightarrow> (case b of ProtocolError r \<Rightarrow> l = r | _ \<Rightarrow> False)
    | SerialisationError _ \<Rightarrow> False
    | AuthProviderError _ \<Rightarrow> False
    | FutureCompleted \<Rightarrow> (case b of FutureCompleted \<Rightarrow> True | _ \<Rightarrow> False)
    | NoDefaultRuntime \<Rightarrow> (case b of NoDefaultRuntime \<Rightarrow> True | _ \<Rightarrow> False)
    | MissingHeartbeatError \<Rightarrow> False)"

definition error_eq :: "error \<Rightarrow> error \<Rightarrow> bool" where
  "error_eq a b = kind_eq (kind a) (kind b)"

section \<open>Recovery configuration\<close>

definition can_recover :: "bool \<Rightarrow> error \<Rightarrow> bool" where
  "can_recover auto_recover e = (auto_recover \<and> can_be_recovered e)"

lemma can_recover_with_notifier [simp]: "can_recover a (with_notifier n e) = can_recover a e"
  by (simp add: can_recover_def can_be_recovered_def with_notifier_def)

text \<open>
  The source's equality on errors is symmetric and transitive but not reflexive: an error is equal to
  itself except for an IO, runtime-shutdown, serialisation, authentication or heartbeat error.
\<close>

lemma kind_eq_imp_eq: "kind_eq a b \<Longrightarrow> a = b"
  by (simp add: kind_eq_def split: error_kind.splits)

lemma kind_eq_refl_iff:
  "kind_eq k k \<longleftrightarrow> \<not> (\<exists>i. k = IOError i \<or> k = RuntimeShutdownError i)
     \<and> (\<forall>g. k \<noteq> SerialisationError g) \<and> (\<forall>s. k \<noteq> AuthProviderError s) \<and> k \<noteq> MissingHeartbeatError"
  by (cases k) (auto simp: kind_eq_def)

lemma kind_eq_iff: "kind_eq a b \<longleftrightarrow> a = b \<and> kind_eq a a"
  using kind_eq_imp_eq by blast

text \<open>
  A soft and a hard protocol error are told apart, both may be recovered, and an error that stops the
  runtime is an IO error that is never recovered.
\<close>

lemma amqp_error_soft_xor_hard:
  "is_amqp_error e = (is_amqp_soft_error e \<noteq> is_amqp_hard_error e)"
  by (auto simp: is_amqp_error_def is_amqp_soft_error_def is_amqp_hard_error_def
      split: error_kind.splits amqp_error_kind.splits)

lemma runtime_shutdown_not_recovered:
  "is_runtime_shutdown_error e \<Longrightarrow> is_io_error e \<and> \<not> can_recover a e"
  by (auto simp: is_runtime_shutdown_error_def is_io_error_def can_recover_def can_be_recovered_def
      split: error_kind.splits)

end
