(* ===== verification/Types.thy ===== *)
theory Types
  imports Errors
begin

text \<open>
  The data that the components exchange: the option structs and the \<^verbatim>\<open>Reply\<close> enumeration of
  \<^verbatim>\<open>src/generated/channel.rs\<close>, the messages of \<^verbatim>\<open>src/message.rs\<close>, the AMQP methods and frames of the
  protocol crate, the commands of \<^verbatim>\<open>src/internal_rpc.rs\<close> and the events of \<^verbatim>\<open>src/events.rs\<close>.

  An \<^verbatim>\<open>Arc\<close> to shared state is an index into a store: a promise (with its resolver), a kill switch, a
  notifier, an error holder, a consumer and a channel are natural numbers.  The values a promise can be
  resolved with are the one type \<^verbatim>\<open>pvalue\<close>.
\<close>

section \<open>Protocol values\<close>

text \<open>
  A field table is a \<^verbatim>\<open>BTreeMap\<close>: the list of its entries in the order of the keys.  Of the AMQP values,
  the source builds strings, booleans and tables; the remaining ones are tokens.  Basic properties are
  carried unchanged from the server to the application and back.
\<close>

datatype amqp_value = LongString string | Boolean bool | FieldTable "(string \<times> amqp_value) list" | OtherValue nat

type_synonym field_table = "(string \<times> amqp_value) list"

fun string_less :: "string \<Rightarrow> string \<Rightarrow> bool" where
  "string_less _ [] = False"
| "string_less [] (_ # _) = True"
| "string_less (c # cs) (d # ds) =
    ((of_char c :: nat) < of_char d \<or> (c = d \<and> string_less cs ds))"

fun table_insert :: "string \<Rightarrow> amqp_value \<Rightarrow> field_table \<Rightarrow> field_table" where
  "table_insert k v [] = [(k, v)]"
| "table_insert k v ((k', v') # t) =
    (if k = k' then (k, v) # t
     else if string_less k k' then (k, v) # (k', v') # t
     else (k', v') # table_insert k v t)"

definition table_contains :: "string \<Rightarrow> field_table \<Rightarrow> bool" where
  "table_contains k t = (k \<in> fst ` set t)"

datatype basic_properties = DefaultProperties | BasicProperties nat

datatype exchange_kind = Custom string | Direct | Fanout | Headers | Topic

definition exchange_kind_name :: "exchange_kind \<Rightarrow> string" where
  "exchange_kind_name k = (case k of
      Custom c \<Rightarrow> c
    | Direct \<Rightarrow> ''direct''
    | Fanout \<Rightarrow> ''fanout''
    | Headers \<Rightarrow> ''headers''
    | Topic \<Rightarrow> ''topic'')"

section \<open>Options\<close>

datatype basic_qos_options = BasicQosOptions (qos_global: bool)
datatype basic_consume_options =
  BasicConsumeOptions (consume_no_local: bool) (consume_no_ack: bool) (consume_exclusive: bool)
    (consume_nowait: bool)
datatype basic_cancel_options = BasicCancelOptions (cancel_nowait: bool)
datatype basic_publish_options = BasicPublishOptions (publish_mandatory: bool) (publish_immediate: bool)
datatype basic_get_options = BasicGetOptions (get_no_ack: bool)
datatype basic_ack_options = BasicAckOptions (ack_multiple: bool)
datatype basic_reject_options = BasicRejectOptions (reject_requeue: bool)
datatype basic_recover_async_options = BasicRecoverAsyncOptions (recover_async_requeue: bool)
datatype basic_recover_options = BasicRecoverOptions (recover_requeue: bool)
datatype basic_nack_options = BasicNackOptions (nack_multiple: bool) (nack_requeue: bool)
datatype channel_flow_options = ChannelFlowOptions (flow_active: bool)
datatype channel_flow_ok_options = ChannelFlowOkOptions (flow_ok_active: bool)
datatype access_request_options =
  AccessRequestOptions (access_exclusive: bool) (access_passive: bool) (access_active: bool)
    (access_write: bool) (access_read: bool)
datatype exchange_declare_options =
  ExchangeDeclareOptions (exchange_passive: bool) (exchange_durable: bool)
    (exchange_auto_delete: bool) (exchange_internal: bool) (exchange_nowait: bool)
datatype exchange_delete_options =
  ExchangeDeleteOptions (exchange_delete_if_unused: bool) (exchange_delete_nowait: bool)
datatype exchange_bind_options = ExchangeBindOptions (exchange_bind_nowait: bool)
datatype exchange_unbind_options = ExchangeUnbindOptions (exchange_unbind_nowait: bool)
datatype queue_declare_options =
  QueueDeclareOptions (queue_passive: bool) (queue_durable: bool) (queue_exclusive: bool)
    (queue_auto_delete: bool) (queue_nowait: bool)
datatype queue_bind_options = QueueBindOptions (queue_bind_nowait: bool)
datatype queue_purge_options = QueuePurgeOptions (queue_purge_nowait: bool)
datatype queue_delete_options =
  QueueDeleteOptions (queue_delete_if_unused: bool) (queue_delete_if_empty: bool)
    (queue_delete_nowait: bool)
datatype confirm_select_options = ConfirmSelectOptions (confirm_select_nowait: bool)

section \<open>Methods and frames\<close>

datatype basic_method =
    BasicQos "16 word" bool
  | BasicQosOk
  | BasicConsume short_string short_string bool bool bool bool field_table
  | BasicConsumeOk short_string
  | BasicCancel short_string bool
  | BasicCancelOk short_string
  | BasicPublish short_string short_string bool bool
  | BasicReturn reply_code short_string short_string short_string
  | BasicDeliver short_string delivery_tag bool short_string short_string
  | BasicGet short_string bool
  | BasicGetOk delivery_tag bool short_string short_string message_count
  | BasicGetEmpty
  | BasicAck delivery_tag bool
  | BasicReject delivery_tag bool
  | BasicRecoverAsync bool
  | BasicRecover bool
  | BasicRecoverOk
  | BasicNack delivery_tag bool bool

datatype connection_method =
    ConnectionStart string string
  | ConnectionStartOk field_table short_string string short_string
  | ConnectionSecure string
  | ConnectionSecureOk string
  | ConnectionTune channel_id frame_size heartbeat_secs
  | ConnectionTuneOk channel_id frame_size heartbeat_secs
  | ConnectionOpen short_string
  | ConnectionOpenOk
  | ConnectionClose reply_code short_string "16 word" "16 word"
  | ConnectionCloseOk
  | ConnectionBlocked short_string
  | ConnectionUnblocked
  | ConnectionUpdateSecret string short_string
  | ConnectionUpdateSecretOk

datatype channel_method =
    ChannelOpen
  | ChannelOpenOk
  | ChannelFlow bool
  | ChannelFlowOk bool
  | ChannelClose reply_code short_string "16 word" "16 word"
  | ChannelCloseOk

datatype access_method = AccessRequest short_string bool bool bool bool bool | AccessRequestOk

datatype exchange_method =
    ExchangeDeclare short_string short_string bool bool bool bool bool field_table
  | ExchangeDeclareOk
  | ExchangeDelete short_string bool bool
  | ExchangeDeleteOk
  | ExchangeBind short_string short_string short_string bool field_table
  | ExchangeBindOk
  | ExchangeUnbind short_string short_string short_string bool field_table
  | ExchangeUnbindOk

datatype queue_method =
    QueueDeclare short_string bool bool bool bool bool field_table
  | QueueDeclareOk short_string message_count message_count
  | QueueBind short_string short_string short_string bool field_table
  | QueueBindOk
  | QueuePurge short_string bool
  | QueuePurgeOk message_count
  | QueueDelete short_string bool bool bool
  | QueueDeleteOk message_count
  | QueueUnbind short_string short_string short_string field_table
  | QueueUnbindOk

datatype tx_method = TxSelect | TxSelectOk | TxCommit | TxCommitOk | TxRollback | TxRollbackOk

datatype confirm_method = ConfirmSelect bool | ConfirmSelectOk

datatype amqp_class =
    Basic basic_method
  | Connection connection_method
  | Channel channel_method
  | Access access_method
  | Exchange exchange_method
  | Queue queue_method
  | Tx tx_method
  | Confirm confirm_method

text \<open>The class and method numbers of the AMQP 0-9-1 specification.\<close>

fun basic_method_id :: "basic_method \<Rightarrow> 16 word" where
  "basic_method_id (BasicQos _ _) = 10"
| "basic_method_id BasicQosOk = 11"
| "basic_method_id (BasicConsume _ _ _ _ _ _ _) = 20"
| "basic_method_id (BasicConsumeOk _) = 21"
| "basic_method_id (BasicCancel _ _) = 30"
| "basic_method_id (BasicCancelOk _) = 31"
| "basic_method_id (BasicPublish _ _ _ _) = 40"
| "basic_method_id (BasicReturn _ _ _ _) = 50"
| "basic_method_id (BasicDeliver _ _ _ _ _) = 60"
| "basic_method_id (BasicGet _ _) = 70"
| "basic_method_id (BasicGetOk _ _ _ _ _) = 71"
| "basic_method_id BasicGetEmpty = 72"
| "basic_method_id (BasicAck _ _) = 80"
| "basic_method_id (BasicReject _ _) = 90"
| "basic_method_id (BasicRecoverAsync _) = 100"
| "basic_method_id (BasicRecover _) = 110"
| "basic_method_id BasicRecoverOk = 111"
| "basic_method_id (BasicNack _ _ _) = 120"

fun connection_method_id :: "connection_method \<Rightarrow> 16 word" where
  "connection_method_id (ConnectionStart _ _) = 10"
| "connection_method_id (ConnectionStartOk _ _ _ _) = 11"
| "connection_method_id (ConnectionSecure _) = 20"
| "connection_method_id (ConnectionSecureOk _) = 21"
| "connection_method_id (ConnectionTune _ _ _) = 30"
| "connection_method_id (ConnectionTuneOk _ _ _) = 31"
| "connection_method_id (ConnectionOpen _) = 40"
| "connection_method_id ConnectionOpenOk = 41"
| "connection_method_id (ConnectionClose _ _ _ _) = 50"
| "connection_method_id ConnectionCloseOk = 51"
| "connection_method_id (ConnectionBlocked _) = 60"
| "connection_method_id ConnectionUnblocked = 61"
| "connection_method_id (ConnectionUpdateSecret _ _) = 70"
| "connection_method_id ConnectionUpdateSecretOk = 71"

fun channel_method_id :: "channel_method \<Rightarrow> 16 word" where
  "channel_method_id ChannelOpen = 10"
| "channel_method_id ChannelOpenOk = 11"
| "channel_method_id (ChannelFlow _) = 20"
| "channel_method_id (ChannelFlowOk _) = 21"
| "channel_method_id (ChannelClose _ _ _ _) = 40"
| "channel_method_id ChannelCloseOk = 41"

fun exchange_method_id :: "exchange_method \<Rightarrow> 16 word" where
  "exchange_method_id (ExchangeDeclare _ _ _ _ _ _ _ _) = 10"
| "exchange_method_id ExchangeDeclareOk = 11"
| "exchange_method_id (ExchangeDelete _ _ _) = 20"
| "exchange_method_id ExchangeDeleteOk = 21"
| "exchange_method_id (ExchangeBind _ _ _ _ _) = 30"
| "exchange_method_id ExchangeBindOk = 31"
| "exchange_method_id (ExchangeUnbind _ _ _ _ _) = 40"
| "exchange_method_id ExchangeUnbindOk = 51"

fun queue_method_id :: "queue_method \<Rightarrow> 16 word" where
  "queue_method_id (QueueDeclare _ _ _ _ _ _ _) = 10"
| "queue_method_id (QueueDeclareOk _ _ _) = 11"
| "queue_method_id (QueueBind _ _ _ _ _) = 20"
| "queue_method_id QueueBindOk = 21"
| "queue_method_id (QueuePurge _ _) = 30"
| "queue_method_id (QueuePurgeOk _) = 31"
| "queue_method_id (QueueDelete _ _ _ _) = 40"
| "queue_method_id (QueueDeleteOk _) = 41"
| "queue_method_id (QueueUnbind _ _ _ _) = 50"
| "queue_method_id QueueUnbindOk = 51"

fun tx_method_id :: "tx_method \<Rightarrow> 16 word" where
  "tx_method_id TxSelect = 10"
| "tx_method_id TxSelectOk = 11"
| "tx_method_id TxCommit = 20"
| "tx_method_id TxCommitOk = 21"
| "tx_method_id TxRollback = 30"
| "tx_method_id TxRollbackOk = 31"

fun get_amqp_class_id :: "amqp_class \<Rightarrow> 16 word" where
  "get_amqp_class_id (Connection _) = 10"
| "get_amqp_class_id (Channel _) = 20"
| "get_amqp_class_id (Access _) = 30"
| "get_amqp_class_id (Exchange _) = 40"
| "get_amqp_class_id (Queue _) = 50"
| "get_amqp_class_id (Basic _) = 60"
| "get_amqp_class_id (Confirm _) = 85"
| "get_amqp_class_id (Tx _) = 90"

fun get_amqp_method_id :: "amqp_class \<Rightarrow> 16 word" where
  "get_amqp_method_id (Connection m) = connection_method_id m"
| "get_amqp_method_id (Channel m) = channel_method_id m"
| "get_amqp_method_id (Access m) = (case m of AccessRequest _ _ _ _ _ _ \<Rightarrow> 10 | AccessRequestOk \<Rightarrow> 11)"
| "get_amqp_method_id (Exchange m) = exchange_method_id m"
| "get_amqp_method_id (Queue m) = queue_method_id m"
| "get_amqp_method_id (Basic m) = basic_method_id m"
| "get_amqp_method_id (Confirm m) = (case m of ConfirmSelect _ \<Rightarrow> 10 | ConfirmSelectOk \<Rightarrow> 11)"
| "get_amqp_method_id (Tx m) = tx_method_id m"

record content_header =
  header_class_id :: "16 word"
  header_body_size :: payload_size
  header_properties :: basic_properties

datatype amqp_frame =
    ProtocolHeader protocol_version
  | Method channel_id amqp_class
  | Header channel_id content_header
  | Body channel_id "byte list"
  | Heartbeat
  | InvalidHeartbeat channel_id

fun frame_channel_id :: "amqp_frame \<Rightarrow> channel_id" where
  "frame_channel_id (ProtocolHeader _) = 0"
| "frame_channel_id (Method c _) = c"
| "frame_channel_id (Header c _) = c"
| "frame_channel_id (Body c _) = c"
| "frame_channel_id Heartbeat = 0"
| "frame_channel_id (InvalidHeartbeat c) = c"

fun is_header :: "amqp_frame \<Rightarrow> bool" where
  "is_header (Header _ _) = True"
| "is_header _ = False"

fun is_header_or_body :: "amqp_frame \<Rightarrow> bool" where
  "is_header_or_body (Header _ _) = True"
| "is_header_or_body (Body _ _) = True"
| "is_header_or_body _ = False"

fun is_protocol_header :: "amqp_frame \<Rightarrow> bool" where
  "is_protocol_header (ProtocolHeader _) = True"
| "is_protocol_header _ = False"

end
