(* ===== verification/Messages.thy ===== *)
theory Messages
  imports Types
begin

text \<open>
  Deliveries and their ackers (\<^verbatim>\<open>src/message.rs\<close>, \<^verbatim>\<open>src/acker.rs\<close>), confirmations
  (\<^verbatim>\<open>src/publisher_confirm.rs\<close>), the steps of the connection handshake (\<^verbatim>\<open>src/connection_step.rs\<close>), the
  replies a channel waits for, the commands of the internal RPC queue with the futures they spawn, and
  the application's events.
\<close>

section \<open>Deliveries\<close>

record acker =
  acker_channel_id :: channel_id
  acker_delivery_tag :: delivery_tag
  acker_has_rpc :: bool
  acker_error :: "nat option"
  acker_killswitch :: nat
  acker_channel_killswitch :: nat

record delivery =
  delivery_tag :: delivery_tag
  delivery_exchange :: short_string
  delivery_routing_key :: short_string
  delivery_redelivered :: bool
  delivery_properties :: basic_properties
  delivery_data :: "byte list"
  delivery_acker :: acker

record basic_get_message =
  get_delivery :: delivery
  get_message_count :: message_count

record basic_return_message =
  return_delivery :: delivery
  return_reply_code :: reply_code
  return_reply_text :: short_string

text \<open>A delivery as a consumer sees it: an error, a message, or the end of the stream.\<close>

type_synonym delivery_result = "error + delivery option"

datatype confirmation =
    ConfirmationAck "basic_return_message option"
  | ConfirmationNack "basic_return_message option"
  | NotRequested

fun take_message :: "confirmation \<Rightarrow> basic_return_message option" where
  "take_message (ConfirmationAck m) = m"
| "take_message (ConfirmationNack m) = m"
| "take_message NotRequested = None"

fun is_ack :: "confirmation \<Rightarrow> bool" where
  "is_ack (ConfirmationAck _) = True"
| "is_ack _ = False"

fun is_nack :: "confirmation \<Rightarrow> bool" where
  "is_nack (ConfirmationNack _) = True"
| "is_nack _ = False"

record queue_info =
  queue_info_name :: short_string
  queue_info_message_count :: message_count
  queue_info_consumer_count :: message_count

text \<open>The application's authentication provider is a parameter: its answers.\<close>

record auth_provider =
  auth_mechanism :: short_string
  auth_starter :: "string + string"
  auth_continue :: "string \<Rightarrow> string + string"

record connection =
  conn_client_properties :: field_table
  conn_locale :: short_string
  conn_auth_provider :: auth_provider

section \<open>What a promise is resolved with\<close>

datatype pvalue =
    VUnit
  | VBool bool
  | VCount message_count
  | VQueue queue_info
  | VConsumer nat
  | VChannel nat
  | VConnection connection
  | VGet "basic_get_message option"
  | VConfirm confirmation

section \<open>Replies\<close>

datatype connection_step =
    StepProtocolHeader nat connection
  | StepStartOk nat connection auth_provider
  | StepSecureOk nat connection auth_provider

fun into_connection_resolver :: "connection_step \<Rightarrow> nat" where
  "into_connection_resolver (StepProtocolHeader r _) = r"
| "into_connection_resolver (StepStartOk r _ _) = r"
| "into_connection_resolver (StepSecureOk r _ _) = r"

text \<open>
  The first argument of a reply is its promise.  The channel closer that \<^verbatim>\<open>BasicConsumeOk\<close> carries
  only matters when it is dropped and is left out.
\<close>

datatype reply =
    ReplyConnectionStep connection_step
  | ReplyBasicQosOk nat
  | ReplyBasicConsumeOk nat short_string basic_consume_options field_table "nat option"
  | ReplyBasicCancelOk nat
  | ReplyBasicGetOk nat
  | ReplyBasicRecoverOk nat
  | ReplyConnectionOpenOk nat connection nat
  | ReplyConnectionCloseOk nat
  | ReplyConnectionUpdateSecretOk nat
  | ReplyChannelOpenOk nat nat
  | ReplyChannelFlowOk nat
  | ReplyChannelCloseOk nat
  | ReplyAccessRequestOk nat
  | ReplyExchangeDeclareOk nat short_string exchange_kind exchange_declare_options field_table
  | ReplyExchangeDeleteOk nat short_string
  | ReplyExchangeBindOk nat short_string short_string short_string field_table
  | ReplyExchangeUnbindOk nat short_string short_string short_string field_table
  | ReplyQueueDeclareOk nat queue_declare_options field_table
  | ReplyQueueBindOk nat short_string short_string short_string field_table
  | ReplyQueuePurgeOk nat
  | ReplyQueueDeleteOk nat short_string
  | ReplyQueueUnbindOk nat short_string short_string short_string field_table
  | ReplyTxSelectOk nat
  | ReplyTxCommitOk nat
  | ReplyTxRollbackOk nat
  | ReplyConfirmSelectOk nat

text \<open>A reply with the promise that is cancelled when the reply cannot come any more.\<close>

datatype expected_reply = ExpectedReply (reply_of: reply) (canceler_of: nat)

section \<open>Internal commands\<close>

text \<open>The futures that the source spawns, one constructor for each \<^verbatim>\<open>spawn\<close>.\<close>

datatype internal_future =
    FutChannelClose nat reply_code short_string "16 word" "16 word"
  | FutConnectionStartOk nat field_table short_string string short_string nat connection auth_provider
  | FutConnectionSecureOk nat string nat connection auth_provider
  | FutConnectionTuneOk nat nat connection
  | FutChannelFlowOk nat bool
  | FutChannelCloseOk nat "error option"
  | FutBasicCancelOk nat short_string
  | FutDelegateDelivery nat delivery_result
  | FutDelegateDropPrefetched nat

datatype internal_command =
    CmdBasicAck channel_id delivery_tag basic_ack_options nat "nat option"
  | CmdBasicNack channel_id delivery_tag basic_nack_options nat "nat option"
  | CmdBasicReject channel_id delivery_tag basic_reject_options nat "nat option"
  | CmdCancelConsumer channel_id short_string nat
  | CmdCloseChannel channel_id reply_code short_string
  | CmdCloseConnection reply_code short_string "16 word" "16 word" "nat option"
  | CmdCreateChannel nat
  | CmdDeregisterConsumer channel_id short_string
  | CmdFinishConnectionShutdown
  | CmdInitConnectionRecovery error
  | CmdInitConnectionShutdown error "nat option"
  | CmdRemoveChannel channel_id error
  | CmdSendConnectionCloseOk error
  | CmdSendHeartbeat
  | CmdSetChannelStatus channel_id nat
  | CmdSetConnectionClosing
  | CmdSetConnectionClosed error
  | CmdSetConnectionError error
  | CmdSpawn internal_future
  | CmdStartChannelsRecovery
  | CmdStartHeartbeat nat
  | CmdUpdateSecret string short_string nat

section \<open>Events for the application\<close>

datatype event =
    EventConnected
  | EventConnectionBlocked string
  | EventConnectionUnblocked
  | EventSendFlow bool
  | EventError error

text \<open>Events of the socket loop; the first two come from the socket's wakers.\<close>

datatype socket_event = SocketReadable | SocketWritable | SocketWake

end
