(* ===== verification/Store.thy ===== *)
theory Store
  imports Messages
begin

text \<open>
  The shared cells of the client: promises (\<^verbatim>\<open>src/promise.rs\<close>), kill switches (\<^verbatim>\<open>src/killswitch.rs\<close>),
  one-shot notifiers (\<^verbatim>\<open>src/notifier.rs\<close>) and error holders (\<^verbatim>\<open>src/error_holder.rs\<close>), with the queue of
  internal commands (\<^verbatim>\<open>InternalRPCHandle\<close> of \<^verbatim>\<open>src/internal_rpc.rs\<close>) and the wake-ups of the socket loop
  that sending a command causes.  A cell is named by its index; cloning an \<^verbatim>\<open>Arc\<close> copies the index.

  The record is extended by the components that build on it, so the operations below work on every
  extension.
\<close>

section \<open>The store\<close>

record heap =
  promises :: "(error + pvalue) option list"
  switches :: "bool list"
  notifiers :: "bool list"
  holders :: "error option list"
  rpc :: "internal_command option list"
  socket_events :: "socket_event list"

definition heap_empty :: heap where
  "heap_empty = \<lparr>promises = [], switches = [], notifiers = [], holders = [], rpc = [], socket_events = []\<rparr>"

subsection \<open>Promises\<close>

definition promise_build :: "(error + pvalue) option \<Rightarrow> 'a heap_scheme \<Rightarrow> nat \<times> 'a heap_scheme" where
  "promise_build d h = (length (promises h), h\<lparr>promises := promises h @ [d]\<rparr>)"

definition promise_new :: "'a heap_scheme \<Rightarrow> nat \<times> 'a heap_scheme" where
  "promise_new = promise_build None"

definition promise_new_with_data :: "error + pvalue \<Rightarrow> 'a heap_scheme \<Rightarrow> nat \<times> 'a heap_scheme" where
  "promise_new_with_data r = promise_build (Some r)"

definition promise_get :: "nat \<Rightarrow> 'a heap_scheme \<Rightarrow> (error + pvalue) option" where
  "promise_get p h = (if p < length (promises h) then promises h ! p else None)"

definition promise_complete :: "nat \<Rightarrow> error + pvalue \<Rightarrow> 'a heap_scheme \<Rightarrow> 'a heap_scheme" where
  "promise_complete p r h =
    (if promise_get p h = None then h\<lparr>promises := (promises h)[p := Some r]\<rparr> else h)"

definition promise_resolve :: "nat \<Rightarrow> pvalue \<Rightarrow> 'a heap_scheme \<Rightarrow> 'a heap_scheme" where
  "promise_resolve p v = promise_complete p (Inr v)"

definition promise_reject :: "nat \<Rightarrow> error \<Rightarrow> 'a heap_scheme \<Rightarrow> 'a heap_scheme" where
  "promise_reject p e = promise_complete p (Inl e)"

definition promise_try_wait :: "nat \<Rightarrow> 'a heap_scheme \<Rightarrow> (error + pvalue) option \<times> 'a heap_scheme" where
  "promise_try_wait p h = (promise_get p h, h\<lparr>promises := (promises h)[p := None]\<rparr>)"

definition promise_poll :: "nat \<Rightarrow> 'a heap_scheme \<Rightarrow> (error, pvalue) poll \<times> 'a heap_scheme" where
  "promise_poll p h =
    (case promise_try_wait p h of
       (Some r, h') \<Rightarrow> (Ready r, h')
     | (None, _) \<Rightarrow> (Pending, h))"

subsection \<open>Kill switches\<close>

definition switch_new :: "'a heap_scheme \<Rightarrow> nat \<times> 'a heap_scheme" where
  "switch_new h = (length (switches h), h\<lparr>switches := switches h @ [False]\<rparr>)"

definition killed :: "nat \<Rightarrow> 'a heap_scheme \<Rightarrow> bool" where
  "killed k h = (k < length (switches h) \<and> switches h ! k)"

definition switch_kill :: "nat \<Rightarrow> 'a heap_scheme \<Rightarrow> bool \<times> 'a heap_scheme" where
  "switch_kill k h = (\<not> killed k h, h\<lparr>switches := (switches h)[k := True]\<rparr>)"

definition switch_reset :: "nat \<Rightarrow> 'a heap_scheme \<Rightarrow> 'a heap_scheme" where
  "switch_reset k h = h\<lparr>switches := (switches h)[k := False]\<rparr>"

subsection \<open>Notifiers\<close>

definition notifier_new :: "'a heap_scheme \<Rightarrow> nat \<times> 'a heap_scheme" where
  "notifier_new h = (length (notifiers h), h\<lparr>notifiers := notifiers h @ [False]\<rparr>)"

definition notify_all :: "nat \<Rightarrow> 'a heap_scheme \<Rightarrow> 'a heap_scheme" where
  "notify_all n h = h\<lparr>notifiers := (notifiers h)[n := True]\<rparr>"

definition notifier_ready :: "nat \<Rightarrow> 'a heap_scheme \<Rightarrow> bool" where
  "notifier_ready n h = (n < length (notifiers h) \<and> notifiers h ! n)"

subsection \<open>Error holders\<close>

definition holder_new :: "'a heap_scheme \<Rightarrow> nat \<times> 'a heap_scheme" where
  "holder_new h = (length (holders h), h\<lparr>holders := holders h @ [None]\<rparr>)"

definition holder_get :: "nat \<Rightarrow> 'a heap_scheme \<Rightarrow> error option" where
  "holder_get n h = (if n < length (holders h) then holders h ! n else None)"

definition holder_set :: "nat \<Rightarrow> error \<Rightarrow> 'a heap_scheme \<Rightarrow> (error + unit) \<times> 'a heap_scheme" where
  "holder_set n e h =
    (if holder_get n h = None then (Inr (), h\<lparr>holders := (holders h)[n := Some e]\<rparr>) else (Inl e, h))"

definition holder_check :: "nat \<Rightarrow> 'a heap_scheme \<Rightarrow> error + unit" where
  "holder_check n h = (case holder_get n h of Some e \<Rightarrow> Inl e | None \<Rightarrow> Inr ())"

subsection \<open>The internal command queue\<close>

definition wake :: "'a heap_scheme \<Rightarrow> 'a heap_scheme" where
  "wake h = h\<lparr>socket_events := socket_events h @ [SocketWake]\<rparr>"

definition rpc_send :: "internal_command \<Rightarrow> 'a heap_scheme \<Rightarrow> 'a heap_scheme" where
  "rpc_send c h = wake (h\<lparr>rpc := rpc h @ [Some c]\<rparr>)"

definition rpc_stop :: "'a heap_scheme \<Rightarrow> 'a heap_scheme" where
  "rpc_stop h = h\<lparr>rpc := rpc h @ [None]\<rparr>"

definition rpc_is_empty :: "'a heap_scheme \<Rightarrow> bool" where
  "rpc_is_empty h = (rpc h = [])"

definition rpc_basic_ack ::
  "channel_id \<Rightarrow> delivery_tag \<Rightarrow> basic_ack_options \<Rightarrow> nat \<Rightarrow> nat option \<Rightarrow> 'a heap_scheme \<Rightarrow> 'a heap_scheme" where
  "rpc_basic_ack c t opts r e = rpc_send (CmdBasicAck c t opts r e)"

definition rpc_basic_nack ::
  "channel_id \<Rightarrow> delivery_tag \<Rightarrow> basic_nack_options \<Rightarrow> nat \<Rightarrow> nat option \<Rightarrow> 'a heap_scheme \<Rightarrow> 'a heap_scheme" where
  "rpc_basic_nack c t opts r e = rpc_send (CmdBasicNack c t opts r e)"

definition rpc_basic_reject ::
  "channel_id \<Rightarrow> delivery_tag \<Rightarrow> basic_reject_options \<Rightarrow> nat \<Rightarrow> nat option \<Rightarrow> 'a heap_scheme \<Rightarrow> 'a heap_scheme" where
  "rpc_basic_reject c t opts r e = rpc_send (CmdBasicReject c t opts r e)"

definition rpc_close_connection ::
  "reply_code \<Rightarrow> short_string \<Rightarrow> 16 word \<Rightarrow> 16 word \<Rightarrow> 'a heap_scheme \<Rightarrow> 'a heap_scheme" where
  "rpc_close_connection code text cid mid h =
    rpc_send (CmdCloseConnection code text cid mid None) (rpc_send CmdSetConnectionClosing h)"

definition rpc_close_connection_checked ::
  "reply_code \<Rightarrow> short_string \<Rightarrow> 16 word \<Rightarrow> 16 word \<Rightarrow> 'a heap_scheme \<Rightarrow> nat \<times> 'a heap_scheme" where
  "rpc_close_connection_checked code text cid mid h =
    (let (p, h) = promise_new (rpc_send CmdSetConnectionClosing h)
     in (p, rpc_send (CmdCloseConnection code text cid mid (Some p)) h))"

definition rpc_create_channel :: "'a heap_scheme \<Rightarrow> nat \<times> 'a heap_scheme" where
  "rpc_create_channel h = (let (p, h) = promise_new h in (p, rpc_send (CmdCreateChannel p) h))"

definition rpc_init_connection_shutdown :: "error \<Rightarrow> nat option \<Rightarrow> 'a heap_scheme \<Rightarrow> 'a heap_scheme" where
  "rpc_init_connection_shutdown e r h =
    rpc_send (CmdInitConnectionShutdown e r) (rpc_send CmdSetConnectionClosing h)"

definition rpc_update_secret :: "string \<Rightarrow> short_string \<Rightarrow> 'a heap_scheme \<Rightarrow> nat \<times> 'a heap_scheme" where
  "rpc_update_secret secret reason h =
    (let (p, h) = promise_new h in (p, rpc_send (CmdUpdateSecret secret reason p) h))"

definition rpc_spawn :: "internal_future \<Rightarrow> 'a heap_scheme \<Rightarrow> 'a heap_scheme" where
  "rpc_spawn f = rpc_send (CmdSpawn f)"

section \<open>Reading after writing\<close>

lemmas promise_defs = promise_build_def promise_new_def promise_new_with_data_def promise_get_def
  promise_complete_def promise_resolve_def promise_reject_def promise_try_wait_def

lemma promise_get_new [store_simps]:
  "promise_new h = (p, h') \<Longrightarrow> promise_get q h' = (if q = p then None else promise_get q h)"
  by (auto simp: promise_defs nth_append)

lemma promise_get_complete [store_simps]:
  "promise_get q (promise_complete p r h) =
    (if q = p \<and> p < length (promises h) \<and> promise_get p h = None then Some r else promise_get q h)"
  by (auto simp: promise_defs nth_list_update)

lemma length_promises_complete [simp]:
  "length (promises (promise_complete p r h)) = length (promises h)"
  by (simp add: promise_complete_def)

lemma promise_get_rpc_send [simp]: "promise_get p (rpc_send c h) = promise_get p h"
  by (simp add: promise_get_def rpc_send_def wake_def)

lemma rpc_rpc_send [simp]: "rpc (rpc_send c h) = rpc h @ [Some c]"
  by (simp add: rpc_send_def wake_def)

lemma killed_kill [store_simps]:
  "killed k (snd (switch_kill j h)) = (killed k h \<or> (k = j \<and> j < length (switches h)))"
  by (cases "k = j") (auto simp: killed_def switch_kill_def)

lemma killed_new [store_simps]: "switch_new h = (j, h') \<Longrightarrow> killed k h' = killed k h"
  by (auto simp: killed_def switch_new_def nth_append less_Suc_eq)

section \<open>Cells that are written once\<close>

text \<open>
  The contract of a promise and of an error holder: the first write to a cell stays, and a write
  touches no other cell.  What a client concludes is about any sequence of writes.
\<close>

locale write_once =
  fixes live :: "nat \<Rightarrow> 's \<Rightarrow> bool"
    and get :: "nat \<Rightarrow> 's \<Rightarrow> 'v option"
    and put :: "nat \<Rightarrow> 'v \<Rightarrow> 's \<Rightarrow> 's"
  assumes put_same: "live p s \<Longrightarrow> get p s = None \<Longrightarrow> get p (put p v s) = Some v"
    and put_kept: "get p s = Some u \<Longrightarrow> get p (put p v s) = Some u"
    and put_other: "q \<noteq> p \<Longrightarrow> get q (put p v s) = get q s"
    and put_live: "live q (put p v s) = live q s"
begin

lemma get_put:
  "live q s \<Longrightarrow> get q (put p v s) = (if q = p \<and> get p s = None then Some v else get q s)"
  by (cases "q = p"; cases "get p s") (auto simp: put_same put_kept put_other)

lemma first_write_wins:
  "live p s \<Longrightarrow> get p (fold (\<lambda>(p, v). put p v) ws s) =
    (case get p s of Some u \<Rightarrow> Some u | None \<Rightarrow> map_of ws p)"
proof (induction ws arbitrary: s)
  case Nil
  then show ?case by (simp split: option.split)
next
  case (Cons w ws)
  obtain q v where w: "w = (q, v)" by fastforce
  from Cons.prems have "live p (put q v s)" by (simp add: put_live)
  from Cons.IH[OF this] Cons.prems show ?case by (simp add: w get_put split: option.split)
qed

end

interpretation promise_cell: write_once "\<lambda>p (h :: 'a heap_scheme). p < length (promises h)" promise_get promise_complete
  by unfold_locales (simp_all add: promise_get_def promise_complete_def split: if_splits)

interpretation holder_cell: write_once "\<lambda>p (h :: 'a heap_scheme). p < length (holders h)" holder_get "\<lambda>p e h. snd (holder_set p e h)"
  by unfold_locales (simp_all add: holder_get_def holder_set_def split: if_splits)

text \<open>
  The effect of completions on the promises as a whole: none is taken back, and those of a set are
  completed afterwards.
\<close>

definition settles :: "nat set \<Rightarrow> 'a heap_scheme \<Rightarrow> 'a heap_scheme \<Rightarrow> bool" where
  "settles S h h' \<longleftrightarrow> length (promises h') = length (promises h)
    \<and> (\<forall>p. promise_get p h \<noteq> None \<longrightarrow> promise_get p h' = promise_get p h)
    \<and> (\<forall>p. p \<in> S \<and> p < length (promises h) \<longrightarrow> promise_get p h' \<noteq> None)"

lemma settlesD:
  assumes "settles S h h'"
  shows "p \<in> S \<Longrightarrow> p < length (promises h) \<Longrightarrow> promise_get p h' \<noteq> None"
    and "promise_get p h = Some r \<Longrightarrow> promise_get p h' = Some r"
    and "length (promises h') = length (promises h)"
  using assms unfolding settles_def by auto

lemma settles_refl [simp]: "settles {} h h"
  by (simp add: settles_def)

lemma settles_mono: "settles S h h' \<Longrightarrow> T \<subseteq> S \<Longrightarrow> settles T h h'"
  by (auto simp: settles_def)

lemma settles_trans: "settles S h h1 \<Longrightarrow> settles T h1 h2 \<Longrightarrow> settles (S \<union> T) h h2"
  unfolding settles_def by (metis Un_iff)

lemma settles_complete [intro]: "settles {p} h (promise_complete p r h)"
  by (auto simp: settles_def store_simps)

lemma settles_resolve [intro]: "settles {p} h (promise_resolve p v h)"
  by (simp add: promise_resolve_def settles_complete)

lemma settles_reject [intro]: "settles {p} h (promise_reject p e h)"
  by (simp add: promise_reject_def settles_complete)

lemma settles_rpc_send [intro]: "settles {} h (rpc_send c h)"
  by (auto simp: settles_def rpc_send_def wake_def promise_get_def)

lemma settles_fold:
  assumes "\<And>x h. x \<in> set xs \<Longrightarrow> settles (S x) h (f x h)"
  shows "settles (\<Union>x\<in>set xs. S x) h (fold f xs h)"
  using assms
proof (induction xs arbitrary: h)
  case Nil
  then show ?case by simp
next
  case (Cons x xs)
  have "settles (S x) h (f x h)" using Cons.prems by simp
  moreover have "settles (\<Union>y\<in>set xs. S y) (f x h) (fold f xs (f x h))"
    by (rule Cons.IH) (simp add: Cons.prems)
  ultimately show ?case by (simp add: settles_trans)
qed

text \<open>A run of rejections with one error: the order does not matter.\<close>

definition reject_all :: "nat list \<Rightarrow> error \<Rightarrow> 'a heap_scheme \<Rightarrow> 'a heap_scheme" where
  "reject_all ps e = fold (\<lambda>p. promise_reject p e) ps"

lemma reject_all_simps [simp]:
  "reject_all [] e h = h"
  "reject_all (p # ps) e h = reject_all ps e (promise_reject p e h)"
  "reject_all (ps @ qs) e h = reject_all qs e (reject_all ps e h)"
  by (simp_all add: reject_all_def)

lemma length_promises_reject [simp]:
  "length (promises (promise_reject p e h)) = length (promises h)"
  by (simp add: promise_reject_def)

lemma length_promises_reject_all [simp]:
  "length (promises (reject_all ps e h)) = length (promises h)"
  by (induction ps arbitrary: h) simp_all

lemma promise_get_reject_all [store_simps]:
  "promise_get q (reject_all ps e h) =
    (if q \<in> set ps \<and> q < length (promises h) \<and> promise_get q h = None then Some (Inl e) else promise_get q h)"
  by (induction ps arbitrary: h) (auto simp: promise_reject_def store_simps)

text \<open>
  C15: whatever completions race for the promises of the store, a promise that was not completed before
  holds the first of them made to it, and one that was keeps its value; completing again is ignored.
\<close>

theorem promise_first_completion_wins:
  assumes "p < length (promises h)"
  shows "promise_get p (fold (\<lambda>(p, r). promise_complete p r) ws h) =
    (case promise_get p h of Some r \<Rightarrow> Some r | None \<Rightarrow> map_of ws p)"
  using assms by (rule promise_cell.first_write_wins)

theorem promise_first_completion_wins_witness:
  "promise_get 0 (fold (\<lambda>(p, r). promise_complete p r)
      [(0, Inr VUnit), (0, Inl (error_of FutureCompleted))] (snd (promise_new heap_empty)))
    = Some (Inr VUnit)"
  using promise_first_completion_wins[of 0 "snd (promise_new heap_empty)"
      "[(0, Inr VUnit), (0, Inl (error_of FutureCompleted))]"]
  by (simp add: promise_defs heap_empty_def)

text \<open>A promise delivers its value once: the poll that takes it leaves the promise pending.\<close>

lemma promise_poll_takes:
  "promise_get p h = Some r \<Longrightarrow> fst (promise_poll p h) = Ready r \<and> promise_get p (snd (promise_poll p h)) = None"
  by (auto simp: promise_poll_def promise_try_wait_def promise_get_def)

lemma promise_poll_pending: "promise_get p h = None \<Longrightarrow> promise_poll p h = (Pending, h)"
  by (simp add: promise_poll_def promise_try_wait_def)

end
