(* ===== verification/Acker_Model.thy ===== *)
theory Acker_Model
  imports Store
begin

text \<open>
  Model of \<^verbatim>\<open>src/acker.rs\<close> and of the constructors of \<^verbatim>\<open>src/message.rs\<close>.  An acker shares its own kill
  switch with its clones, and the kill switch of its channel with every acker of that channel.
\<close>

section \<open>Ackers\<close>

definition acker_new ::
  "channel_id \<Rightarrow> delivery_tag \<Rightarrow> bool \<Rightarrow> nat option \<Rightarrow> nat \<Rightarrow> 'a heap_scheme \<Rightarrow> acker \<times> 'a heap_scheme" where
  "acker_new c t has_rpc e chan_switch h =
    (let (k, h') = switch_new h
     in (\<lparr>acker_channel_id = c, acker_delivery_tag = t, acker_has_rpc = has_rpc, acker_error = e,
          acker_killswitch = k, acker_channel_killswitch = chan_switch\<rparr>, h'))"

definition poisoned :: "acker \<Rightarrow> 'a heap_scheme \<Rightarrow> bool" where
  "poisoned a h = killed (acker_channel_killswitch a) h"

definition usable :: "acker \<Rightarrow> 'a heap_scheme \<Rightarrow> bool" where
  "usable a h = (\<not> poisoned a h \<and> \<not> killed (acker_killswitch a) h)"

definition invalidate :: "acker \<Rightarrow> 'a heap_scheme \<Rightarrow> 'a heap_scheme" where
  "invalidate a h = snd (switch_kill (acker_killswitch a) h)"

text \<open>A call ends at once with a result, or waits for the promise it hands to the internal queue.\<close>

datatype ack_outcome = AckDone "error + bool" | AckWaiting nat

definition acker_rpc ::
  "(nat \<Rightarrow> 'a heap_scheme \<Rightarrow> 'a heap_scheme) \<Rightarrow> acker \<Rightarrow> 'a heap_scheme \<Rightarrow> ack_outcome \<times> 'a heap_scheme" where
  "acker_rpc f a h =
    (if poisoned a h then (AckDone (Inr False), h)
     else let (first, h1) = switch_kill (acker_killswitch a) h
          in if \<not> first then (AckDone (Inr False), h1)
             else case (case acker_error a of Some e \<Rightarrow> holder_check e h1 | None \<Rightarrow> Inr ()) of
                    Inl e \<Rightarrow> (AckDone (Inl e), h1)
                  | Inr _ \<Rightarrow>
                      if acker_has_rpc a
                      then let (p, h2) = promise_new h1 in (AckWaiting p, f p h2)
                      else (AckDone (Inr True), h1))"

definition acker_ack :: "basic_ack_options \<Rightarrow> acker \<Rightarrow> 'a heap_scheme \<Rightarrow> ack_outcome \<times> 'a heap_scheme" where
  "acker_ack opts a =
    acker_rpc (\<lambda>p. rpc_basic_ack (acker_channel_id a) (acker_delivery_tag a) opts p (acker_error a)) a"

definition acker_nack :: "basic_nack_options \<Rightarrow> acker \<Rightarrow> 'a heap_scheme \<Rightarrow> ack_outcome \<times> 'a heap_scheme" where
  "acker_nack opts a =
    acker_rpc (\<lambda>p. rpc_basic_nack (acker_channel_id a) (acker_delivery_tag a) opts p (acker_error a)) a"

definition acker_reject :: "basic_reject_options \<Rightarrow> acker \<Rightarrow> 'a heap_scheme \<Rightarrow> ack_outcome \<times> 'a heap_scheme" where
  "acker_reject opts a =
    acker_rpc (\<lambda>p. rpc_basic_reject (acker_channel_id a) (acker_delivery_tag a) opts p (acker_error a)) a"

section \<open>Messages\<close>

definition delivery_new ::
  "channel_id \<Rightarrow> delivery_tag \<Rightarrow> short_string \<Rightarrow> short_string \<Rightarrow> bool \<Rightarrow> bool \<Rightarrow> nat option \<Rightarrow> nat
    \<Rightarrow> 'a heap_scheme \<Rightarrow> delivery \<times> 'a heap_scheme" where
  "delivery_new c t exchange routing_key redelivered has_rpc e chan_switch h =
    (let (a, h') = acker_new c t has_rpc e chan_switch h
     in (\<lparr>delivery_tag = t, delivery_exchange = exchange, delivery_routing_key = routing_key,
          delivery_redelivered = redelivered, delivery_properties = DefaultProperties,
          delivery_data = [], delivery_acker = a\<rparr>, h'))"

definition delivery_mock ::
  "delivery_tag \<Rightarrow> short_string \<Rightarrow> short_string \<Rightarrow> bool \<Rightarrow> byte list \<Rightarrow> 'a heap_scheme \<Rightarrow> delivery \<times> 'a heap_scheme" where
  "delivery_mock t exchange routing_key redelivered d h =
    (let (k, h1) = switch_new h;
         (m, h2) = delivery_new 0 t exchange routing_key redelivered False None k h1
     in (m\<lparr>delivery_data := d\<rparr>, h2))"

definition receive_content :: "byte list \<Rightarrow> delivery \<Rightarrow> delivery" where
  "receive_content d m = m\<lparr>delivery_data := delivery_data m @ d\<rparr>"

definition basic_get_message_new ::
  "channel_id \<Rightarrow> delivery_tag \<Rightarrow> short_string \<Rightarrow> short_string \<Rightarrow> bool \<Rightarrow> message_count \<Rightarrow> nat
    \<Rightarrow> 'a heap_scheme \<Rightarrow> basic_get_message \<times> 'a heap_scheme" where
  "basic_get_message_new c t exchange routing_key redelivered n chan_switch h =
    (let (m, h') = delivery_new c t exchange routing_key redelivered True None chan_switch h
     in (\<lparr>get_delivery = m, get_message_count = n\<rparr>, h'))"

definition basic_return_message_new ::
  "short_string \<Rightarrow> short_string \<Rightarrow> reply_code \<Rightarrow> short_string \<Rightarrow> nat \<Rightarrow> 'a heap_scheme
    \<Rightarrow> basic_return_message \<times> 'a heap_scheme" where
  "basic_return_message_new exchange routing_key code text chan_switch h =
    (let (m, h') = delivery_new 0 0 exchange routing_key False False None chan_switch h
     in (\<lparr>return_delivery = m, return_reply_code = code, return_reply_text = text\<rparr>,
         invalidate (delivery_acker m) h'))"

section \<open>An acker is used once\<close>

datatype ack_call = CallAck basic_ack_options | CallNack basic_nack_options | CallReject basic_reject_options

fun acker_call :: "ack_call \<Rightarrow> acker \<Rightarrow> 'a heap_scheme \<Rightarrow> ack_outcome \<times> 'a heap_scheme" where
  "acker_call (CallAck opts) a h = acker_ack opts a h"
| "acker_call (CallNack opts) a h = acker_nack opts a h"
| "acker_call (CallReject opts) a h = acker_reject opts a h"

fun acker_calls :: "ack_call list \<Rightarrow> acker \<Rightarrow> 'a heap_scheme \<Rightarrow> ack_outcome list \<times> 'a heap_scheme" where
  "acker_calls [] a h = ([], h)"
| "acker_calls (c # cs) a h =
    (let (r, h1) = acker_call c a h; (rs, h2) = acker_calls cs a h1 in (r # rs, h2))"

lemma rpc_send_switches [simp]: "switches (rpc_send c h) = switches h"
  by (simp add: rpc_send_def wake_def)

lemma acker_call_unusable:
  "\<not> usable a h \<Longrightarrow> fst (acker_call c a h) = AckDone (Inr False) \<and> rpc (snd (acker_call c a h)) = rpc h"
  by (cases c) (auto simp: acker_ack_def acker_nack_def acker_reject_def acker_rpc_def usable_def
      switch_kill_def split_beta)

lemma acker_call_switches:
  "switches (snd (acker_call c a h)) =
    (if poisoned a h then switches h else (switches h)[acker_killswitch a := True])"
  by (cases c) (auto simp: acker_ack_def acker_nack_def acker_reject_def acker_rpc_def switch_kill_def
      promise_new_def promise_build_def rpc_basic_ack_def rpc_basic_nack_def rpc_basic_reject_def
      split_beta Let_def split: sum.splits option.splits)

lemma acker_call_kills:
  assumes "acker_killswitch a < length (switches h)"
  shows "\<not> usable a (snd (acker_call c a h))"
  using assms
  by (simp add: usable_def killed_def acker_call_switches poisoned_def nth_list_update split: if_splits)

lemma acker_calls_unusable:
  "\<not> usable a h \<Longrightarrow> fst (acker_calls cs a h) = replicate (length cs) (AckDone (Inr False))
    \<and> rpc (snd (acker_calls cs a h)) = rpc h"
proof (induction cs arbitrary: h)
  case (Cons c cs)
  have "\<not> usable a (snd (acker_call c a h))"
    using Cons.prems
    by (auto simp: usable_def killed_def acker_call_switches poisoned_def nth_list_update)
  with Cons.IH[OF this] acker_call_unusable[OF Cons.prems, of c] show ?case
    by (simp add: split_beta Let_def)
qed simp



text \<open>A returned message can never be acknowledged.\<close>

lemma return_message_unusable:
  "basic_return_message_new x r c t k h = (m, h') \<Longrightarrow> \<not> usable (delivery_acker (return_delivery m)) h'"
  by (auto simp: basic_return_message_new_def delivery_new_def acker_new_def switch_new_def usable_def
      invalidate_def switch_kill_def killed_def split_beta Let_def)

end
