(* ===== verification/Confirms.thy ===== *)
theory Confirms
  imports Acker_Model Id_Sequence
begin

text \<open>
  Publisher confirms: the messages the server returned (\<^verbatim>\<open>src/returned_messages.rs\<close>), the confirmations a
  publisher waits for (\<^verbatim>\<open>src/publisher_confirm.rs\<close>) and the table of unconfirmed delivery tags
  (\<^verbatim>\<open>src/acknowledgement.rs\<close>).
\<close>

section \<open>Returned messages\<close>

record returned_messages =
  rm_current_message :: "basic_return_message option"
  rm_non_confirm_messages :: "basic_return_message list"
  rm_waiting_messages :: "basic_return_message list"
  rm_messages :: "basic_return_message list"
  rm_dropped_confirms :: "nat list"

definition rm_default :: returned_messages where
  "rm_default = \<lparr>rm_current_message = None, rm_non_confirm_messages = [], rm_waiting_messages = [],
     rm_messages = [], rm_dropped_confirms = []\<rparr>"

definition rm_start_new_delivery :: "basic_return_message \<Rightarrow> returned_messages \<Rightarrow> returned_messages" where
  "rm_start_new_delivery m s = s\<lparr>rm_current_message := Some m\<rparr>"

definition rm_new_delivery_complete :: "bool \<Rightarrow> returned_messages \<Rightarrow> returned_messages" where
  "rm_new_delivery_complete confirm_mode s =
    (case rm_current_message s of
       None \<Rightarrow> s
     | Some m \<Rightarrow>
         let s' = s\<lparr>rm_current_message := None\<rparr>
         in if confirm_mode then s'\<lparr>rm_waiting_messages := rm_waiting_messages s @ [m]\<rparr>
            else s'\<lparr>rm_non_confirm_messages := rm_non_confirm_messages s @ [m]\<rparr>)"

definition return_map_delivery :: "(delivery \<Rightarrow> delivery) \<Rightarrow> basic_return_message \<Rightarrow> basic_return_message" where
  "return_map_delivery f m = m\<lparr>return_delivery := f (return_delivery m)\<rparr>"

definition rm_handle_content_header_frame ::
  "payload_size \<Rightarrow> basic_properties \<Rightarrow> bool \<Rightarrow> returned_messages \<Rightarrow> returned_messages" where
  "rm_handle_content_header_frame sz props confirm_mode s =
    (let s' = s\<lparr>rm_current_message :=
           map_option (return_map_delivery (\<lambda>d. d\<lparr>delivery_properties := props\<rparr>)) (rm_current_message s)\<rparr>
     in if sz = 0 then rm_new_delivery_complete confirm_mode s' else s')"

definition rm_handle_body_frame ::
  "payload_size \<Rightarrow> byte list \<Rightarrow> bool \<Rightarrow> returned_messages \<Rightarrow> returned_messages" where
  "rm_handle_body_frame remaining payload confirm_mode s =
    (let s' = s\<lparr>rm_current_message :=
           map_option (return_map_delivery (receive_content payload)) (rm_current_message s)\<rparr>
     in if remaining = 0 then rm_new_delivery_complete confirm_mode s' else s')"

definition rm_get_waiting_message :: "returned_messages \<Rightarrow> basic_return_message option \<times> returned_messages" where
  "rm_get_waiting_message s =
    (case rm_waiting_messages s of
       [] \<Rightarrow> (None, s)
     | m # ms \<Rightarrow> (Some m, s\<lparr>rm_waiting_messages := ms\<rparr>))"

definition rm_clear_dropped_confirms :: "returned_messages \<Rightarrow> returned_messages" where
  "rm_clear_dropped_confirms s = s\<lparr>rm_dropped_confirms := []\<rparr>"

text \<open>
  What looking at a dropped confirm yields: a message to store, nothing, or the promise itself, which
  is not ready yet.
\<close>

definition process_dropped_confirm ::
  "nat \<Rightarrow> basic_return_message list \<Rightarrow> returned_messages \<Rightarrow> 'a heap_scheme
    \<Rightarrow> basic_return_message list \<times> returned_messages \<times> 'a heap_scheme" where
  "process_dropped_confirm p msgs s h =
    (case promise_try_wait p h of
       (Some (Inr (VConfirm c)), h') \<Rightarrow>
         (case take_message c of Some m \<Rightarrow> (msgs @ [m], s, h') | None \<Rightarrow> (msgs, s, h'))
     | (Some _, h') \<Rightarrow> (msgs, s, h')
     | (None, h') \<Rightarrow> (msgs, s\<lparr>rm_dropped_confirms := rm_dropped_confirms s @ [p]\<rparr>, h'))"

definition register_dropped_confirm ::
  "nat \<Rightarrow> returned_messages \<Rightarrow> 'a heap_scheme \<Rightarrow> returned_messages \<times> 'a heap_scheme" where
  "register_dropped_confirm p s h =
    (let (msgs, s', h') = process_dropped_confirm p (rm_messages s) s h
     in (s'\<lparr>rm_messages := msgs\<rparr>, h'))"

fun process_dropped_confirms ::
  "nat list \<Rightarrow> basic_return_message list \<Rightarrow> returned_messages \<Rightarrow> 'a heap_scheme
    \<Rightarrow> basic_return_message list \<times> returned_messages \<times> 'a heap_scheme" where
  "process_dropped_confirms [] msgs s h = (msgs, s, h)"
| "process_dropped_confirms (p # ps) msgs s h =
    (let (msgs', s', h') = process_dropped_confirm p msgs s h
     in process_dropped_confirms ps msgs' s' h')"

definition rm_drain ::
  "returned_messages \<Rightarrow> 'a heap_scheme \<Rightarrow> basic_return_message list \<times> returned_messages \<times> 'a heap_scheme" where
  "rm_drain s h =
    (let msgs = rm_non_confirm_messages s @ rm_messages s;
         s' = s\<lparr>rm_messages := [], rm_non_confirm_messages := [], rm_dropped_confirms := []\<rparr>
     in process_dropped_confirms (rm_dropped_confirms s) msgs s' h)"

section \<open>Publisher confirms\<close>

text \<open>The returned messages that a confirm shares with its channel are passed where it is dropped.\<close>

record publisher_confirm =
  pc_inner :: "nat option"

definition publisher_confirm_new :: "nat \<Rightarrow> publisher_confirm" where
  "publisher_confirm_new p = \<lparr>pc_inner = Some p\<rparr>"

definition publisher_confirm_not_requested :: "'a heap_scheme \<Rightarrow> publisher_confirm \<times> 'a heap_scheme" where
  "publisher_confirm_not_requested h =
    (let (p, h') = promise_new_with_data (Inr (VConfirm NotRequested)) h
     in (\<lparr>pc_inner = Some p\<rparr>, h'))"

definition publisher_confirm_poll ::
  "publisher_confirm \<Rightarrow> 'a heap_scheme \<Rightarrow> (error, pvalue) poll \<times> publisher_confirm \<times> 'a heap_scheme" where
  "publisher_confirm_poll c h =
    (case pc_inner c of
       None \<Rightarrow> (Ready (Inl (error_of FutureCompleted)), c, h)
     | Some p \<Rightarrow>
         (case promise_poll p h of
            (Pending, h') \<Rightarrow> (Pending, c, h')
          | (Ready r, h') \<Rightarrow> (Ready r, c\<lparr>pc_inner := None\<rparr>, h')))"

definition publisher_confirm_drop ::
  "publisher_confirm \<Rightarrow> returned_messages \<Rightarrow> 'a heap_scheme \<Rightarrow> returned_messages \<times> 'a heap_scheme" where
  "publisher_confirm_drop c s h =
    (case pc_inner c of Some p \<Rightarrow> register_dropped_confirm p s h | None \<Rightarrow> (s, h))"

section \<open>Unconfirmed delivery tags\<close>

text \<open>
  A pending tag has the promise of its confirmation and the promise that \<^verbatim>\<open>wait_for_confirms\<close> waits
  for; \<^verbatim>\<open>last\<close> is the second promise of the tag registered last.
\<close>

record acknowledgements =
  acks_channel_id :: channel_id
  acks_delivery_tag :: "64 id_sequence"
  acks_last :: "nat option"
  acks_pending :: "(delivery_tag \<times> nat \<times> nat) list"

definition acks_new :: "channel_id \<Rightarrow> acknowledgements" where
  "acks_new c = \<lparr>acks_channel_id = c, acks_delivery_tag = id_sequence_new False, acks_last = None,
     acks_pending = []\<rparr>"

definition register_pending ::
  "acknowledgements \<Rightarrow> 'a heap_scheme \<Rightarrow> publisher_confirm \<times> acknowledgements \<times> 'a heap_scheme" where
  "register_pending a h =
    (let (tag, s) = next_id (acks_delivery_tag a);
         (p, h1) = promise_new h;
         (q, h2) = promise_new h1
     in (publisher_confirm_new p,
         a\<lparr>acks_delivery_tag := s, acks_last := Some q,
           acks_pending := AList.update tag (p, q) (acks_pending a)\<rparr>, h2))"

definition get_last_pending :: "acknowledgements \<Rightarrow> nat option \<times> acknowledgements" where
  "get_last_pending a = (acks_last a, a\<lparr>acks_last := None\<rparr>)"

definition complete_pending ::
  "bool \<Rightarrow> delivery_tag \<Rightarrow> nat \<times> nat \<Rightarrow> acknowledgements \<Rightarrow> returned_messages \<times> 'a heap_scheme
    \<Rightarrow> returned_messages \<times> 'a heap_scheme" where
  "complete_pending success tag rs a sh =
    (let (m, s) = rm_get_waiting_message (fst sh);
         h1 = promise_resolve (fst rs)
                (VConfirm (if success then ConfirmationAck m else ConfirmationNack m)) (snd sh)
     in (s, if Some tag = current_id (acks_delivery_tag a) then promise_resolve (snd rs) VUnit h1 else h1))"

definition drop_all ::
  "bool \<Rightarrow> acknowledgements \<Rightarrow> returned_messages \<times> 'a heap_scheme
    \<Rightarrow> acknowledgements \<times> returned_messages \<times> 'a heap_scheme" where
  "drop_all success a sh =
    (let a' = a\<lparr>acks_pending := []\<rparr>
     in (a', fold (\<lambda>(tag, rs). complete_pending success tag rs a') (acks_pending a) sh))"

definition show_tag_option :: "delivery_tag option \<Rightarrow> string" where
  "show_tag_option t = (case t of None \<Rightarrow> ''None'' | Some x \<Rightarrow> ''Some('' @ show_word x @ '')'')"

fun show_tags :: "delivery_tag list \<Rightarrow> string" where
  "show_tags [] = ''''"
| "show_tags [t] = show_word t"
| "show_tags (t # ts) = show_word t @ '', '' @ show_tags ts"

definition bad_tag_error :: "bool \<Rightarrow> delivery_tag \<Rightarrow> acknowledgements \<Rightarrow> amqp_error" where
  "bad_tag_error success tag a =
    \<lparr>ae_kind = precondition_failed,
     ae_message = ''invalid '' @ (if success then ''ack'' else ''nack'')
       @ '' received for inexistant delivery_tag '' @ show_word tag
       @ '' on channel '' @ show_word (acks_channel_id a)
       @ '', current is '' @ show_tag_option (current_id (acks_delivery_tag a))
       @ '', was expecting one of ['' @ show_tags (keys (acks_pending a)) @ '']''\<rparr>"

definition drop_pending ::
  "delivery_tag \<Rightarrow> bool \<Rightarrow> acknowledgements \<times> returned_messages \<times> 'a heap_scheme
    \<Rightarrow> (amqp_error + unit) \<times> acknowledgements \<times> returned_messages \<times> 'a heap_scheme" where
  "drop_pending tag success st =
    (let (a, sh) = st in
     case map_of (acks_pending a) tag of
       Some rs \<Rightarrow>
         let a' = a\<lparr>acks_pending := AList.delete tag (acks_pending a)\<rparr>
         in (Inr (), a', complete_pending success tag rs a' sh)
     | None \<Rightarrow> (Inl (bad_tag_error success tag a), st))"

fun drop_each ::
  "delivery_tag list \<Rightarrow> bool \<Rightarrow> acknowledgements \<times> returned_messages \<times> 'a heap_scheme
    \<Rightarrow> (amqp_error + unit) \<Rightarrow> (amqp_error + unit) \<times> acknowledgements \<times> returned_messages \<times> 'a heap_scheme" where
  "drop_each [] success st res = (res, st)"
| "drop_each (t # ts) success st res =
    (let (r, st') = drop_pending t success st
     in drop_each ts success st' (case r of Inl e \<Rightarrow> Inl e | Inr _ \<Rightarrow> res))"

definition complete_pending_before ::
  "delivery_tag \<Rightarrow> bool \<Rightarrow> acknowledgements \<times> returned_messages \<times> 'a heap_scheme
    \<Rightarrow> (amqp_error + unit) \<times> acknowledgements \<times> returned_messages \<times> 'a heap_scheme" where
  "complete_pending_before tag success st =
    drop_each (filter (\<lambda>t. t \<le> tag) (keys (acks_pending (fst st)))) success st (Inr ())"

definition acks_on_channel_error ::
  "error \<Rightarrow> acknowledgements \<Rightarrow> returned_messages \<Rightarrow> 'a heap_scheme
    \<Rightarrow> acknowledgements \<times> returned_messages \<times> 'a heap_scheme" where
  "acks_on_channel_error e a s h =
    (a\<lparr>acks_pending := []\<rparr>, rm_clear_dropped_confirms s,
     fold (\<lambda>(tag, p, q) h.
        let h1 = promise_reject p e h
        in if Some tag = current_id (acks_delivery_tag a) then promise_reject q e h1 else h1)
       (acks_pending a) h)"

definition acks_reset ::
  "error \<Rightarrow> acknowledgements \<Rightarrow> returned_messages \<Rightarrow> 'a heap_scheme
    \<Rightarrow> acknowledgements \<times> returned_messages \<times> 'a heap_scheme" where
  "acks_reset e a s h = acks_on_channel_error e (a\<lparr>acks_delivery_tag := id_sequence_new False\<rparr>) s h"

section \<open>The invariant of the table\<close>

definition promise_open :: "'a heap_scheme \<Rightarrow> nat \<Rightarrow> bool" where
  "promise_open h p \<longleftrightarrow> p < length (promises h) \<and> promise_get p h = None"

text \<open>
  The promises of the pending tags are not completed and no promise belongs to two tags.
\<close>

definition acks_ok :: "acknowledgements \<Rightarrow> 'a heap_scheme \<Rightarrow> bool" where
  "acks_ok a h \<longleftrightarrow> wf_map (acks_pending a)
    \<and> (\<forall>t p q. (t, p, q) \<in> set (acks_pending a) \<longrightarrow> promise_open h p \<and> promise_open h q \<and> p \<noteq> q)
    \<and> (\<forall>t p q t' p' q'. (t, p, q) \<in> set (acks_pending a) \<longrightarrow> (t', p', q') \<in> set (acks_pending a)
         \<longrightarrow> t \<noteq> t' \<longrightarrow> {p, q} \<inter> {p', q'} = {})"

lemma acks_okD:
  assumes "acks_ok a h" "(t, p, q) \<in> set (acks_pending a)"
  shows "promise_open h p" "promise_open h q" "p \<noteq> q"
    "(t', p', q') \<in> set (acks_pending a) \<Longrightarrow> t \<noteq> t' \<Longrightarrow> {p, q} \<inter> {p', q'} = {}"
    "map_of (acks_pending a) t = Some (p, q)"
  using assms unfolding acks_ok_def by (blast, blast, blast, blast, simp)

lemma acks_ok_list:
  "acks_ok a h \<longleftrightarrow> wf_map (acks_pending a)
    \<and> list_all (\<lambda>(t, p, q). promise_open h p \<and> promise_open h q \<and> p \<noteq> q
        \<and> list_all (\<lambda>(t', p', q'). t = t' \<or> (p \<noteq> p' \<and> p \<noteq> q' \<and> q \<noteq> p' \<and> q \<noteq> q')) (acks_pending a))
        (acks_pending a)"
  unfolding acks_ok_def list_all_iff by (fastforce simp: split_beta)

lemma promise_open_complete:
  "promise_open (promise_complete p r h) q \<longleftrightarrow> promise_open h q \<and> (q \<noteq> p \<or> \<not> p < length (promises h))"
  by (auto simp: promise_open_def store_simps)

lemma promise_open_lt: "promise_open h p \<Longrightarrow> p < length (promises h)"
  by (simp add: promise_open_def)

text \<open>What completing one tag does to the promises.\<close>

definition confirmation_of :: "bool \<Rightarrow> basic_return_message option \<Rightarrow> confirmation" where
  "confirmation_of success m = (if success then ConfirmationAck m else ConfirmationNack m)"

lemma complete_pending_get:
  assumes "promise_open h p"
  shows "\<exists>m. promise_get p (snd (complete_pending success t (p, q) a (s, h))) = Some (Inr (VConfirm (confirmation_of success m)))"
    and "r \<noteq> p \<Longrightarrow> r \<noteq> q \<Longrightarrow> promise_get r (snd (complete_pending success t (p, q) a (s, h))) = promise_get r h"
    and "length (promises (snd (complete_pending success t (p, q) a (s, h)))) = length (promises h)"
  using assms
  by (auto simp: complete_pending_def promise_resolve_def promise_open_def confirmation_of_def
      store_simps split_beta Let_def)

lemma promise_open_cong:
  "promise_get p h' = promise_get p h \<Longrightarrow> length (promises h') = length (promises h)
    \<Longrightarrow> promise_open h' p = promise_open h p"
  by (simp add: promise_open_def)

lemma acks_ok_remove:
  assumes ok: "acks_ok a h" and t: "(t, p, q) \<in> set (acks_pending a)"
    and keep: "\<And>r. r \<noteq> p \<Longrightarrow> r \<noteq> q \<Longrightarrow> promise_get r h' = promise_get r h"
    and len: "length (promises h') = length (promises h)"
    and a': "acks_pending a' = AList.delete t (acks_pending a)"
  shows "acks_ok a' h'"
proof -
  have sub: "(t', p', q') \<in> set (acks_pending a) \<and> t' \<noteq> t" if "(t', p', q') \<in> set (acks_pending a')" for t' p' q'
    using that by (auto simp: a' mem_delete)
  have opn: "promise_open h' r \<longleftrightarrow> promise_open h r" if "r \<in> {p', q'}" "(t', p', q') \<in> set (acks_pending a')" for t' p' q' r
  proof -
    have "r \<noteq> p" "r \<noteq> q"
      using acks_okD(4)[OF ok t, of t' p' q'] sub[OF that(2)] that(1) by auto
    then show ?thesis by (intro promise_open_cong keep len)
  qed
  show ?thesis unfolding acks_ok_def
  proof (intro conjI allI impI)
    show "wf_map (acks_pending a')" using ok by (simp add: acks_ok_def a')
  next
    fix t' p' q' assume m: "(t', p', q') \<in> set (acks_pending a')"
    with sub have "(t', p', q') \<in> set (acks_pending a)" by blast
    from acks_okD(1-3)[OF ok this] opn[OF _ m]
    show "promise_open h' p'" "promise_open h' q'" "p' \<noteq> q'" by simp_all
  next
    fix t1 p1 q1 t2 p2 q2
    assume "(t1, p1, q1) \<in> set (acks_pending a')" "(t2, p2, q2) \<in> set (acks_pending a')" "t1 \<noteq> t2"
    with sub have "(t1, p1, q1) \<in> set (acks_pending a)" "(t2, p2, q2) \<in> set (acks_pending a)" "t1 \<noteq> t2"
      by blast+
    then show "{p1, q1} \<inter> {p2, q2} = {}" using acks_okD(4)[OF ok] by blast
  qed
qed

lemma drop_pending_step:
  assumes ok: "acks_ok a h" and t: "(t, p, q) \<in> set (acks_pending a)"
  obtains a' s' h' m where "drop_pending t success (a, s, h) = (Inr (), a', s', h')"
    "a' = a\<lparr>acks_pending := AList.delete t (acks_pending a)\<rparr>" "acks_ok a' h'"
    "promise_get p h' = Some (Inr (VConfirm (confirmation_of success m)))"
    "\<And>r. r \<noteq> p \<Longrightarrow> r \<noteq> q \<Longrightarrow> promise_get r h' = promise_get r h"
    "length (promises h') = length (promises h)"
proof -
  let ?a = "a\<lparr>acks_pending := AList.delete t (acks_pending a)\<rparr>"
  obtain s' h' where c: "complete_pending success t (p, q) ?a (s, h) = (s', h')" by fastforce
  note g = complete_pending_get[OF acks_okD(1)[OF ok t], where success = success and t = t and q = q
      and a = ?a and s = s, unfolded c snd_conv]
  obtain m where m: "promise_get p h' = Some (Inr (VConfirm (confirmation_of success m)))"
    using g(1) by blast
  have "drop_pending t success (a, s, h) = (Inr (), ?a, s', h')"
    by (simp add: drop_pending_def acks_okD(5)[OF ok t] c Let_def)
  moreover have "acks_ok ?a h'"
    by (rule acks_ok_remove[OF ok t g(2) g(3)]) simp_all
  ultimately show thesis using that[of ?a s' h' m] m g(2,3) by blast
qed

definition tag_promises :: "(delivery_tag \<times> nat \<times> nat) list \<Rightarrow> delivery_tag list \<Rightarrow> nat set" where
  "tag_promises m ts = {r. \<exists>t p q. (t, p, q) \<in> set m \<and> t \<in> set ts \<and> (r = p \<or> r = q)}"

text \<open>What a run of \<^verbatim>\<open>drop_pending\<close> over pending tags does.\<close>

definition dropped ::
  "delivery_tag list \<Rightarrow> bool \<Rightarrow> acknowledgements \<Rightarrow> 'a heap_scheme \<Rightarrow> acknowledgements \<Rightarrow> 'a heap_scheme \<Rightarrow> bool" where
  "dropped ts success a h a' h' \<longleftrightarrow>
     a' = a\<lparr>acks_pending := filter (\<lambda>x. fst x \<notin> set ts) (acks_pending a)\<rparr>
   \<and> acks_ok a' h' \<and> length (promises h') = length (promises h)
   \<and> (\<forall>t p q. (t, p, q) \<in> set (acks_pending a) \<longrightarrow> t \<in> set ts \<longrightarrow>
        (\<exists>m. promise_get p h' = Some (Inr (VConfirm (confirmation_of success m)))))
   \<and> (\<forall>r. r \<notin> tag_promises (acks_pending a) ts \<longrightarrow> promise_get r h' = promise_get r h)"

lemma droppedD:
  assumes "dropped ts success a h a' h'"
  shows "a' = a\<lparr>acks_pending := filter (\<lambda>x. fst x \<notin> set ts) (acks_pending a)\<rparr>"
    and "acks_ok a' h'" and "length (promises h') = length (promises h)"
    and "\<And>t p q. (t, p, q) \<in> set (acks_pending a) \<Longrightarrow> t \<in> set ts \<Longrightarrow>
        \<exists>m. promise_get p h' = Some (Inr (VConfirm (confirmation_of success m)))"
    and "\<And>r. r \<notin> tag_promises (acks_pending a) ts \<Longrightarrow> promise_get r h' = promise_get r h"
  using assms unfolding dropped_def by blast+

lemma drop_each_dropped:
  assumes "acks_ok a h" "distinct ts" "set ts \<subseteq> set (keys (acks_pending a))"
  shows "\<exists>a' s' h'. drop_each ts success (a, s, h) res = (res, a', s', h') \<and> dropped ts success a h a' h'"
  using assms
proof (induction ts arbitrary: a s h)
  case Nil
  then show ?case by (simp add: dropped_def)
next
  case (Cons t ts)
  then obtain p q where tpq: "(t, p, q) \<in> set (acks_pending a)" by auto
  obtain a1 s1 h1 m where d: "drop_pending t success (a, s, h) = (Inr (), a1, s1, h1)"
    and a1: "a1 = a\<lparr>acks_pending := AList.delete t (acks_pending a)\<rparr>" and ok1: "acks_ok a1 h1"
    and pm: "promise_get p h1 = Some (Inr (VConfirm (confirmation_of success m)))"
    and keep: "\<And>r. r \<noteq> p \<Longrightarrow> r \<noteq> q \<Longrightarrow> promise_get r h1 = promise_get r h"
    and len: "length (promises h1) = length (promises h)"
    using drop_pending_step[OF Cons.prems(1) tpq, where success = success and s = s] by metis
  have "set ts \<subseteq> set (keys (acks_pending a1))"
    using Cons.prems(2,3) by (force simp: a1 AList.delete_eq)
  then obtain a' s' h' where e: "drop_each ts success (a1, s1, h1) res = (res, a', s', h')"
    and dr: "dropped ts success a1 h1 a' h'"
    using Cons.IH[OF ok1, of s1] Cons.prems(2) by auto
  have fresh: "r \<notin> tag_promises (acks_pending a1) ts" if "r = p \<or> r = q" for r
    using that acks_okD(4)[OF Cons.prems(1) tpq] Cons.prems(2)
    by (fastforce simp: tag_promises_def a1 mem_delete)
  have "dropped (t # ts) success a h a' h'"
    unfolding dropped_def
  proof (intro conjI allI impI)
    show "a' = a\<lparr>acks_pending := filter (\<lambda>x. fst x \<notin> set (t # ts)) (acks_pending a)\<rparr>"
      by (simp add: droppedD(1)[OF dr] a1 AList.delete_eq split_beta conj_commute eq_commute)
    show "acks_ok a' h'" "length (promises h') = length (promises h)"
      using droppedD(2,3)[OF dr] len by simp_all
  next
    fix t0 p0 q0 assume m0: "(t0, p0, q0) \<in> set (acks_pending a)" "t0 \<in> set (t # ts)"
    show "\<exists>m. promise_get p0 h' = Some (Inr (VConfirm (confirmation_of success m)))"
    proof (cases "t0 = t")
      case True
      with acks_okD(5)[OF Cons.prems(1) tpq] acks_okD(5)[OF Cons.prems(1) m0(1)] have "p0 = p" by simp
      with pm fresh[of p] droppedD(5)[OF dr, of p] show ?thesis by auto
    next
      case False
      with m0 droppedD(4)[OF dr, of t0 p0 q0] show ?thesis by (simp add: a1 mem_delete)
    qed
  next
    fix r assume r: "r \<notin> tag_promises (acks_pending a) (t # ts)"
    then have "r \<noteq> p" "r \<noteq> q" "r \<notin> tag_promises (acks_pending a1) ts"
      using tpq by (auto simp: tag_promises_def a1 mem_delete)
    with droppedD(5)[OF dr, of r] keep[of r] show "promise_get r h' = promise_get r h" by simp
  qed
  with d e show ?case by auto
qed

text \<open>
  C17: a multiple acknowledgement (or negative acknowledgement) up to a tag resolves the confirmation of
  every pending tag up to it, keeps exactly the later tags pending with their promises untouched, and
  never reports an error.
\<close>

theorem ack_multiple_confirms_up_to_tag:
  assumes ok: "acks_ok a h"
  shows "\<exists>a' s' h'. complete_pending_before tag success (a, s, h) = (Inr (), a', s', h')
    \<and> acks_pending a' = filter (\<lambda>x. \<not> fst x \<le> tag) (acks_pending a) \<and> acks_ok a' h'
    \<and> (\<forall>t p q. (t, p, q) \<in> set (acks_pending a) \<longrightarrow>
         (if t \<le> tag then \<exists>m. promise_get p h' = Some (Inr (VConfirm (confirmation_of success m)))
          else promise_get p h' = None \<and> promise_get q h' = None))"
proof -
  let ?ts = "filter (\<lambda>t. t \<le> tag) (keys (acks_pending a))"
  have "distinct ?ts" "set ?ts \<subseteq> set (keys (acks_pending a))"
    using ok by (auto simp: acks_ok_def wf_map_def)
  from drop_each_dropped[OF ok this, of success s "Inr ()"]
  obtain a' s' h' where e: "drop_each ?ts success (a, s, h) (Inr ()) = (Inr (), a', s', h')"
    and dr: "dropped ?ts success a h a' h'" by blast
  have pend: "acks_pending a' = filter (\<lambda>x. \<not> fst x \<le> tag) (acks_pending a)"
    by (auto simp: droppedD(1)[OF dr] intro!: filter_cong)
  have "if t \<le> tag then \<exists>m. promise_get p h' = Some (Inr (VConfirm (confirmation_of success m)))
      else promise_get p h' = None \<and> promise_get q h' = None"
    if m: "(t, p, q) \<in> set (acks_pending a)" for t p q
  proof (cases "t \<le> tag")
    case True
    with m droppedD(4)[OF dr, of t p q] show ?thesis by force
  next
    case False
    with m pend have "(t, p, q) \<in> set (acks_pending a')" by simp
    from acks_okD(1,2)[OF droppedD(2)[OF dr] this] show ?thesis using False by (simp add: promise_open_def)
  qed
  moreover have "complete_pending_before tag success (a, s, h) = (Inr (), a', s', h')"
    using e by (simp add: complete_pending_before_def)
  ultimately show ?thesis using pend droppedD(2)[OF dr] by blast
qed

theorem ack_multiple_confirms_up_to_tag_witness:
  "\<exists>a' s' h'. complete_pending_before 1 True
      (\<lparr>acks_channel_id = 1, acks_delivery_tag = id_sequence_new False, acks_last = None,
        acks_pending = [(1, 0, 1), (2, 2, 3)]\<rparr>, rm_default, heap_empty\<lparr>promises := replicate 4 None\<rparr>)
      = (Inr (), a', s', h')
    \<and> acks_pending a' = [(2, 2, 3)]"
proof -
  have "acks_ok \<lparr>acks_channel_id = 1, acks_delivery_tag = id_sequence_new False, acks_last = None,
      acks_pending = [(1, 0, 1), (2, 2, 3)]\<rparr> (heap_empty\<lparr>promises := replicate 4 None\<rparr>)"
    by (simp add: acks_ok_list promise_open_def promise_get_def wf_map_def heap_empty_def eval_nat_numeral)
  from ack_multiple_confirms_up_to_tag[OF this, of 1 True rm_default]
  show ?thesis by (elim exE conjE) (simp add: word_le_nat_alt)
qed

section \<open>New tags and channel errors\<close>

lemma register_pending_ok [inv_intros]:
  assumes "acks_ok a h" "register_pending a h = (c, a', h')"
  shows "acks_ok a' h'"
proof -
  have opn: "promise_open (h\<lparr>promises := promises h @ [None, None]\<rparr>) r
      \<longleftrightarrow> promise_open h r \<or> r = length (promises h) \<or> r = Suc (length (promises h))" for r
    by (auto simp: promise_open_def promise_get_def nth_append nth_Cons' less_Suc_eq)
  have lt: "p < length (promises h) \<and> q < length (promises h)" if "(t, p, q) \<in> set (acks_pending a)" for t p q
    using acks_okD(1,2)[OF assms(1) that] by (simp add: promise_open_def)
  obtain tag s where n: "next_id (acks_delivery_tag a) = (tag, s)" by fastforce
  have h': "h' = h\<lparr>promises := promises h @ [None, None]\<rparr>"
    and a': "acks_pending a' = AList.update tag (length (promises h), Suc (length (promises h))) (acks_pending a)"
    using assms(2) by (auto simp: register_pending_def n promise_new_def promise_build_def Let_def)
  have sub: "(t = tag \<and> p = length (promises h) \<and> q = Suc (length (promises h)))
      \<or> (t \<noteq> tag \<and> (t, p, q) \<in> set (acks_pending a))"
    if "(t, p, q) \<in> set (acks_pending a')" for t p q
    using that assms(1) by (auto simp: a' mem_update acks_ok_def)
  show ?thesis unfolding acks_ok_def
  proof (intro conjI allI impI)
    show "wf_map (acks_pending a')" using assms(1) by (simp add: a' acks_ok_def)
  next
    fix t p q assume "(t, p, q) \<in> set (acks_pending a')"
    from sub[OF this] acks_okD(1-3)[OF assms(1), of t p q]
    show "promise_open h' p" "promise_open h' q" "p \<noteq> q" by (auto simp: h' opn)
  next
    fix t1 p1 q1 t2 p2 q2
    assume "(t1, p1, q1) \<in> set (acks_pending a')" "(t2, p2, q2) \<in> set (acks_pending a')" "t1 \<noteq> t2"
    with sub[of t1 p1 q1] sub[of t2 p2 q2] lt[of t1 p1 q1] lt[of t2 p2 q2]
      acks_okD(4)[OF assms(1), of t1 p1 q1 t2 p2 q2]
    show "{p1, q1} \<inter> {p2, q2} = {}" by auto
  qed
qed

text \<open>The promises that a channel error rejects.\<close>

definition error_promises :: "acknowledgements \<Rightarrow> nat list" where
  "error_promises a = concat (map (\<lambda>(t, p, q).
     if Some t = current_id (acks_delivery_tag a) then [p, q] else [p]) (acks_pending a))"

lemma acks_on_channel_error_eq:
  "acks_on_channel_error e a s h =
    (a\<lparr>acks_pending := []\<rparr>, rm_clear_dropped_confirms s, reject_all (error_promises a) e h)"
proof -
  have "fold (\<lambda>(tag, p, q) h. let h1 = promise_reject p e h
        in if Some tag = c then promise_reject q e h1 else h1) m h
    = reject_all (concat (map (\<lambda>(t, p, q). if Some t = c then [p, q] else [p]) m)) e h"
    for c and m :: "(delivery_tag \<times> nat \<times> nat) list"
    by (induction m arbitrary: h) (auto simp: Let_def)
  then show ?thesis by (simp add: acks_on_channel_error_def error_promises_def)
qed

lemma acks_on_channel_error_ok [inv_intros]:
  "acks_on_channel_error e a s h = (a', s', h') \<Longrightarrow> acks_ok a' h'"
  by (auto simp: acks_on_channel_error_def acks_ok_def)

lemma error_promises_iff:
  assumes "acks_ok a h" "(t, p, q) \<in> set (acks_pending a)"
  shows "p \<in> set (error_promises a)"
    and "q \<in> set (error_promises a) \<longleftrightarrow> current_id (acks_delivery_tag a) = Some t"
proof -
  have *: "r \<in> set (error_promises a) \<longleftrightarrow> (\<exists>t p q. (t, p, q) \<in> set (acks_pending a)
      \<and> (r = p \<or> (current_id (acks_delivery_tag a) = Some t \<and> r = q)))" for r
    by (force simp: error_promises_def split: if_splits)
  show "p \<in> set (error_promises a)" using assms(2) * by blast
  have "t' = t \<and> p' = p \<and> q' = q"
    if "(t', p', q') \<in> set (acks_pending a)" "q = p' \<or> q = q'" for t' p' q'
    using acks_okD(4)[OF assms, of t' p' q'] acks_okD(5)[OF assms] acks_okD(5)[OF assms(1) that(1)] that
    by (cases "t = t'") auto
  then show "q \<in> set (error_promises a) \<longleftrightarrow> current_id (acks_delivery_tag a) = Some t"
    using * assms(2) acks_okD(3)[OF assms] by blast
qed

text \<open>
  C18: when a channel fails, the confirmation of every pending tag is rejected with the error, and the
  promise that \<^verbatim>\<open>wait_for_confirms\<close> waits for exactly for the tag handed out last.
\<close>

theorem channel_error_rejects_confirms:
  assumes "acks_ok a h" "(t, p, q) \<in> set (acks_pending a)"
    and "acks_on_channel_error e a s h = (a', s', h')"
  shows "acks_pending a' = [] \<and> promise_get p h' = Some (Inl e)
    \<and> promise_get q h' = (if current_id (acks_delivery_tag a) = Some t then Some (Inl e) else None)"
  using acks_okD(1-3)[OF assms(1,2)] error_promises_iff[OF assms(1,2)] assms(3)
  by (auto simp: acks_on_channel_error_eq promise_open_def promise_get_reject_all)

theorem channel_error_rejects_confirms_witness:
  "let a = \<lparr>acks_channel_id = 1, acks_delivery_tag = \<lparr>ids_allow_zero = False, ids_max = None, ids_id = 2\<rparr>,
        acks_last = Some 1, acks_pending = [(1, 0, 1)]\<rparr>;
       e = error_of (InvalidChannelState ChError ''x'');
       (a', s', h') = acks_on_channel_error e a rm_default (heap_empty\<lparr>promises := [None, None]\<rparr>)
   in promise_get 0 h' = Some (Inl e) \<and> promise_get 1 h' = Some (Inl e)"
proof -
  let ?a = "\<lparr>acks_channel_id = 1, acks_delivery_tag = \<lparr>ids_allow_zero = False, ids_max = None, ids_id = 2\<rparr>,
        acks_last = Some 1, acks_pending = [(1, 0, 1)]\<rparr>"
  have "acks_ok ?a (heap_empty\<lparr>promises := [None, None]\<rparr>)"
    by (simp add: acks_ok_list promise_open_def promise_get_def wf_map_def heap_empty_def eval_nat_numeral)
  moreover have "(1, 0, 1) \<in> set (acks_pending ?a)" by simp
  ultimately show ?thesis
    by (auto simp: Let_def current_id_def first_id_def word_le_nat_alt
        dest!: channel_error_rejects_confirms split: prod.split)
qed

text \<open>
  C20: a reset for recovery rejects every pending confirmation but no promise of \<^verbatim>\<open>wait_for_confirms\<close>: the
  sequence of tags is restarted first, so no tag is the last one any more.  The table is empty
  afterwards, and nothing is left that would complete those promises.
\<close>

theorem reset_abandons_wait_for_confirms:
  assumes "acks_ok a h" "(t, p, q) \<in> set (acks_pending a)"
    and "acks_reset e a s h = (a', s', h')"
  shows "acks_pending a' = [] \<and> promise_get p h' = Some (Inl e) \<and> promise_open h' q"
proof -
  let ?a = "a\<lparr>acks_delivery_tag := id_sequence_new False\<rparr>"
  have ok: "acks_ok ?a h" and m: "(t, p, q) \<in> set (acks_pending ?a)"
    using assms(1,2) by (simp_all add: acks_ok_def)
  have "current_id (acks_delivery_tag ?a) = None"
    by (simp add: current_id_def id_sequence_new_def first_id_def)
  then show ?thesis
    using acks_okD(1-3)[OF ok m] error_promises_iff[OF ok m] assms(3)
    by (auto simp: acks_reset_def acks_on_channel_error_eq promise_open_def promise_get_reject_all)
qed

theorem reset_abandons_wait_for_confirms_witness:
  "let a = \<lparr>acks_channel_id = 1, acks_delivery_tag = \<lparr>ids_allow_zero = False, ids_max = None, ids_id = 2\<rparr>,
        acks_last = Some 1, acks_pending = [(1, 0, 1)]\<rparr>;
       e = error_of (InvalidChannelState ChReconnecting ''x'');
       (a', s', h') = acks_reset e a rm_default (heap_empty\<lparr>promises := [None, None]\<rparr>)
   in promise_get 0 h' = Some (Inl e) \<and> promise_open h' 1"
proof -
  let ?a = "\<lparr>acks_channel_id = 1, acks_delivery_tag = \<lparr>ids_allow_zero = False, ids_max = None, ids_id = 2\<rparr>,
        acks_last = Some 1, acks_pending = [(1, 0, 1)]\<rparr>"
  have "acks_ok ?a (heap_empty\<lparr>promises := [None, None]\<rparr>)"
    by (simp add: acks_ok_list promise_open_def promise_get_def wf_map_def heap_empty_def eval_nat_numeral)
  moreover have "(1, 0, 1) \<in> set (acks_pending ?a)" by simp
  ultimately show ?thesis
    by (auto simp: Let_def dest!: reset_abandons_wait_for_confirms split: prod.split)
qed

text \<open>
  C19: acknowledging the tag handed out last resolves the promise of \<^verbatim>\<open>wait_for_confirms\<close> while every
  other tag stays pending: the wait ends before those messages are confirmed.
\<close>

theorem wait_ends_with_last_tag:
  assumes ok: "acks_ok a h" and t: "(t, p, q) \<in> set (acks_pending a)"
    and cur: "current_id (acks_delivery_tag a) = Some t"
    and d: "drop_pending t True (a, s, h) = (r, a', s', h')"
  shows "r = Inr () \<and> promise_get q h' = Some (Inr VUnit)
    \<and> acks_pending a' = AList.delete t (acks_pending a) \<and> acks_ok a' h'"
proof -
  have "promise_get q h' = Some (Inr VUnit)"
    using d cur acks_okD(1-3)[OF ok t]
    by (auto simp: drop_pending_def acks_okD(5)[OF ok t] complete_pending_def Let_def split_beta
        promise_resolve_def promise_open_def promise_get_complete)
  moreover obtain a1 s1 h1 where "drop_pending t True (a, s, h) = (Inr (), a1, s1, h1)"
    "a1 = a\<lparr>acks_pending := AList.delete t (acks_pending a)\<rparr>" "acks_ok a1 h1"
    by (rule drop_pending_step[OF ok t, of True s])
  ultimately show ?thesis using d by simp
qed

theorem wait_ends_with_last_tag_witness:
  "let a = \<lparr>acks_channel_id = 1, acks_delivery_tag = \<lparr>ids_allow_zero = False, ids_max = None, ids_id = 3\<rparr>,
        acks_last = Some 3, acks_pending = [(1, 0, 1), (2, 2, 3)]\<rparr>;
       (r, a', s', h') = drop_pending 2 True (a, rm_default, heap_empty\<lparr>promises := replicate 4 None\<rparr>)
   in promise_get 3 h' = Some (Inr VUnit) \<and> acks_pending a' = [(1, 0, 1)]"
proof -
  let ?a = "\<lparr>acks_channel_id = 1, acks_delivery_tag = \<lparr>ids_allow_zero = False, ids_max = None, ids_id = 3\<rparr>,
        acks_last = Some 3, acks_pending = [(1, 0, 1), (2, 2, 3)]\<rparr>"
  have "acks_ok ?a (heap_empty\<lparr>promises := replicate 4 None\<rparr>)"
    by (simp add: acks_ok_list promise_open_def promise_get_def wf_map_def heap_empty_def eval_nat_numeral)
  moreover have "(2, 2, 3) \<in> set (acks_pending ?a)" "current_id (acks_delivery_tag ?a) = Some 2"
    by (simp_all add: current_id_def first_id_def word_le_nat_alt)
  moreover obtain r a' s' h' where d: "drop_pending 2 True
      (?a, rm_default, heap_empty\<lparr>promises := replicate 4 None\<rparr>) = (r, a', s', h')"
    by (rule prod_cases4)
  ultimately have "promise_get 3 h' = Some (Inr VUnit) \<and> acks_pending a' = AList.delete 2 (acks_pending ?a)"
    using wait_ends_with_last_tag by blast
  then show ?thesis unfolding Let_def d by simp
qed

end
