(* ===== verification/Topology.thy ===== *)
theory Topology
  imports Types
begin

text \<open>
  Model of \<^verbatim>\<open>src/topology.rs\<close> and \<^verbatim>\<open>src/registry.rs\<close>: the definitions of the exchanges, queues and bindings
  that a channel declared, from which it is rebuilt after the connection was lost.  A consumer of a
  channel definition is its index in the store of consumers.
\<close>

section \<open>Definitions of exchanges and queues\<close>

record binding_definition =
  bd_source :: short_string
  bd_routing_key :: short_string
  bd_arguments :: field_table

record exchange_definition =
  ed_name :: short_string
  ed_kind :: "exchange_kind option"
  ed_options :: "exchange_declare_options option"
  ed_arguments :: "field_table option"
  ed_bindings :: "binding_definition list"
  ed_is_declared :: bool

definition exchange_declared ::
  "short_string \<Rightarrow> exchange_kind \<Rightarrow> exchange_declare_options \<Rightarrow> field_table \<Rightarrow> exchange_definition" where
  "exchange_declared name kd opts args =
    \<lparr>ed_name = name, ed_kind = Some kd, ed_options = Some opts, ed_arguments = Some args,
     ed_bindings = [], ed_is_declared = True\<rparr>"

definition exchange_undeclared :: "short_string \<Rightarrow> exchange_definition" where
  "exchange_undeclared name =
    \<lparr>ed_name = name, ed_kind = None, ed_options = None, ed_arguments = None, ed_bindings = [],
     ed_is_declared = False\<rparr>"

definition exchange_set_declared ::
  "exchange_kind \<Rightarrow> exchange_declare_options \<Rightarrow> field_table \<Rightarrow> exchange_definition \<Rightarrow> exchange_definition" where
  "exchange_set_declared kd opts args d =
    d\<lparr>ed_kind := Some kd, ed_options := Some opts, ed_arguments := Some args, ed_is_declared := True\<rparr>"

definition exchange_register_binding ::
  "short_string \<Rightarrow> short_string \<Rightarrow> field_table \<Rightarrow> exchange_definition \<Rightarrow> exchange_definition" where
  "exchange_register_binding src key args d =
    d\<lparr>ed_bindings := ed_bindings d @ [\<lparr>bd_source = src, bd_routing_key = key, bd_arguments = args\<rparr>]\<rparr>"

definition exchange_deregister_binding ::
  "short_string \<Rightarrow> short_string \<Rightarrow> field_table \<Rightarrow> exchange_definition \<Rightarrow> exchange_definition" where
  "exchange_deregister_binding src key args d =
    d\<lparr>ed_bindings := filter (\<lambda>b. bd_source b \<noteq> src \<or> bd_routing_key b \<noteq> key \<or> bd_arguments b \<noteq> args)
       (ed_bindings d)\<rparr>"

record queue_definition =
  qd_name :: short_string
  qd_options :: "queue_declare_options option"
  qd_arguments :: "field_table option"
  qd_bindings :: "binding_definition list"
  qd_is_declared :: bool

definition queue_declared ::
  "short_string \<Rightarrow> queue_declare_options \<Rightarrow> field_table \<Rightarrow> queue_definition" where
  "queue_declared name opts args =
    \<lparr>qd_name = name, qd_options = Some opts, qd_arguments = Some args, qd_bindings = [],
     qd_is_declared = True\<rparr>"

definition queue_undeclared :: "short_string \<Rightarrow> queue_definition" where
  "queue_undeclared name =
    \<lparr>qd_name = name, qd_options = None, qd_arguments = None, qd_bindings = [], qd_is_declared = False\<rparr>"

definition queue_set_declared ::
  "queue_declare_options \<Rightarrow> field_table \<Rightarrow> queue_definition \<Rightarrow> queue_definition" where
  "queue_set_declared opts args d =
    d\<lparr>qd_options := Some opts, qd_arguments := Some args, qd_is_declared := True\<rparr>"

definition queue_register_binding ::
  "short_string \<Rightarrow> short_string \<Rightarrow> field_table \<Rightarrow> queue_definition \<Rightarrow> queue_definition" where
  "queue_register_binding src key args d =
    d\<lparr>qd_bindings := qd_bindings d @ [\<lparr>bd_source = src, bd_routing_key = key, bd_arguments = args\<rparr>]\<rparr>"

definition queue_deregister_binding ::
  "short_string \<Rightarrow> short_string \<Rightarrow> field_table \<Rightarrow> queue_definition \<Rightarrow> queue_definition" where
  "queue_deregister_binding src key args d =
    d\<lparr>qd_bindings := filter (\<lambda>b. bd_source b \<noteq> src \<or> bd_routing_key b \<noteq> key \<or> bd_arguments b \<noteq> args)
       (qd_bindings d)\<rparr>"

record channel_definition =
  cd_exchanges :: "exchange_definition list"
  cd_queues :: "queue_definition list"
  cd_consumers :: "nat list"

section \<open>The registry of a channel\<close>

record registry =
  reg_exchanges :: "(short_string \<times> exchange_definition) list"
  reg_queues :: "(short_string \<times> queue_definition) list"

definition registry_default :: registry where
  "registry_default = \<lparr>reg_exchanges = [], reg_queues = []\<rparr>"

definition exchanges_topology :: "registry \<Rightarrow> exchange_definition list" where
  "exchanges_topology g = map snd (reg_exchanges g)"

definition queues_topology :: "registry \<Rightarrow> queue_definition list" where
  "queues_topology g = map snd (reg_queues g)"

definition register_exchange ::
  "short_string \<Rightarrow> exchange_kind \<Rightarrow> exchange_declare_options \<Rightarrow> field_table \<Rightarrow> registry \<Rightarrow> registry" where
  "register_exchange name kd opts args g =
    (case map_of (reg_exchanges g) name of
       Some d \<Rightarrow> g\<lparr>reg_exchanges :=
         AList.update name (exchange_set_declared kd opts args d) (reg_exchanges g)\<rparr>
     | None \<Rightarrow> g\<lparr>reg_exchanges :=
         AList.update name (exchange_declared name kd opts args) (reg_exchanges g)\<rparr>)"

definition deregister_exchange :: "short_string \<Rightarrow> registry \<Rightarrow> registry" where
  "deregister_exchange name g = g\<lparr>reg_exchanges := AList.delete name (reg_exchanges g)\<rparr>"

definition register_exchange_binding ::
  "short_string \<Rightarrow> short_string \<Rightarrow> short_string \<Rightarrow> field_table \<Rightarrow> registry \<Rightarrow> registry" where
  "register_exchange_binding dest src key args g =
    (let d = (case map_of (reg_exchanges g) dest of Some d \<Rightarrow> d | None \<Rightarrow> exchange_undeclared dest)
     in g\<lparr>reg_exchanges :=
          AList.update dest (exchange_register_binding src key args d) (reg_exchanges g)\<rparr>)"

definition deregister_exchange_binding ::
  "short_string \<Rightarrow> short_string \<Rightarrow> short_string \<Rightarrow> field_table \<Rightarrow> registry \<Rightarrow> registry" where
  "deregister_exchange_binding dest src key args g =
    (case map_of (reg_exchanges g) dest of
       Some d \<Rightarrow> g\<lparr>reg_exchanges :=
         AList.update dest (exchange_deregister_binding src key args d) (reg_exchanges g)\<rparr>
     | None \<Rightarrow> g)"

definition register_queue ::
  "short_string \<Rightarrow> queue_declare_options \<Rightarrow> field_table \<Rightarrow> registry \<Rightarrow> registry" where
  "register_queue name opts args g =
    (case map_of (reg_queues g) name of
       Some d \<Rightarrow> g\<lparr>reg_queues := AList.update name (queue_set_declared opts args d) (reg_queues g)\<rparr>
     | None \<Rightarrow> g\<lparr>reg_queues := AList.update name (queue_declared name opts args) (reg_queues g)\<rparr>)"

definition deregister_queue :: "short_string \<Rightarrow> registry \<Rightarrow> registry" where
  "deregister_queue name g = g\<lparr>reg_queues := AList.delete name (reg_queues g)\<rparr>"

definition register_queue_binding ::
  "short_string \<Rightarrow> short_string \<Rightarrow> short_string \<Rightarrow> field_table \<Rightarrow> registry \<Rightarrow> registry" where
  "register_queue_binding dest src key args g =
    (let d = (case map_of (reg_queues g) dest of Some d \<Rightarrow> d | None \<Rightarrow> queue_undeclared dest)
     in g\<lparr>reg_queues := AList.update dest (queue_register_binding src key args d) (reg_queues g)\<rparr>)"

definition deregister_queue_binding ::
  "short_string \<Rightarrow> short_string \<Rightarrow> short_string \<Rightarrow> field_table \<Rightarrow> registry \<Rightarrow> registry" where
  "deregister_queue_binding dest src key args g =
    (case map_of (reg_queues g) dest of
       Some d \<Rightarrow> g\<lparr>reg_queues := AList.update dest (queue_deregister_binding src key args d) (reg_queues g)\<rparr>
     | None \<Rightarrow> g)"

section \<open>A table of named entities\<close>

text \<open>
  Exchanges and queues are kept in the same way: an operation changes the definition of one name, and
  a name that is bound before it was declared gets an undeclared definition.  The contract is stated
  once and holds for both halves of the registry.
\<close>

datatype 'p entity_op =
    DeclareOp short_string 'p
  | RemoveOp short_string
  | BindOp short_string binding_definition
  | UnbindOp short_string binding_definition

fun op_name :: "'p entity_op \<Rightarrow> short_string" where
  "op_name (DeclareOp n _) = n"
| "op_name (RemoveOp n) = n"
| "op_name (BindOp n _) = n"
| "op_name (UnbindOp n _) = n"

text \<open>
  The reference: what the operations on one name leave of it.  The state is \<^term>\<open>None\<close> for an unknown name,
  and otherwise whether and how it was declared last and its bindings in order.
\<close>

type_synonym 'p entity_view = "('p option \<times> binding_definition list) option"

fun view_step :: "'p entity_op \<Rightarrow> 'p entity_view \<Rightarrow> 'p entity_view" where
  "view_step (DeclareOp _ p) v = Some (Some p, case v of None \<Rightarrow> [] | Some (_, bs) \<Rightarrow> bs)"
| "view_step (RemoveOp _) v = None"
| "view_step (BindOp _ b) v =
    (case v of None \<Rightarrow> Some (None, [b]) | Some (p, bs) \<Rightarrow> Some (p, bs @ [b]))"
| "view_step (UnbindOp _ b) v =
    (case v of None \<Rightarrow> None | Some (p, bs) \<Rightarrow> Some (p, removeAll b bs))"

locale entity_table =
  fixes view :: "short_string \<Rightarrow> 's \<Rightarrow> 'p entity_view"
    and perform :: "'p entity_op \<Rightarrow> 's \<Rightarrow> 's"
  assumes view_perform:
    "view n (perform x s) = (if op_name x = n then view_step x (view n s) else view n s)"
begin

lemma view_run:
  "view n (fold perform xs s) = fold view_step (filter (\<lambda>x. op_name x = n) xs) (view n s)"
  by (induction xs arbitrary: s) (simp_all add: view_perform)

lemma view_perform_commute:
  "op_name x \<noteq> op_name y \<Longrightarrow> view n (perform x (perform y s)) = view n (perform y (perform x s))"
  by (auto simp: view_perform)

end

fun exchange_op ::
  "(exchange_kind \<times> exchange_declare_options \<times> field_table) entity_op \<Rightarrow> registry \<Rightarrow> registry" where
  "exchange_op (DeclareOp n (kd, opts, args)) = register_exchange n kd opts args"
| "exchange_op (RemoveOp n) = deregister_exchange n"
| "exchange_op (BindOp n b) = register_exchange_binding n (bd_source b) (bd_routing_key b) (bd_arguments b)"
| "exchange_op (UnbindOp n b) = deregister_exchange_binding n (bd_source b) (bd_routing_key b) (bd_arguments b)"

definition exchange_params ::
  "exchange_definition \<Rightarrow> (exchange_kind \<times> exchange_declare_options \<times> field_table) option" where
  "exchange_params d = (case (ed_kind d, ed_options d, ed_arguments d) of
     (Some kd, Some opts, Some args) \<Rightarrow> Some (kd, opts, args) | _ \<Rightarrow> None)"

definition exchange_view ::
  "short_string \<Rightarrow> registry \<Rightarrow> (exchange_kind \<times> exchange_declare_options \<times> field_table) entity_view" where
  "exchange_view n g = map_option (\<lambda>d. (exchange_params d, ed_bindings d)) (map_of (reg_exchanges g) n)"

fun queue_op :: "(queue_declare_options \<times> field_table) entity_op \<Rightarrow> registry \<Rightarrow> registry" where
  "queue_op (DeclareOp n (opts, args)) = register_queue n opts args"
| "queue_op (RemoveOp n) = deregister_queue n"
| "queue_op (BindOp n b) = register_queue_binding n (bd_source b) (bd_routing_key b) (bd_arguments b)"
| "queue_op (UnbindOp n b) = deregister_queue_binding n (bd_source b) (bd_routing_key b) (bd_arguments b)"

definition queue_params :: "queue_definition \<Rightarrow> (queue_declare_options \<times> field_table) option" where
  "queue_params d = (case (qd_options d, qd_arguments d) of
     (Some opts, Some args) \<Rightarrow> Some (opts, args) | _ \<Rightarrow> None)"

definition queue_view ::
  "short_string \<Rightarrow> registry \<Rightarrow> (queue_declare_options \<times> field_table) entity_view" where
  "queue_view n g = map_option (\<lambda>d. (queue_params d, qd_bindings d)) (map_of (reg_queues g) n)"

lemmas exchange_defs = exchange_view_def exchange_params_def register_exchange_def deregister_exchange_def
  register_exchange_binding_def deregister_exchange_binding_def exchange_declared_def
  exchange_undeclared_def exchange_set_declared_def exchange_register_binding_def
  exchange_deregister_binding_def

lemmas queue_defs = queue_view_def queue_params_def register_queue_def deregister_queue_def
  register_queue_binding_def deregister_queue_binding_def queue_declared_def queue_undeclared_def
  queue_set_declared_def queue_register_binding_def queue_deregister_binding_def

lemma removeAll_binding:
  "filter (\<lambda>b. bd_routing_key b = bd_routing_key c \<longrightarrow> bd_source b = bd_source c \<longrightarrow> bd_arguments b \<noteq> bd_arguments c)
     bs = removeAll (c :: binding_definition) bs"
  unfolding removeAll_filter_not_eq by (rule filter_cong) (auto intro: binding_definition.equality)

lemma binding_eta [simp]:
  "\<lparr>bd_source = bd_source b, bd_routing_key = bd_routing_key b, bd_arguments = bd_arguments b\<rparr>
    = (b :: binding_definition)"
  by simp

interpretation exchanges: entity_table exchange_view exchange_op
proof
  fix n x g
  show "exchange_view n (exchange_op x g)
      = (if op_name x = n then view_step x (exchange_view n g) else exchange_view n g)"
    by (cases x rule: exchange_op.cases; cases "map_of (reg_exchanges g) n")
      (auto simp: exchange_defs update_conv' delete_conv' removeAll_binding Let_def split: option.splits)
qed

interpretation queues: entity_table queue_view queue_op
proof
  fix n x g
  show "queue_view n (queue_op x g)
      = (if op_name x = n then view_step x (queue_view n g) else queue_view n g)"
    by (cases x rule: queue_op.cases; cases "map_of (reg_queues g) n")
      (auto simp: queue_defs update_conv' delete_conv' removeAll_binding Let_def split: option.splits)
qed


section \<open>Well-formed registries\<close>

text \<open>A definition is kept under its own name, and a declared one has all its parameters.\<close>

definition wf_registry :: "registry \<Rightarrow> bool" where
  "wf_registry g \<longleftrightarrow> wf_map (reg_exchanges g) \<and> wf_map (reg_queues g)
    \<and> (\<forall>n d. map_of (reg_exchanges g) n = Some d \<longrightarrow>
         ed_name d = n \<and> (ed_is_declared d \<longleftrightarrow> exchange_params d \<noteq> None))
    \<and> (\<forall>n d. map_of (reg_queues g) n = Some d \<longrightarrow>
         qd_name d = n \<and> (qd_is_declared d \<longleftrightarrow> queue_params d \<noteq> None))"

lemma wf_registry_default [simp]: "wf_registry registry_default"
  by (simp add: wf_registry_def registry_default_def wf_map_def)

lemma wf_registry_put:
  assumes "wf_registry g"
  shows "ed_name d = n \<Longrightarrow> (ed_is_declared d \<longleftrightarrow> exchange_params d \<noteq> None)
      \<Longrightarrow> wf_registry (g\<lparr>reg_exchanges := AList.update n d (reg_exchanges g)\<rparr>)"
    and "wf_registry (g\<lparr>reg_exchanges := AList.delete n (reg_exchanges g)\<rparr>)"
    and "qd_name e = n \<Longrightarrow> (qd_is_declared e \<longleftrightarrow> queue_params e \<noteq> None)
      \<Longrightarrow> wf_registry (g\<lparr>reg_queues := AList.update n e (reg_queues g)\<rparr>)"
    and "wf_registry (g\<lparr>reg_queues := AList.delete n (reg_queues g)\<rparr>)"
  using assms unfolding wf_registry_def
  by (simp_all add: update_conv' delete_conv')

lemma wf_registryD:
  assumes "wf_registry g"
  shows "map_of (reg_exchanges g) n = Some d \<Longrightarrow> ed_name d = n"
    and "map_of (reg_exchanges g) n = Some d \<Longrightarrow> ed_is_declared d \<longleftrightarrow> exchange_params d \<noteq> None"
    and "map_of (reg_queues g) n = Some e \<Longrightarrow> qd_name e = n"
    and "map_of (reg_queues g) n = Some e \<Longrightarrow> qd_is_declared e \<longleftrightarrow> queue_params e \<noteq> None"
  using assms unfolding wf_registry_def by blast+

lemma definition_params [simp]:
  "exchange_params (exchange_set_declared kd opts args d) = Some (kd, opts, args)"
  "exchange_params (exchange_declared n kd opts args) = Some (kd, opts, args)"
  "exchange_params (exchange_undeclared n) = None"
  "exchange_params (exchange_register_binding src key args d) = exchange_params d"
  "exchange_params (exchange_deregister_binding src key args d) = exchange_params d"
  "queue_params (queue_set_declared qopts args e) = Some (qopts, args)"
  "queue_params (queue_declared n qopts args) = Some (qopts, args)"
  "queue_params (queue_undeclared n) = None"
  "queue_params (queue_register_binding src key args e) = queue_params e"
  "queue_params (queue_deregister_binding src key args e) = queue_params e"
  by (simp_all add: exchange_params_def queue_params_def exchange_set_declared_def exchange_declared_def
      exchange_undeclared_def exchange_register_binding_def exchange_deregister_binding_def
      queue_set_declared_def queue_declared_def queue_undeclared_def queue_register_binding_def
      queue_deregister_binding_def)

lemma definition_fields [simp]:
  "ed_name (exchange_set_declared kd opts args d) = ed_name d"
  "ed_name (exchange_declared n kd opts args) = n" "ed_name (exchange_undeclared n) = n"
  "ed_name (exchange_register_binding src key args d) = ed_name d"
  "ed_name (exchange_deregister_binding src key args d) = ed_name d"
  "ed_is_declared (exchange_set_declared kd opts args d)"
  "ed_is_declared (exchange_declared n kd opts args)" "\<not> ed_is_declared (exchange_undeclared n)"
  "ed_is_declared (exchange_register_binding src key args d) = ed_is_declared d"
  "ed_is_declared (exchange_deregister_binding src key args d) = ed_is_declared d"
  "qd_name (queue_set_declared qopts args e) = qd_name e"
  "qd_name (queue_declared n qopts args) = n" "qd_name (queue_undeclared n) = n"
  "qd_name (queue_register_binding src key args e) = qd_name e"
  "qd_name (queue_deregister_binding src key args e) = qd_name e"
  "qd_is_declared (queue_set_declared qopts args e)"
  "qd_is_declared (queue_declared n qopts args)" "\<not> qd_is_declared (queue_undeclared n)"
  "qd_is_declared (queue_register_binding src key args e) = qd_is_declared e"
  "qd_is_declared (queue_deregister_binding src key args e) = qd_is_declared e"
  by (simp_all add: exchange_set_declared_def exchange_declared_def
      exchange_undeclared_def exchange_register_binding_def exchange_deregister_binding_def
      queue_set_declared_def queue_declared_def queue_undeclared_def queue_register_binding_def
      queue_deregister_binding_def)

lemma wf_register_exchange [inv_intros]:
  "wf_registry g \<Longrightarrow> wf_registry (register_exchange n kd opts args g)"
  by (auto simp: register_exchange_def wf_registryD split: option.split intro!: wf_registry_put)

lemma wf_deregister_exchange [inv_intros]: "wf_registry g \<Longrightarrow> wf_registry (deregister_exchange n g)"
  by (simp add: deregister_exchange_def wf_registry_put)

lemma wf_register_exchange_binding [inv_intros]:
  "wf_registry g \<Longrightarrow> wf_registry (register_exchange_binding n src key args g)"
  by (auto simp: register_exchange_binding_def Let_def wf_registryD split: option.split intro!: wf_registry_put)

lemma wf_deregister_exchange_binding [inv_intros]:
  "wf_registry g \<Longrightarrow> wf_registry (deregister_exchange_binding n src key args g)"
  by (auto simp: deregister_exchange_binding_def wf_registryD split: option.split intro!: wf_registry_put)

lemma wf_register_queue [inv_intros]: "wf_registry g \<Longrightarrow> wf_registry (register_queue n qopts args g)"
  by (auto simp: register_queue_def wf_registryD split: option.split intro!: wf_registry_put)

lemma wf_deregister_queue [inv_intros]: "wf_registry g \<Longrightarrow> wf_registry (deregister_queue n g)"
  by (simp add: deregister_queue_def wf_registry_put)

lemma wf_register_queue_binding [inv_intros]:
  "wf_registry g \<Longrightarrow> wf_registry (register_queue_binding n src key args g)"
  by (auto simp: register_queue_binding_def Let_def wf_registryD split: option.split intro!: wf_registry_put)

lemma wf_deregister_queue_binding [inv_intros]:
  "wf_registry g \<Longrightarrow> wf_registry (deregister_queue_binding n src key args g)"
  by (auto simp: deregister_queue_binding_def wf_registryD split: option.split intro!: wf_registry_put)

end
