(* ===== verification/Frames_Model.thy ===== *)
theory Frames_Model
  imports Store
begin

text \<open>
  Model of \<^verbatim>\<open>src/frames.rs\<close>: the queues of frames that wait for the socket, the replies that the server
  still owes to each channel, and the poisoning of a channel or of the whole connection.  The state
  extends the store of shared cells, since rejecting a frame completes promises.
\<close>

section \<open>Entries\<close>

record frame_sending =
  fs_canceler :: "nat option"
  fs_resolver :: "nat option"

record frame_entry =
  fe_frame :: amqp_frame
  fe_sending :: frame_sending

record frames_state = heap +
  publish_frames :: "frame_entry list"
  retry_frames :: "frame_entry list"
  frames_queue :: "frame_entry list"
  low_prio_frames :: "frame_entry list"
  expected_replies :: "(channel_id \<times> expected_reply list) list"
  poison :: "error option"
  channels_poison :: "(channel_id \<times> error) list"

definition frame_sending_new :: "nat option \<Rightarrow> nat option \<Rightarrow> frame_sending" where
  "frame_sending_new c r = \<lparr>fs_canceler = c, fs_resolver = r\<rparr>"

definition sending_reject :: "frame_sending \<Rightarrow> error \<Rightarrow> 'a heap_scheme \<Rightarrow> 'a heap_scheme" where
  "sending_reject s e h =
    (case fs_resolver s of
       Some r \<Rightarrow> promise_reject r e h
     | None \<Rightarrow> (case fs_canceler s of Some c \<Rightarrow> promise_reject c e h | None \<Rightarrow> h))"

definition sending_resolve :: "frame_sending \<Rightarrow> 'a heap_scheme \<Rightarrow> 'a heap_scheme" where
  "sending_resolve s h = (case fs_resolver s of Some r \<Rightarrow> promise_resolve r VUnit h | None \<Rightarrow> h)"

definition frame_entry_new :: "amqp_frame \<Rightarrow> frame_sending \<Rightarrow> frame_entry" where
  "frame_entry_new f s = \<lparr>fe_frame = f, fe_sending = s\<rparr>"

definition frame_entry_of :: "amqp_frame \<times> nat option \<Rightarrow> frame_entry" where
  "frame_entry_of x = frame_entry_new (fst x) (frame_sending_new None (snd x))"

definition entry_reject :: "frame_entry \<Rightarrow> error \<Rightarrow> 'a heap_scheme \<Rightarrow> 'a heap_scheme" where
  "entry_reject x = sending_reject (fe_sending x)"

definition into_serialized_frame :: "frame_size \<Rightarrow> frame_entry \<Rightarrow> frame_size \<times> frame_sending" where
  "into_serialized_frame sz x = (sz, fe_sending x)"

section \<open>Queueing\<close>

definition check_poison :: "channel_id \<Rightarrow> 'a frames_state_scheme \<Rightarrow> error option" where
  "check_poison c w = (case map_of (channels_poison w) c of Some e \<Rightarrow> Some e | None \<Rightarrow> poison w)"

definition cancel_expected_reply :: "expected_reply \<Rightarrow> error \<Rightarrow> 'a heap_scheme \<Rightarrow> 'a heap_scheme" where
  "cancel_expected_reply x e h =
    (case x of ExpectedReply r c \<Rightarrow>
       (case r of ReplyBasicCancelOk p \<Rightarrow> promise_resolve p VUnit h | _ \<Rightarrow> promise_reject c e h))"

definition cancel_expected_replies :: "expected_reply list \<Rightarrow> error \<Rightarrow> 'a heap_scheme \<Rightarrow> 'a heap_scheme" where
  "cancel_expected_replies xs e = fold (\<lambda>x. cancel_expected_reply x e) xs"

definition replies_of :: "channel_id \<Rightarrow> 'a frames_state_scheme \<Rightarrow> expected_reply list" where
  "replies_of c w = (case map_of (expected_replies w) c of Some xs \<Rightarrow> xs | None \<Rightarrow> [])"

definition push ::
  "channel_id \<Rightarrow> amqp_frame \<Rightarrow> nat \<Rightarrow> expected_reply option \<Rightarrow> nat option
    \<Rightarrow> 'a frames_state_scheme \<Rightarrow> 'a frames_state_scheme" where
  "push c f canceler expected resolver w =
    (let sending = frame_sending_new (Some canceler) resolver in
     case check_poison c w of
       Some e \<Rightarrow>
         let w1 = (case expected of Some x \<Rightarrow> cancel_expected_reply x e w | None \<Rightarrow> w)
         in sending_reject sending e w1
     | None \<Rightarrow>
         let w1 = w\<lparr>frames_queue := frames_queue w @ [frame_entry_new f sending]\<rparr>
         in (case expected of
               Some x \<Rightarrow> w1\<lparr>expected_replies := AList.update c (replies_of c w1 @ [x]) (expected_replies w1)\<rparr>
             | None \<Rightarrow> w1))"

definition push_frames ::
  "channel_id \<Rightarrow> amqp_frame list \<Rightarrow> nat \<Rightarrow> 'a frames_state_scheme \<Rightarrow> 'a frames_state_scheme" where
  "push_frames c fs resolver w =
    (case check_poison c w of
       Some e \<Rightarrow> promise_reject resolver e w
     | None \<Rightarrow>
         let w1 = w\<lparr>low_prio_frames := low_prio_frames w @ map (\<lambda>f. frame_entry_of (f, None)) (butlast fs)\<rparr>
         in if fs \<noteq> []
            then w1\<lparr>low_prio_frames := low_prio_frames w1 @ [frame_entry_of (last fs, Some resolver)]\<rparr>
            else promise_resolve resolver VUnit w1)"

definition retry :: "frame_entry \<Rightarrow> 'a frames_state_scheme \<Rightarrow> 'a frames_state_scheme" where
  "retry x w = w\<lparr>retry_frames := retry_frames w @ [x]\<rparr>"

text \<open>The inner loop of \<^verbatim>\<open>pop\<close>: content frames move from the low-priority queue to the publish queue.\<close>

fun move_content :: "frame_entry list \<Rightarrow> frame_entry list \<Rightarrow> frame_entry list \<times> frame_entry list" where
  "move_content [] pub = ([], pub)"
| "move_content (x # low) pub =
    (if is_header_or_body (fe_frame x) then move_content low (pub @ [x]) else (x # low, pub))"

definition pop :: "bool \<Rightarrow> 'a frames_state_scheme \<Rightarrow> frame_entry option \<times> 'a frames_state_scheme" where
  "pop flow w =
    (case retry_frames w of
       x # xs \<Rightarrow> (Some x, w\<lparr>retry_frames := xs\<rparr>)
     | [] \<Rightarrow>
    (case publish_frames w of
       x # xs \<Rightarrow> (Some x, w\<lparr>publish_frames := xs\<rparr>)
     | [] \<Rightarrow>
    (case frames_queue w of
       x # xs \<Rightarrow> (Some x, w\<lparr>frames_queue := xs\<rparr>)
     | [] \<Rightarrow>
    (if flow
     then (case low_prio_frames w of
             x # xs \<Rightarrow>
               (Some x,
                if xs \<noteq> [] \<and> is_header (fe_frame (hd xs))
                then let (low, pub) = move_content xs (publish_frames w)
                     in w\<lparr>low_prio_frames := low, publish_frames := pub\<rparr>
                else w\<lparr>low_prio_frames := xs\<rparr>)
           | [] \<Rightarrow> (None, w))
     else (None, w)))))"

definition has_pending :: "'a frames_state_scheme \<Rightarrow> bool" where
  "has_pending w = (\<not> (retry_frames w = [] \<and> publish_frames w = [] \<and> frames_queue w = [] \<and> low_prio_frames w = []))"

section \<open>Expected replies\<close>

text \<open>The first element that satisfies a predicate, and the rest of the list.\<close>

fun take_first :: "('b \<Rightarrow> bool) \<Rightarrow> 'b list \<Rightarrow> ('b \<times> 'b list) option" where
  "take_first P [] = None"
| "take_first P (x # xs) =
    (if P x then Some (x, xs) else map_option (\<lambda>(y, ys). (y, x # ys)) (take_first P xs))"

definition find_expected_reply ::
  "channel_id \<Rightarrow> (expected_reply \<Rightarrow> bool) \<Rightarrow> 'a frames_state_scheme \<Rightarrow> reply option \<times> 'a frames_state_scheme" where
  "find_expected_reply c P w =
    (case map_of (expected_replies w) c of
       None \<Rightarrow> (None, w)
     | Some xs \<Rightarrow>
         (case take_first P xs of
            None \<Rightarrow> (None, w)
          | Some (x, ys) \<Rightarrow> (Some (reply_of x), w\<lparr>expected_replies := AList.update c ys (expected_replies w)\<rparr>)))"

fun is_connection_step :: "reply \<Rightarrow> bool" where
  "is_connection_step (ReplyConnectionStep _) = True"
| "is_connection_step _ = False"

definition find_connection_step ::
  "channel_id \<Rightarrow> 'a frames_state_scheme \<Rightarrow> connection_step option \<times> 'a frames_state_scheme" where
  "find_connection_step c w =
    (case find_expected_reply c (\<lambda>x. is_connection_step (reply_of x)) w of
       (Some (ReplyConnectionStep s), w') \<Rightarrow> (Some s, w')
     | (_, w') \<Rightarrow> (None, w'))"

definition connection_resolver ::
  "channel_id \<Rightarrow> 'a frames_state_scheme \<Rightarrow> nat option \<times> 'a frames_state_scheme" where
  "connection_resolver c w =
    (let (s, w') = find_connection_step c w in (map_option into_connection_resolver s, w'))"

lemma take_first_shorter: "take_first P xs = Some (y, ys) \<Longrightarrow> length ys < length xs"
  by (induction xs arbitrary: ys) (auto split: if_splits)

lemma connection_resolver_shorter:
  "connection_resolver c w = (Some r, w') \<Longrightarrow> length (replies_of c w') < length (replies_of c w)"
  by (auto simp: connection_resolver_def find_connection_step_def find_expected_reply_def replies_of_def
      update_conv' dest!: take_first_shorter split: option.splits prod.splits reply.splits)

text \<open>The loop that rejects every step of the handshake; a step leaves the replies at each round.\<close>

function clear_connection_steps :: "error \<Rightarrow> 'a frames_state_scheme \<Rightarrow> 'a frames_state_scheme" where
  "clear_connection_steps e w =
    (case connection_resolver 0 w of
       (Some r, w') \<Rightarrow> clear_connection_steps e (promise_reject r e w')
     | (None, w') \<Rightarrow> w')"
  by pat_completeness auto
termination
  by (relation "measure (\<lambda>(_, w). length (replies_of 0 w))")
    (auto dest!: connection_resolver_shorter[OF sym]
      simp: promise_reject_def promise_complete_def replies_of_def)

declare clear_connection_steps.simps [simp del]

fun header_step_resolver :: "expected_reply list \<Rightarrow> nat option" where
  "header_step_resolver [] = None"
| "header_step_resolver (x # xs) =
    (case reply_of x of
       ReplyConnectionStep (StepProtocolHeader r _) \<Rightarrow> Some r
     | _ \<Rightarrow> header_step_resolver xs)"

definition retry_connection_header :: "'a frames_state_scheme \<Rightarrow> bool \<times> 'a frames_state_scheme" where
  "retry_connection_header w =
    (case Option.bind (map_of (expected_replies w) 0) header_step_resolver of
       None \<Rightarrow> (False, w)
     | Some r \<Rightarrow>
         (True, w\<lparr>frames_queue := filter (\<lambda>x. \<not> is_protocol_header (fe_frame x)) (frames_queue w),
                  retry_frames := frame_entry_new (ProtocolHeader amqp_0_9_1) (frame_sending_new (Some r) None)
                    # filter (\<lambda>x. \<not> is_protocol_header (fe_frame x)) (retry_frames w)\<rparr>))"

definition take_expected_replies ::
  "channel_id \<Rightarrow> 'a frames_state_scheme \<Rightarrow> expected_reply list option \<times> 'a frames_state_scheme" where
  "take_expected_replies c w =
    (map_of (expected_replies w) c, w\<lparr>expected_replies := AList.delete c (expected_replies w)\<rparr>)"

definition clear_expected_replies ::
  "channel_id \<Rightarrow> error \<Rightarrow> 'a frames_state_scheme \<Rightarrow> 'a frames_state_scheme" where
  "clear_expected_replies c e w =
    (case take_expected_replies c w of
       (Some xs, w') \<Rightarrow> cancel_expected_replies xs e w'
     | (None, w') \<Rightarrow> w')"

definition clear_all_expected_replies :: "error \<Rightarrow> 'a frames_state_scheme \<Rightarrow> 'a frames_state_scheme" where
  "clear_all_expected_replies e w =
    fold (\<lambda>(_, xs). cancel_expected_replies xs e) (expected_replies w) (w\<lparr>expected_replies := []\<rparr>)"

fun next_close_ok :: "expected_reply list \<Rightarrow> error \<Rightarrow> 'a heap_scheme \<Rightarrow> reply option \<times> expected_reply list \<times> 'a heap_scheme" where
  "next_close_ok [] e h = (None, [], h)"
| "next_close_ok (x # xs) e h =
    (case reply_of x of
       ReplyChannelCloseOk _ \<Rightarrow> (Some (reply_of x), xs, h)
     | ReplyBasicCancelOk p \<Rightarrow> next_close_ok xs e (promise_resolve p VUnit h)
     | _ \<Rightarrow> next_close_ok xs e (promise_reject (canceler_of x) e h))"

definition next_expected_close_ok_reply ::
  "channel_id \<Rightarrow> error \<Rightarrow> 'a frames_state_scheme \<Rightarrow> reply option \<times> 'a frames_state_scheme" where
  "next_expected_close_ok_reply c e w =
    (case map_of (expected_replies w) c of
       None \<Rightarrow> (None, w)
     | Some xs \<Rightarrow>
         let (r, ys, w') = next_close_ok xs e w
         in (r, w'\<lparr>expected_replies := AList.update c ys (expected_replies w')\<rparr>))"

section \<open>Dropping frames\<close>

definition drop_pending_frame :: "error \<Rightarrow> frame_entry \<Rightarrow> 'a heap_scheme \<Rightarrow> 'a heap_scheme" where
  "drop_pending_frame e x h =
    (case fe_frame x of
       Method c (Basic (BasicCancel tag nowait)) \<Rightarrow>
         sending_resolve (fe_sending x) (rpc_send (CmdDeregisterConsumer c tag) h)
     | _ \<Rightarrow> entry_reject x e h)"

definition drop_pending_frames :: "error \<Rightarrow> frame_entry list \<Rightarrow> 'a heap_scheme \<Rightarrow> 'a heap_scheme" where
  "drop_pending_frames e xs = fold (drop_pending_frame e) xs"

definition frames_drop_pending :: "error \<Rightarrow> 'a frames_state_scheme \<Rightarrow> 'a frames_state_scheme" where
  "frames_drop_pending e w =
    (let w = drop_pending_frames e (retry_frames w) (w\<lparr>retry_frames := []\<rparr>);
         w = drop_pending_frames e (publish_frames w) (w\<lparr>publish_frames := []\<rparr>);
         w = drop_pending_frames e (frames_queue w) (w\<lparr>frames_queue := []\<rparr>);
         w = drop_pending_frames e (low_prio_frames w) (w\<lparr>low_prio_frames := []\<rparr>);
         w = clear_all_expected_replies e w
     in w\<lparr>poison := Some e\<rparr>)"

text \<open>\<^verbatim>\<open>retain\<close> with the rejection of what is not kept.\<close>

fun drop_pending_frames_for_channel ::
  "channel_id \<Rightarrow> frame_entry list \<Rightarrow> error \<Rightarrow> 'a heap_scheme \<Rightarrow> frame_entry list \<times> 'a heap_scheme" where
  "drop_pending_frames_for_channel c [] e h = ([], h)"
| "drop_pending_frames_for_channel c (x # xs) e h =
    (if frame_channel_id (fe_frame x) = c
     then drop_pending_frames_for_channel c xs e (entry_reject x e h)
     else let (ys, h') = drop_pending_frames_for_channel c xs e h in (x # ys, h'))"

definition drop_frames_for_channel ::
  "channel_id \<Rightarrow> error \<Rightarrow> 'a frames_state_scheme \<Rightarrow> 'a frames_state_scheme" where
  "drop_frames_for_channel c e w =
    (let (xs, w) = drop_pending_frames_for_channel c (retry_frames w) e w;
         w = w\<lparr>retry_frames := xs\<rparr>;
         (xs, w) = drop_pending_frames_for_channel c (publish_frames w) e w;
         w = w\<lparr>publish_frames := xs\<rparr>;
         (xs, w) = drop_pending_frames_for_channel c (frames_queue w) e w;
         w = w\<lparr>frames_queue := xs\<rparr>;
         (xs, w) = drop_pending_frames_for_channel c (low_prio_frames w) e w
     in w\<lparr>low_prio_frames := xs\<rparr>)"

definition poison_channel :: "channel_id \<Rightarrow> error \<Rightarrow> 'a frames_state_scheme \<Rightarrow> 'a frames_state_scheme" where
  "poison_channel c e w = w\<lparr>channels_poison := AList.update c e (channels_poison w)\<rparr>"

definition drop_poison :: "'a frames_state_scheme \<Rightarrow> 'a frames_state_scheme" where
  "drop_poison w = w\<lparr>poison := None\<rparr>"

definition drop_channel_poison :: "channel_id \<Rightarrow> 'a frames_state_scheme \<Rightarrow> 'a frames_state_scheme" where
  "drop_channel_poison c w = w\<lparr>channels_poison := AList.delete c (channels_poison w)\<rparr>"

section \<open>Frame conditions\<close>

text \<open>Completing promises and sending commands leave the queues and the replies alone, and conversely.\<close>

lemma frames_promise_complete [simp]:
  "publish_frames (promise_complete p r w) = publish_frames w"
  "retry_frames (promise_complete p r w) = retry_frames w"
  "frames_queue (promise_complete p r w) = frames_queue w"
  "low_prio_frames (promise_complete p r w) = low_prio_frames w"
  "expected_replies (promise_complete p r w) = expected_replies w"
  "poison (promise_complete p r w) = poison w"
  "channels_poison (promise_complete p r w) = channels_poison w"
  by (simp_all add: promise_complete_def)

lemma frames_rpc_send [simp]:
  "publish_frames (rpc_send c w) = publish_frames w"
  "retry_frames (rpc_send c w) = retry_frames w"
  "frames_queue (rpc_send c w) = frames_queue w"
  "low_prio_frames (rpc_send c w) = low_prio_frames w"
  "expected_replies (rpc_send c w) = expected_replies w"
  "poison (rpc_send c w) = poison w"
  "channels_poison (rpc_send c w) = channels_poison w"
  by (simp_all add: rpc_send_def wake_def)

lemmas frames_promise_resolve [simp] = frames_promise_complete[of _ "Inr v" for v, folded promise_resolve_def]
lemmas frames_promise_reject [simp] = frames_promise_complete[of _ "Inl e" for e, folded promise_reject_def]

lemma promise_get_frames_update [simp]:
  "promise_get p (w\<lparr>publish_frames := xs\<rparr>) = promise_get p w"
  "promise_get p (w\<lparr>retry_frames := xs\<rparr>) = promise_get p w"
  "promise_get p (w\<lparr>frames_queue := xs\<rparr>) = promise_get p w"
  "promise_get p (w\<lparr>low_prio_frames := xs\<rparr>) = promise_get p w"
  "promise_get p (w\<lparr>expected_replies := rs\<rparr>) = promise_get p w"
  "promise_get p (w\<lparr>poison := e\<rparr>) = promise_get p w"
  "promise_get p (w\<lparr>channels_poison := m\<rparr>) = promise_get p w"
  by (simp_all add: promise_get_def)

section \<open>The order on the wire\<close>

text \<open>
  What the users of the queues do: queue a frame, queue the frames of a publish, or offer the next
  frame to the socket, which takes it or leaves it to be retried.  The run yields the frames sent, and
  the units that were accepted: a single frame, or the frames of one publish.
\<close>

datatype frames_op =
    OpPush channel_id amqp_frame nat "expected_reply option" "nat option"
  | OpPublish channel_id "amqp_frame list" nat
  | OpOffer bool bool

definition publish_entries :: "amqp_frame list \<Rightarrow> nat \<Rightarrow> frame_entry list" where
  "publish_entries fs r = map (\<lambda>f. frame_entry_of (f, None)) (butlast fs) @ [frame_entry_of (last fs, Some r)]"

fun frames_step ::
  "frames_op \<Rightarrow> 'a frames_state_scheme \<Rightarrow> frame_entry list \<times> frame_entry list list \<times> 'a frames_state_scheme" where
  "frames_step (OpPush c f canceler expected r) w =
    ([], if check_poison c w = None then [[frame_entry_new f (frame_sending_new (Some canceler) r)]] else [],
     push c f canceler expected r w)"
| "frames_step (OpPublish c fs r) w =
    ([], if check_poison c w = None then [publish_entries fs r] else [], push_frames c fs r w)"
| "frames_step (OpOffer flow accepted) w =
    (case pop flow w of
       (None, w') \<Rightarrow> ([], [], w')
     | (Some x, w') \<Rightarrow> if accepted then ([x], [], w') else ([], [], retry x w'))"

fun frames_run ::
  "frames_op list \<Rightarrow> 'a frames_state_scheme \<Rightarrow> frame_entry list \<times> frame_entry list list \<times> 'a frames_state_scheme" where
  "frames_run [] w = ([], [], w)"
| "frames_run (x # xs) w =
    (let (sent, taken, w1) = frames_step x w; (sent', taken', w2) = frames_run xs w1
     in (sent @ sent', taken @ taken', w2))"

text \<open>The frames of one publish: the method, the content header, the bodies.\<close>

fun publish_shape :: "amqp_frame list \<Rightarrow> bool" where
  "publish_shape (m # h # bs) = (\<not> is_header_or_body m \<and> is_header h \<and> list_all is_header_or_body bs)"
| "publish_shape _ = False"

fun op_shape :: "frames_op \<Rightarrow> bool" where
  "op_shape (OpPublish c fs r) = publish_shape fs"
| "op_shape _ = True"

definition single :: "'b list \<Rightarrow> bool" where
  "single u \<longleftrightarrow> length u = 1"

text \<open>
  The invariant between a state, the frames sent so far and the units taken so far: the units that were
  started are on the wire in one piece, up to the rest of the last one; both classes of units are
  started in the order in which they were taken.
\<close>

definition wire_inv ::
  "frame_entry list \<Rightarrow> frame_entry list list \<Rightarrow> frame_entry list list \<Rightarrow> frame_entry list list
    \<Rightarrow> 'a frames_state_scheme \<Rightarrow> bool" where
  "wire_inv sent taken started waiting w \<longleftrightarrow>
     sent @ retry_frames w @ publish_frames w = concat started
   \<and> length (retry_frames w) \<le> 1
   \<and> filter single started @ map (\<lambda>x. [x]) (frames_queue w) = filter single taken
   \<and> low_prio_frames w = concat waiting
   \<and> filter (\<lambda>u. \<not> single u) started @ waiting = filter (\<lambda>u. \<not> single u) taken
   \<and> list_all (\<lambda>u. publish_shape (map fe_frame u)) waiting"

lemma is_header_content: "is_header f \<Longrightarrow> is_header_or_body f"
  by (cases f) auto

lemma move_content_append:
  "list_all (\<lambda>x. is_header_or_body (fe_frame x)) xs \<Longrightarrow> move_content (xs @ low) pub = move_content low (pub @ xs)"
  by (induction xs arbitrary: pub) auto

lemma move_content_stop:
  "list_all (\<lambda>u. publish_shape (map fe_frame u)) us \<Longrightarrow> move_content (concat us) pub = (concat us, pub)"
  by (cases us) (auto elim!: publish_shape.elims)

lemma publish_shapeE:
  assumes "publish_shape (map fe_frame u)"
  obtains m h bs where "u = m # h # bs" "\<not> is_header_or_body (fe_frame m)" "is_header (fe_frame h)"
    "list_all (\<lambda>x. is_header_or_body (fe_frame x)) (h # bs)" "\<not> single u"
  using assms by (auto elim!: publish_shape.elims simp: list_all_iff single_def is_header_content)

lemma publish_entries_frames: "fs \<noteq> [] \<Longrightarrow> map fe_frame (publish_entries fs r) = fs"
  by (simp add: publish_entries_def frame_entry_of_def frame_entry_new_def o_def)

lemma publish_shape_not_single: "publish_shape (map fe_frame u) \<Longrightarrow> \<not> single u"
  by (auto elim!: publish_shapeE)

lemma sending_reject_frames [simp]:
  "publish_frames (sending_reject s e w) = publish_frames w"
  "retry_frames (sending_reject s e w) = retry_frames w"
  "frames_queue (sending_reject s e w) = frames_queue w"
  "low_prio_frames (sending_reject s e w) = low_prio_frames w"
  "expected_replies (sending_reject s e w) = expected_replies w"
  "poison (sending_reject s e w) = poison w"
  "channels_poison (sending_reject s e w) = channels_poison w"
  by (simp_all add: sending_reject_def split: option.split)

lemma cancel_expected_reply_frames [simp]:
  "publish_frames (cancel_expected_reply x e w) = publish_frames w"
  "retry_frames (cancel_expected_reply x e w) = retry_frames w"
  "frames_queue (cancel_expected_reply x e w) = frames_queue w"
  "low_prio_frames (cancel_expected_reply x e w) = low_prio_frames w"
  "expected_replies (cancel_expected_reply x e w) = expected_replies w"
  "poison (cancel_expected_reply x e w) = poison w"
  "channels_poison (cancel_expected_reply x e w) = channels_poison w"
  by (simp_all add: cancel_expected_reply_def split: expected_reply.split reply.split)

lemma wire_inv_push:
  assumes "wire_inv sent taken started waiting w"
  shows "wire_inv sent
      (taken @ (if check_poison c w = None then [[frame_entry_new f (frame_sending_new (Some canceler) r)]] else []))
      started waiting (push c f canceler expected r w)"
  using assms
  by (auto simp: wire_inv_def push_def Let_def single_def split: option.splits)

lemma wire_inv_publish:
  assumes "wire_inv sent taken started waiting w" "publish_shape fs"
  shows "\<exists>waiting'. wire_inv sent (taken @ (if check_poison c w = None then [publish_entries fs r] else []))
      started waiting' (push_frames c fs r w)"
proof (cases "check_poison c w")
  case None
  from assms(2) have "fs \<noteq> []" by auto
  then have "publish_shape (map fe_frame (publish_entries fs r))" using assms(2) by (simp add: publish_entries_frames)
  with None assms(1) \<open>fs \<noteq> []\<close>
  have "wire_inv sent (taken @ [publish_entries fs r]) started (waiting @ [publish_entries fs r]) (push_frames c fs r w)"
    by (auto simp: wire_inv_def push_frames_def Let_def publish_shape_not_single publish_entries_def)
  with None show ?thesis by auto
next
  case (Some e)
  with assms(1) show ?thesis by (auto simp: wire_inv_def push_frames_def intro!: exI[of _ waiting])
qed

lemma wire_inv_pop:
  assumes inv: "wire_inv sent taken started waiting w" and p: "pop flow w = (Some x, w')"
  shows "\<exists>started' waiting'. wire_inv (sent @ [x]) taken started' waiting' w'
    \<and> wire_inv sent taken started' waiting' (retry x w')"
proof (cases "retry_frames w = [] \<and> publish_frames w = []")
  case False
  with inv p have "wire_inv (sent @ [x]) taken started waiting w' \<and> wire_inv sent taken started waiting (retry x w')"
    by (auto simp: wire_inv_def pop_def retry_def split: list.splits)
  then show ?thesis by blast
next
  case idle: True
  show ?thesis
  proof (cases "frames_queue w")
    case (Cons y ys)
    with idle inv p have "wire_inv (sent @ [x]) taken (started @ [[x]]) waiting w'
        \<and> wire_inv sent taken (started @ [[x]]) waiting (retry x w')"
      by (auto simp: wire_inv_def pop_def retry_def single_def)
    then show ?thesis by blast
  next
    case Nil
    with idle inv p obtain u us where wait: "waiting = u # us" and "publish_shape (map fe_frame u)"
      by (cases waiting) (auto simp: wire_inv_def pop_def split: if_splits)
    then obtain m h bs where u: "u = m # h # bs" and "is_header (fe_frame h)" "\<not> single u"
      and hb: "list_all (\<lambda>x. is_header_or_body (fe_frame x)) (h # bs)"
      by (elim publish_shapeE)
    have us: "list_all (\<lambda>u. publish_shape (map fe_frame u)) us"
      using inv by (simp add: wire_inv_def wait)
    have "move_content ((h # bs) @ concat us) [] = (concat us, h # bs)"
      by (simp only: move_content_append[OF hb] move_content_stop[OF us] append_Nil)
    with Nil idle inv p u \<open>is_header (fe_frame h)\<close>
    have w': "x = m" "w' = w\<lparr>low_prio_frames := concat us, publish_frames := h # bs\<rparr>"
      by (auto simp: pop_def wire_inv_def wait split: if_splits)
    have "wire_inv (sent @ [x]) taken (started @ [u]) us w' \<and> wire_inv sent taken (started @ [u]) us (retry x w')"
      using inv idle Nil us \<open>\<not> single u\<close> by (auto simp: wire_inv_def w' wait u retry_def)
    then show ?thesis by blast
  qed
qed

lemma wire_inv_step:
  assumes "wire_inv sent taken started waiting w" "op_shape x" "frames_step x w = (sent', taken', w')"
  shows "\<exists>started' waiting'. wire_inv (sent @ sent') (taken @ taken') started' waiting' w'"
proof (cases x)
  case (OpPush c f canceler expected r)
  with assms show ?thesis using wire_inv_push[OF assms(1), of c f canceler r expected] by auto
next
  case (OpPublish c fs r)
  with assms show ?thesis using wire_inv_publish[OF assms(1), of fs c r] by auto
next
  case (OpOffer flow accepted)
  show ?thesis
  proof (cases "pop flow w")
    case (Pair y w1)
    show ?thesis
    proof (cases y)
      case None
      with Pair have "w1 = w" by (auto simp: pop_def split: list.splits if_splits)
      with None Pair OpOffer assms show ?thesis by auto
    next
      case (Some z)
      with Pair OpOffer assms wire_inv_pop[OF assms(1), of flow z w1] show ?thesis
        by (auto split: if_splits)
    qed
  qed
qed

lemma wire_inv_run:
  assumes "wire_inv sent taken started waiting w" "list_all op_shape xs" "frames_run xs w = (sent', taken', w')"
  shows "\<exists>started' waiting'. wire_inv (sent @ sent') (taken @ taken') started' waiting' w'"
  using assms
proof (induction xs arbitrary: sent taken started waiting w sent' taken' w')
  case Nil
  then show ?case by auto
next
  case (Cons x xs)
  obtain s1 t1 w1 where st: "frames_step x w = (s1, t1, w1)" by (rule prod_cases3)
  obtain s2 t2 w2 where rn: "frames_run xs w1 = (s2, t2, w2)" by (rule prod_cases3)
  from Cons.prems st obtain started1 waiting1 where "wire_inv (sent @ s1) (taken @ t1) started1 waiting1 w1"
    using wire_inv_step[OF Cons.prems(1) _ st] by auto
  from Cons.IH[OF this _ rn] Cons.prems show ?case by (auto simp: st rn)
qed


definition frames_empty :: frames_state where
  "frames_empty = \<lparr>promises = [], switches = [], notifiers = [], holders = [], rpc = [], socket_events = [],
     publish_frames = [], retry_frames = [], frames_queue = [], low_prio_frames = [], expected_replies = [],
     poison = None, channels_poison = []\<rparr>"

text \<open>
  The application publishes on channel 1; the socket takes the method but refuses the header; a
  heartbeat is queued; the header and the body still go first.
\<close>

definition wire_example :: "frames_op list" where
  "wire_example = [OpPublish 1 [Method 1 (Basic (BasicPublish ''x'' ''k'' False False)),
      Header 1 \<lparr>header_class_id = 60, header_body_size = 1, header_properties = DefaultProperties\<rparr>, Body 1 [7]] 0,
    OpOffer True True, OpOffer True False, OpPush 0 Heartbeat 1 None None,
    OpOffer True True, OpOffer True True, OpOffer True True]"

lemmas frames_eval = push_frames_def check_poison_def pop_def retry_def push_def frame_entry_of_def
  frame_entry_new_def frame_sending_new_def frames_empty_def


section \<open>Nothing waits for a poisoned connection\<close>

definition sending_promises :: "frame_sending \<Rightarrow> nat set" where
  "sending_promises s = (case fs_resolver s of Some r \<Rightarrow> {r} | None \<Rightarrow> set_option (fs_canceler s))"

text \<open>A pending cancellation without a resolver is waited for by its reply only.\<close>

definition entry_promises :: "frame_entry \<Rightarrow> nat set" where
  "entry_promises x = (case fe_frame x of
     Method c (Basic (BasicCancel tag nowait)) \<Rightarrow> set_option (fs_resolver (fe_sending x))
   | _ \<Rightarrow> sending_promises (fe_sending x))"

definition reply_promise :: "expected_reply \<Rightarrow> nat" where
  "reply_promise x = (case reply_of x of ReplyBasicCancelOk p \<Rightarrow> p | _ \<Rightarrow> canceler_of x)"

lemma settles_sending_reject [intro]: "settles (sending_promises s) h (sending_reject s e h)"
  by (auto simp: sending_promises_def sending_reject_def split: option.split)

lemma settles_sending_resolve [intro]: "settles (set_option (fs_resolver s)) h (sending_resolve s h)"
  by (auto simp: sending_resolve_def split: option.split)

lemma settles_cancel_expected_reply [intro]: "settles {reply_promise x} h (cancel_expected_reply x e h)"
  by (cases x) (auto simp: cancel_expected_reply_def reply_promise_def split: reply.split)

lemma settles_cancel_expected_replies [intro]:
  "settles (reply_promise ` set xs) h (cancel_expected_replies xs e h)"
  using settles_fold[of xs "\<lambda>x. {reply_promise x}" "\<lambda>x. cancel_expected_reply x e" h]
  by (simp add: cancel_expected_replies_def settles_cancel_expected_reply UNION_singleton_eq_range)

lemma settles_drop_pending_frame: "settles (entry_promises x) h (drop_pending_frame e x h)"
proof (cases "\<exists>c tag nowait. fe_frame x = Method c (Basic (BasicCancel tag nowait))")
  case True
  then obtain c tag nowait where f: "fe_frame x = Method c (Basic (BasicCancel tag nowait))" by blast
  from settles_trans[OF settles_rpc_send settles_sending_resolve]
  show ?thesis by (simp add: f drop_pending_frame_def entry_promises_def)
next
  case False
  then show ?thesis
    by (auto simp: drop_pending_frame_def entry_promises_def entry_reject_def split: amqp_frame.splits amqp_class.splits basic_method.splits)
qed

lemma settles_drop_pending_frames:
  "settles (\<Union>x\<in>set xs. entry_promises x) h (drop_pending_frames e xs h)"
  unfolding drop_pending_frames_def by (rule settles_fold) (rule settles_drop_pending_frame)

lemma settles_clear_all:
  "settles (\<Union>(c, xs)\<in>set (expected_replies w). reply_promise ` set xs) w (clear_all_expected_replies e w)"
proof -
  have "settles {} w (w\<lparr>expected_replies := []\<rparr>)" by (simp add: settles_def)
  from settles_trans[OF this settles_fold[of "expected_replies w" "\<lambda>(c, xs). reply_promise ` set xs"
        "\<lambda>(c, xs). cancel_expected_replies xs e"]]
  show ?thesis by (auto simp: clear_all_expected_replies_def)
qed

lemma fold_frames_fields:
  assumes "\<And>x w. g (f x w) = g (w :: 'a frames_state_scheme)"
  shows "g (fold f xs w) = g w"
  by (induction xs arbitrary: w) (simp_all add: assms)

lemma drop_pending_frame_fields [simp]:
  "publish_frames (drop_pending_frame e x w) = publish_frames w"
  "retry_frames (drop_pending_frame e x w) = retry_frames w"
  "frames_queue (drop_pending_frame e x w) = frames_queue w"
  "low_prio_frames (drop_pending_frame e x w) = low_prio_frames w"
  "expected_replies (drop_pending_frame e x w) = expected_replies w"
  by (simp_all add: drop_pending_frame_def entry_reject_def sending_resolve_def
      split: amqp_frame.split amqp_class.split basic_method.split option.split)

lemma drop_pending_frames_fields [simp]:
  "publish_frames (drop_pending_frames e xs w) = publish_frames w"
  "retry_frames (drop_pending_frames e xs w) = retry_frames w"
  "frames_queue (drop_pending_frames e xs w) = frames_queue w"
  "low_prio_frames (drop_pending_frames e xs w) = low_prio_frames w"
  "expected_replies (drop_pending_frames e xs w) = expected_replies w"
  by (simp_all add: drop_pending_frames_def fold_frames_fields)

lemma cancel_expected_replies_fields [simp]:
  "publish_frames (cancel_expected_replies xs e w) = publish_frames w"
  "retry_frames (cancel_expected_replies xs e w) = retry_frames w"
  "frames_queue (cancel_expected_replies xs e w) = frames_queue w"
  "low_prio_frames (cancel_expected_replies xs e w) = low_prio_frames w"
  "expected_replies (cancel_expected_replies xs e w) = expected_replies w"
  "poison (cancel_expected_replies xs e w) = poison w"
  "channels_poison (cancel_expected_replies xs e w) = channels_poison w"
  by (simp_all add: cancel_expected_replies_def fold_frames_fields)

lemma clear_all_fields [simp]:
  "publish_frames (clear_all_expected_replies e w) = publish_frames w"
  "retry_frames (clear_all_expected_replies e w) = retry_frames w"
  "frames_queue (clear_all_expected_replies e w) = frames_queue w"
  "low_prio_frames (clear_all_expected_replies e w) = low_prio_frames w"
  "expected_replies (clear_all_expected_replies e w) = []"
  by (simp_all add: clear_all_expected_replies_def fold_frames_fields split_beta)

definition queued :: "'a frames_state_scheme \<Rightarrow> frame_entry set" where
  "queued w = set (retry_frames w) \<union> set (publish_frames w) \<union> set (frames_queue w) \<union> set (low_prio_frames w)"

definition awaited :: "'a frames_state_scheme \<Rightarrow> nat set" where
  "awaited w = (\<Union>x\<in>queued w. entry_promises x) \<union> (\<Union>(c, xs)\<in>set (expected_replies w). reply_promise ` set xs)"

lemma settles_drop_queue:
  assumes "\<And>w. promises (upd w) = promises w"
  shows "settles (\<Union>x\<in>set xs. entry_promises x) w (drop_pending_frames e xs (upd w))"
proof -
  have "settles {} w (upd w)" by (simp add: settles_def promise_get_def assms)
  from settles_trans[OF this settles_drop_pending_frames] show ?thesis by simp
qed

text \<open>
  C10: when the connection fails, every promise that someone waits for because of a queued frame or of
  an expected reply is completed, nothing stays queued or expected, completed promises keep their
  values, and every channel is poisoned from then on.
\<close>

theorem drop_pending_settles_all:
  "settles (awaited w) w (frames_drop_pending e w)
   \<and> \<not> has_pending (frames_drop_pending e w) \<and> expected_replies (frames_drop_pending e w) = []
   \<and> check_poison c (frames_drop_pending e w) \<noteq> None"
proof (intro conjI)
  define w1 where "w1 = drop_pending_frames e (retry_frames w) (w\<lparr>retry_frames := []\<rparr>)"
  define w2 where "w2 = drop_pending_frames e (publish_frames w1) (w1\<lparr>publish_frames := []\<rparr>)"
  define w3 where "w3 = drop_pending_frames e (frames_queue w2) (w2\<lparr>frames_queue := []\<rparr>)"
  define w4 where "w4 = drop_pending_frames e (low_prio_frames w3) (w3\<lparr>low_prio_frames := []\<rparr>)"
  define w5 where "w5 = clear_all_expected_replies e w4"
  note ws = w1_def w2_def w3_def w4_def w5_def
  have eq: "frames_drop_pending e w = w5\<lparr>poison := Some e\<rparr>"
    by (simp add: frames_drop_pending_def Let_def ws)
  have s: "settles (\<Union>x\<in>set (retry_frames w). entry_promises x) w w1"
    "settles (\<Union>x\<in>set (publish_frames w). entry_promises x) w1 w2"
    "settles (\<Union>x\<in>set (frames_queue w). entry_promises x) w2 w3"
    "settles (\<Union>x\<in>set (low_prio_frames w). entry_promises x) w3 w4"
    using settles_drop_queue[of "\<lambda>w. w\<lparr>retry_frames := []\<rparr>" "retry_frames w" w]
      settles_drop_queue[of "\<lambda>w. w\<lparr>publish_frames := []\<rparr>" "publish_frames w" w1]
      settles_drop_queue[of "\<lambda>w. w\<lparr>frames_queue := []\<rparr>" "frames_queue w" w2]
      settles_drop_queue[of "\<lambda>w. w\<lparr>low_prio_frames := []\<rparr>" "low_prio_frames w" w3]
    by (simp_all add: ws)
  have s5: "settles (\<Union>(c, xs)\<in>set (expected_replies w). reply_promise ` set xs) w4 w5"
    using settles_clear_all[of w4 e] by (simp add: ws)
  have s6: "settles {} w5 (w5\<lparr>poison := Some e\<rparr>)" by (simp add: settles_def)
  show "settles (awaited w) w (frames_drop_pending e w)"
    unfolding eq
    by (rule settles_mono[OF settles_trans[OF settles_trans[OF settles_trans[OF settles_trans[OF
              settles_trans[OF s(1) s(2)] s(3)] s(4)] s5] s6]])
      (auto simp: awaited_def queued_def)
  show "\<not> has_pending (frames_drop_pending e w)" "expected_replies (frames_drop_pending e w) = []"
    unfolding eq by (simp_all add: has_pending_def ws)
  show "check_poison c (frames_drop_pending e w) \<noteq> None"
    unfolding eq by (simp add: check_poison_def split: option.split)
qed

text \<open>
  A frame queued for a poisoned channel, or on a poisoned connection, is not queued and no reply is
  expected for it; the promises that wait for it and for its reply are completed at once.
\<close>

lemma poisoned_push_completes:
  assumes poisoned: "check_poison c w = Some e"
    and r: "promise_get r w = None" "r < length (promises w)"
  shows "settles (sending_promises (frame_sending_new (Some canceler) resolver) \<union> reply_promise ` set_option expected)
      w (push c f canceler expected resolver w)
    \<and> queued (push c f canceler expected resolver w) = queued w
    \<and> expected_replies (push c f canceler expected resolver w) = expected_replies w
    \<and> promise_get r (push_frames c fs r w) = Some (Inl e) \<and> queued (push_frames c fs r w) = queued w"
proof (intro conjI)
  define w1 where "w1 = (case expected of Some x \<Rightarrow> cancel_expected_reply x e w | None \<Rightarrow> w)"
  have p: "push c f canceler expected resolver w = sending_reject (frame_sending_new (Some canceler) resolver) e w1"
    using poisoned by (simp add: push_def Let_def w1_def)
  have "settles (reply_promise ` set_option expected) w w1"
    using settles_cancel_expected_reply by (auto simp: w1_def split: option.split)
  then show "settles (sending_promises (frame_sending_new (Some canceler) resolver)
      \<union> reply_promise ` set_option expected) w (push c f canceler expected resolver w)"
    unfolding p by (subst Un_commute) (rule settles_trans[OF _ settles_sending_reject])
  show "queued (push c f canceler expected resolver w) = queued w"
    "expected_replies (push c f canceler expected resolver w) = expected_replies w"
    by (simp_all add: p queued_def w1_def split: option.split)
  show "promise_get r (push_frames c fs r w) = Some (Inl e)" "queued (push_frames c fs r w) = queued w"
    using r poisoned by (simp_all add: push_frames_def queued_def promise_reject_def store_simps)
qed

lemma poisoned_push_completes_witness:
  "let w = poison_channel 1 (error_of FutureCompleted) (frames_empty\<lparr>promises := [None]\<rparr>)
   in promise_get 0 (push 1 Heartbeat 0 None None w) \<noteq> None \<and> queued (push 1 Heartbeat 0 None None w) = {}
    \<and> promise_get 0 (push_frames 1 [] 0 w) = Some (Inl (error_of FutureCompleted))"
proof -
  let ?w = "poison_channel 1 (error_of FutureCompleted) (frames_empty\<lparr>promises := [None]\<rparr>)"
  have p: "check_poison 1 ?w = Some (error_of FutureCompleted)"
    by (simp add: check_poison_def poison_channel_def frames_empty_def)
  have w: "promise_get 0 ?w = None" "0 < length (promises ?w)" "queued ?w = {}"
    by (simp_all add: poison_channel_def frames_empty_def promise_get_def queued_def)
  from poisoned_push_completes[OF p w(1,2), where canceler = 0 and resolver = None and expected = None
      and f = Heartbeat and fs = "[]"] w
  show ?thesis
    by (auto simp: Let_def sending_promises_def frame_sending_new_def dest: settlesD(1))
qed

section \<open>The steps of the handshake\<close>

lemma take_first_None: "take_first P xs = None \<longleftrightarrow> (\<forall>x\<in>set xs. \<not> P x)"
  by (induction xs) auto

lemma take_first_Some:
  "take_first P xs = Some (y, ys) \<Longrightarrow> \<exists>as bs. xs = as @ y # bs \<and> ys = as @ bs \<and> P y \<and> (\<forall>a\<in>set as. \<not> P a)"
proof (induction xs arbitrary: ys)
  case (Cons x xs)
  show ?case
  proof (cases "P x")
    case False
    with Cons.prems obtain zs where z: "take_first P xs = Some (y, zs)" "ys = x # zs" by auto
    from Cons.IH[OF z(1)] obtain as bs where "xs = as @ y # bs \<and> zs = as @ bs \<and> P y \<and> (\<forall>a\<in>set as. \<not> P a)"
      by blast
    with z False show ?thesis by (intro exI[of _ "x # as"] exI[of _ bs]) auto
  qed (use Cons.prems in \<open>auto intro: exI[of _ "[]"]\<close>)
qed simp

fun step_promises :: "expected_reply list \<Rightarrow> nat set" where
  "step_promises [] = {}"
| "step_promises (x # xs) =
    (case reply_of x of ReplyConnectionStep s \<Rightarrow> insert (into_connection_resolver s) (step_promises xs)
     | _ \<Rightarrow> step_promises xs)"

lemma step_promises_append: "step_promises (xs @ ys) = step_promises xs \<union> step_promises ys"
  by (induction xs) (auto split: reply.split)

lemma step_promises_none:
  "(\<forall>x\<in>set xs. \<not> is_connection_step (reply_of x)) \<Longrightarrow> step_promises xs = {}"
  by (induction xs) (auto split: reply.split)

lemma connection_resolver_cases:
  obtains (none) "connection_resolver c w = (None, w)" "\<forall>x\<in>set (replies_of c w). \<not> is_connection_step (reply_of x)"
  | (some) as x bs s where "replies_of c w = as @ x # bs" "reply_of x = ReplyConnectionStep s"
      "\<forall>a\<in>set as. \<not> is_connection_step (reply_of a)"
      "connection_resolver c w = (Some (into_connection_resolver s),
         w\<lparr>expected_replies := AList.update c (as @ bs) (expected_replies w)\<rparr>)"
proof (cases "take_first (\<lambda>x. is_connection_step (reply_of x)) (replies_of c w)")
  case None
  then have "connection_resolver c w = (None, w)"
    by (auto simp: connection_resolver_def find_connection_step_def find_expected_reply_def replies_of_def
        split: option.splits)
  moreover have "\<forall>x\<in>set (replies_of c w). \<not> is_connection_step (reply_of x)"
    using None by (simp add: take_first_None)
  ultimately show thesis by (rule none)
next
  case (Some z)
  then obtain x ys where t: "take_first (\<lambda>x. is_connection_step (reply_of x)) (replies_of c w) = Some (x, ys)"
    by (cases z) simp
  from take_first_Some[OF t] obtain as bs where ab: "replies_of c w = as @ x # bs" "ys = as @ bs"
    "is_connection_step (reply_of x)" "\<forall>a\<in>set as. \<not> is_connection_step (reply_of a)" by blast
  from ab(3) obtain s where s: "reply_of x = ReplyConnectionStep s" by (cases "reply_of x") auto
  from ab(1) t have m: "map_of (expected_replies w) c = Some (replies_of c w)"
    by (auto simp: replies_of_def split: option.splits)
  from ab s t m show thesis
    by (intro some[OF ab(1) s ab(4)])
      (simp add: connection_resolver_def find_connection_step_def find_expected_reply_def)
qed

lemma replies_of_update [simp]:
  "replies_of c (w\<lparr>expected_replies := AList.update d xs (expected_replies w)\<rparr>) = (if c = d then xs else replies_of c w)"
  by (simp add: replies_of_def update_conv')

lemma replies_of_promise_reject [simp]: "replies_of c (promise_reject p e w) = replies_of c w"
  by (simp add: replies_of_def)

text \<open>
  C23: clearing the handshake ends and leaves no step behind: the promise of every step of channel 0 is
  completed, the other replies keep their order, and no other channel is touched.
\<close>

theorem clear_connection_steps_rejects_all:
  "settles (step_promises (replies_of 0 w)) w (clear_connection_steps e w)
   \<and> replies_of c (clear_connection_steps e w) =
      (if c = 0 then filter (\<lambda>x. \<not> is_connection_step (reply_of x)) (replies_of 0 w) else replies_of c w)"
proof (induction e w rule: clear_connection_steps.induct)
  case (1 e w)
  show ?case
  proof (cases rule: connection_resolver_cases[of 0 w])
    case none
    then show ?thesis
      by (simp add: clear_connection_steps.simps[of e w] step_promises_none filter_id_conv[THEN iffD2])
  next
    case (some as x bs s)
    let ?w1 = "w\<lparr>expected_replies := AList.update 0 (as @ bs) (expected_replies w)\<rparr>"
    let ?w2 = "promise_reject (into_connection_resolver s) e ?w1"
    have c: "clear_connection_steps e w = clear_connection_steps e ?w2"
      by (subst clear_connection_steps.simps) (simp add: some(4))
    note ih = 1[OF some(4)[symmetric] refl]
    have "settles {into_connection_resolver s} w ?w2"
      using settles_trans[of "{}" w ?w1, OF _ settles_reject] by (simp add: settles_def)
    from settles_trans[OF this conjunct1[OF ih]]
    have "settles (step_promises (replies_of 0 w)) w (clear_connection_steps e w)"
      by (simp add: c some step_promises_append step_promises_none)
    moreover have "filter (\<lambda>x. \<not> is_connection_step (reply_of x)) as = as"
      using some(3) by simp
    ultimately show ?thesis using ih by (simp add: c some(1,2))
  qed
qed

section \<open>The protocol header after a reconnection\<close>

definition waiting_headers :: "'a frames_state_scheme \<Rightarrow> nat" where
  "waiting_headers w = length (filter (\<lambda>x. is_protocol_header (fe_frame x)) (retry_frames w @ frames_queue w))"

text \<open>
  Restarting the handshake leaves one protocol header in the queues of the socket, and it is
  the next frame out; when no handshake is waited for, nothing changes.
\<close>

lemma retry_connection_header_once:
  assumes "retry_connection_header w = (restarted, w')"
  shows "if restarted
    then waiting_headers w' = 1 \<and> (\<exists>x w''. pop flow w' = (Some x, w'') \<and> fe_frame x = ProtocolHeader amqp_0_9_1
      \<and> filter (\<lambda>x. \<not> is_protocol_header (fe_frame x)) (retry_frames w) = retry_frames w'')
      \<and> expected_replies w' = expected_replies w
    else w' = w"
  using assms
  by (auto simp: retry_connection_header_def waiting_headers_def pop_def frame_entry_new_def split: option.splits)

lemma retry_connection_header_once_witness:
  "let c = \<lparr>conn_client_properties = [], conn_locale = ''en_US'', conn_auth_provider =
        \<lparr>auth_mechanism = ''PLAIN'', auth_starter = Inr ''x'', auth_continue = Inr\<rparr>\<rparr>;
       w = frames_empty\<lparr>expected_replies := [(0, [ExpectedReply (ReplyConnectionStep (StepProtocolHeader 0 c)) 0])],
         frames_queue := [frame_entry_new (ProtocolHeader amqp_0_9_1) (frame_sending_new (Some 0) None)]\<rparr>
   in fst (retry_connection_header w) \<and> waiting_headers (snd (retry_connection_header w)) = 1"
  using retry_connection_header_once[of "frames_empty\<lparr>expected_replies := [(0, [ExpectedReply (ReplyConnectionStep
     (StepProtocolHeader 0 \<lparr>conn_client_properties = [], conn_locale = ''en_US'', conn_auth_provider =
        \<lparr>auth_mechanism = ''PLAIN'', auth_starter = Inr ''x'', auth_continue = Inr\<rparr>\<rparr>)) 0])],
         frames_queue := [frame_entry_new (ProtocolHeader amqp_0_9_1) (frame_sending_new (Some 0) None)]\<rparr>" True]
  by (simp add: Let_def retry_connection_header_def frames_empty_def split_beta)

end
