(* ===== verification/Receiver.thy ===== *)
theory Receiver
  imports Messages
begin

text \<open>
  Model of \<^verbatim>\<open>src/channel_receiver_state.rs\<close>: which content a channel waits for.  The handlers that the
  channel passes are arguments; they work on the rest of the state, which the queue of receiver
  states is not part of.
\<close>

datatype delivery_cause = CauseConsume short_string | CauseGet | CauseReturn

datatype receiver_state =
    WillReceiveContent "16 word" delivery_cause
  | ReceivingContent delivery_cause payload_size

type_synonym receiver_states = "receiver_state list"

definition recv_reset :: "receiver_states \<Rightarrow> receiver_states" where
  "recv_reset q = []"

definition recv_set_will_receive :: "16 word \<Rightarrow> delivery_cause \<Rightarrow> receiver_states \<Rightarrow> receiver_states" where
  "recv_set_will_receive class_id cause q = q @ [WillReceiveContent class_id cause]"

definition recv_set_content_length ::
  "channel_id \<Rightarrow> 16 word \<Rightarrow> payload_size \<Rightarrow> (delivery_cause \<Rightarrow> bool \<Rightarrow> 'w \<Rightarrow> 'w)
    \<Rightarrow> (string \<Rightarrow> 'w \<Rightarrow> (error + unit) \<times> 'w) \<Rightarrow> (string \<Rightarrow> 'w \<Rightarrow> (error + unit) \<times> 'w) \<Rightarrow> bool
    \<Rightarrow> receiver_states \<Rightarrow> 'w \<Rightarrow> (error + unit) \<times> receiver_states \<times> 'w" where
  "recv_set_content_length c class_id len handler invalid_class_handler error_handler confirm_mode q w =
    (case q of
       WillReceiveContent expected cause # q' \<Rightarrow>
         if expected = class_id
         then (Inr (), if 0 < len then ReceivingContent cause len # q' else q', handler cause confirm_mode w)
         else let (r, w') = invalid_class_handler
                (''content header frame with class id '' @ show_word class_id @ '' instead of ''
                  @ show_word expected @ '' received on channel '' @ show_word c) w
              in (r, q', w')
     | _ \<Rightarrow>
         let (r, w') = error_handler (''unexpected content header frame received on channel '' @ show_word c) w
         in (r, tl q, w'))"

definition recv_receive ::
  "channel_id \<Rightarrow> payload_size \<Rightarrow> (delivery_cause \<Rightarrow> payload_size \<Rightarrow> bool \<Rightarrow> 'w \<Rightarrow> 'w)
    \<Rightarrow> (string \<Rightarrow> 'w \<Rightarrow> (error + unit) \<times> 'w) \<Rightarrow> bool
    \<Rightarrow> receiver_states \<Rightarrow> 'w \<Rightarrow> (error + unit) \<times> receiver_states \<times> 'w" where
  "recv_receive c len_in handler error_handler confirm_mode q w =
    (case q of
       ReceivingContent cause len # q' \<Rightarrow>
         if len_in \<le> len
         then let remaining = len - len_in
              in (Inr (), if 0 < remaining then ReceivingContent cause remaining # q' else q',
                  handler cause remaining confirm_mode w)
         else let (r, w') = error_handler
                (''unexpectedly large content body frame received on channel '' @ show_word c @ '' (''
                  @ show_word len_in @ '' bytes, expected '' @ show_word len @ '' bytes)'') w
              in (r, q', w')
     | _ \<Rightarrow>
         let (r, w') = error_handler (''unexpected content body frame received on channel '' @ show_word c) w
         in (r, tl q, w'))"

section \<open>Sinks of content\<close>

text \<open>
  Consumers, \<^verbatim>\<open>basic.get\<close> and returned messages collect the content of a message in the same way.  The
  contract: a sink with a message under way takes its properties and the parts of its body, and is
  finished by the header of an empty body or by the part that leaves nothing.
\<close>

text \<open>The body frames of one content, received one after the other, with what each call returned.\<close>

fun receive_all ::
  "channel_id \<Rightarrow> (payload_size \<Rightarrow> byte list \<Rightarrow> 's \<Rightarrow> 's) \<Rightarrow> (string \<Rightarrow> 's \<Rightarrow> (error + unit) \<times> 's)
    \<Rightarrow> byte list list \<Rightarrow> receiver_states \<Rightarrow> 's \<Rightarrow> (error + unit) list \<times> receiver_states \<times> 's" where
  "receive_all c body err [] q s = ([], q, s)"
| "receive_all c body err (b # bs) q s =
    (let (r, q', s') = recv_receive c (of_nat (length b)) (\<lambda>_ n _. body n b) err False q s;
         (rs, q'', s'') = receive_all c body err bs q' s'
     in (r # rs, q'', s''))"

lemma recv_receive_part:
  assumes "length b \<le> unat n"
  shows "recv_receive c (of_nat (length b)) handler err cm (ReceivingContent cause n # q) s =
    (Inr (), if length b < unat n then ReceivingContent cause (n - of_nat (length b)) # q else q,
     handler cause (n - of_nat (length b)) cm s)"
    and "unat (n - of_nat (length b)) = unat n - length b"
proof -
  have u: "unat (of_nat (length b) :: payload_size) = length b"
    using assms unsigned_less[of n, where ?'a = nat] by (simp add: unat_of_nat take_bit_nat_eq_self)
  then have le: "of_nat (length b) \<le> n" using assms by (simp add: word_le_nat_alt)
  then show e: "unat (n - of_nat (length b)) = unat n - length b" by (simp add: unat_sub u)
  then have "0 < n - of_nat (length b) \<longleftrightarrow> length b < unat n" by (simp add: word_less_nat_alt)
  with le show "recv_receive c (of_nat (length b)) handler err cm (ReceivingContent cause n # q) s =
    (Inr (), if length b < unat n then ReceivingContent cause (n - of_nat (length b)) # q else q,
     handler cause (n - of_nat (length b)) cm s)"
    by (simp add: recv_receive_def Let_def)
qed

definition receive_message ::
  "channel_id \<Rightarrow> 16 word \<Rightarrow> payload_size \<Rightarrow> basic_properties \<Rightarrow> byte list list
    \<Rightarrow> (payload_size \<Rightarrow> basic_properties \<Rightarrow> 's \<Rightarrow> 's) \<Rightarrow> (payload_size \<Rightarrow> byte list \<Rightarrow> 's \<Rightarrow> 's)
    \<Rightarrow> (string \<Rightarrow> 's \<Rightarrow> (error + unit) \<times> 's) \<Rightarrow> receiver_states \<Rightarrow> 's
    \<Rightarrow> (error + unit) list \<times> receiver_states \<times> 's" where
  "receive_message c class_id n props bs header body err q s =
    (let (r, q', s') = recv_set_content_length c class_id n (\<lambda>_ _. header n props) err err False q s;
         (rs, q'', s'') = receive_all c body err bs q' s'
     in (r # rs, q'', s''))"

locale content_sink =
  fixes pending :: "'s \<Rightarrow> 'm option"
    and finished :: "'s \<Rightarrow> 'm list"
    and header :: "payload_size \<Rightarrow> basic_properties \<Rightarrow> 's \<Rightarrow> 's"
    and body :: "payload_size \<Rightarrow> byte list \<Rightarrow> 's \<Rightarrow> 's"
    and set_properties :: "basic_properties \<Rightarrow> 'm \<Rightarrow> 'm"
    and add_content :: "byte list \<Rightarrow> 'm \<Rightarrow> 'm"
  assumes header_step:
    "pending s = Some m \<Longrightarrow>
      (if n = 0 then pending (header n p s) = None \<and> finished (header n p s) = finished s @ [set_properties p m]
       else pending (header n p s) = Some (set_properties p m) \<and> finished (header n p s) = finished s)"
    and body_step:
    "pending s = Some m \<Longrightarrow>
      (if n = 0 then pending (body n xs s) = None \<and> finished (body n xs s) = finished s @ [add_content xs m]
       else pending (body n xs s) = Some (add_content xs m) \<and> finished (body n xs s) = finished s)"
    and add_content_Nil: "add_content [] m = m"
    and add_content_append: "add_content ys (add_content xs m) = add_content (xs @ ys) m"
begin

lemma receive_all_assembles:
  assumes "pending s = Some m" "b \<noteq> []" "sum_list (map length (bs @ [b])) = unat n"
  shows "\<exists>s'. receive_all c body err (bs @ [b]) (ReceivingContent cause n # q) s
      = (replicate (Suc (length bs)) (Inr ()), q, s')
    \<and> pending s' = None \<and> finished s' = finished s @ [add_content (concat (bs @ [b])) m]"
  using assms
proof (induction bs arbitrary: s m n)
  case Nil
  then have n: "length b = unat n" "n - of_nat (length b) = 0" by auto
  then show ?case
    using body_step[OF Nil.prems(1), of 0 b]
      recv_receive_part(1)[of b n c "\<lambda>_ n _. body n b" err False cause q s] by simp
next
  case (Cons x xs)
  let ?m = "n - of_nat (length x)"
  have lt: "length x < unat n" using Cons.prems(2,3) by (cases b) auto
  note part = recv_receive_part[OF less_imp_le[OF lt]]
  have m: "unat ?m = unat n - length x" by (rule part(2))
  then have "?m \<noteq> 0" using lt by (metis diff_is_0_eq not_less unsigned_0)
  then have st: "pending (body ?m x s) = Some (add_content x m)" "finished (body ?m x s) = finished s"
    using body_step[OF Cons.prems(1), of ?m x] by simp_all
  have "sum_list (map length (xs @ [b])) = unat ?m" using Cons.prems(3) m by simp
  from Cons.IH[OF st(1) Cons.prems(2) this] show ?case
    using lt by (auto simp: part(1) st(2) Let_def add_content_append)
qed

lemma message_assembled:
  assumes m: "pending s = Some m" and n: "sum_list (map length bs) = unat n" and bs: "bs = [] \<or> last bs \<noteq> []"
  shows "\<exists>s'. receive_message c class_id n p bs header body err (WillReceiveContent class_id cause # q) s
      = (replicate (Suc (length bs)) (Inr ()), q, s')
    \<and> pending s' = None \<and> finished s' = finished s @ [add_content (concat bs) (set_properties p m)]"
proof (cases "n = 0")
  case True
  with n bs have "bs = []" by (cases bs rule: rev_cases) auto
  with True header_step[OF m, of 0 p] show ?thesis
    by (simp add: receive_message_def recv_set_content_length_def add_content_Nil)
next
  case False
  with unat_pos[of n] n bs obtain xs b where xs: "bs = xs @ [b]" "b \<noteq> []"
    by (cases bs rule: rev_cases) auto
  from False header_step[OF m, of n p]
  have h: "pending (header n p s) = Some (set_properties p m)" "finished (header n p s) = finished s" by auto
  from receive_all_assembles[OF h(1) xs(2) n[unfolded xs(1)], of c err cause q] False h(2) xs show ?thesis
    by (auto simp: receive_message_def recv_set_content_length_def word_greater_zero_iff)
qed

end

end
