(* ===== verification/Channel_Status.thy ===== *)
theory Channel_Status
  imports Receiver Topology Frames_Model
begin

text \<open>
  Model of \<^verbatim>\<open>src/channel_status.rs\<close> and \<^verbatim>\<open>src/channel_recovery_context.rs\<close>: the state of a channel, what it
  receives, its kill switch, and what is kept of it while the connection is recovered.  The status is
  a value; the cells and the command queue it uses are in the store.
\<close>

section \<open>The recovery context\<close>

record recovery_context =
  rc_cause :: error
  rc_topology :: channel_definition
  rc_expected_replies :: "expected_reply list option"
  rc_notifier :: nat

definition recovery_context_new ::
  "error \<Rightarrow> channel_definition \<Rightarrow> 'a heap_scheme \<Rightarrow> recovery_context \<times> 'a heap_scheme" where
  "recovery_context_new cause topology h =
    (let (n, h') = notifier_new h
     in (\<lparr>rc_cause = with_notifier (Some n) cause, rc_topology = topology, rc_expected_replies = None,
          rc_notifier = n\<rparr>, h'))"

definition set_expected_replies :: "expected_reply list option \<Rightarrow> recovery_context \<Rightarrow> recovery_context" where
  "set_expected_replies xs ctx = ctx\<lparr>rc_expected_replies := xs\<rparr>"

definition finalize_recovery :: "recovery_context \<Rightarrow> 'a heap_scheme \<Rightarrow> 'a heap_scheme" where
  "finalize_recovery ctx h =
    (let h1 = notify_all (rc_notifier ctx) h
     in (case rc_expected_replies ctx of
           Some xs \<Rightarrow> cancel_expected_replies xs (rc_cause ctx) h1
         | None \<Rightarrow> h1))"

section \<open>The status\<close>

record channel_status =
  st_id :: channel_id
  st_confirm :: bool
  st_send_flow :: bool
  st_state :: channel_state
  st_receiver_state :: receiver_states
  st_recovery_context :: "recovery_context option"
  st_killswitch :: nat

definition update_rpc_status :: "channel_status \<Rightarrow> 'a heap_scheme \<Rightarrow> 'a heap_scheme" where
  "update_rpc_status s = rpc_send (CmdSetChannelStatus (st_id s) (st_killswitch s))"

definition channel_status_new :: "channel_id \<Rightarrow> 'a heap_scheme \<Rightarrow> channel_status \<times> 'a heap_scheme" where
  "channel_status_new cid h =
    (let (k, h') = switch_new h;
         s = \<lparr>st_id = cid, st_confirm = False, st_send_flow = True, st_state = ChInitial,
              st_receiver_state = [], st_recovery_context = None, st_killswitch = k\<rparr>
     in (s, update_rpc_status s h'))"

definition st_initializing :: "channel_status \<Rightarrow> bool" where
  "st_initializing s = (st_state s \<in> {ChInitial, ChReconnecting})"

definition st_closing :: "channel_status \<Rightarrow> bool" where
  "st_closing s = (st_state s \<in> {ChClosing, ChReconnecting})"

definition st_connected :: "channel_status \<Rightarrow> bool" where
  "st_connected s = (st_state s = ChConnected)"

definition st_reconnecting :: "channel_status \<Rightarrow> bool" where
  "st_reconnecting s = (st_state s = ChReconnecting)"

definition connected_or_recovering :: "channel_status \<Rightarrow> bool" where
  "connected_or_recovering s = (st_state s \<in> {ChConnected, ChReconnecting})"

definition can_receive_messages :: "channel_status \<Rightarrow> bool" where
  "can_receive_messages s = (st_state s \<in> {ChClosing, ChConnected, ChReconnecting})"

definition update_recovery_context ::
  "(recovery_context \<Rightarrow> 'r \<times> recovery_context) \<Rightarrow> channel_status \<Rightarrow> 'r option \<times> channel_status" where
  "update_recovery_context apply_fun s =
    (case st_recovery_context s of
       None \<Rightarrow> (None, s)
     | Some ctx \<Rightarrow> let (r, ctx') = apply_fun ctx in (Some r, s\<lparr>st_recovery_context := Some ctx'\<rparr>))"

definition finalize_connection :: "channel_status \<Rightarrow> 'a heap_scheme \<Rightarrow> channel_status \<times> 'a heap_scheme" where
  "finalize_connection s h =
    (let s1 = s\<lparr>st_state := ChConnected\<rparr>;
         h1 = update_rpc_status s1 h
     in (case st_recovery_context s1 of
           Some ctx \<Rightarrow> (s1\<lparr>st_recovery_context := None\<rparr>, finalize_recovery ctx h1)
         | None \<Rightarrow> (s1, h1)))"

definition set_confirm :: "channel_status \<Rightarrow> 'a heap_scheme \<Rightarrow> channel_status \<times> 'a heap_scheme" where
  "set_confirm s h = finalize_connection (s\<lparr>st_confirm := True\<rparr>) h"

definition set_state :: "channel_state \<Rightarrow> channel_status \<Rightarrow> channel_status" where
  "set_state x s = s\<lparr>st_state := x\<rparr>"

definition st_notifier :: "channel_status \<Rightarrow> nat option" where
  "st_notifier s = map_option rc_notifier (st_recovery_context s)"

definition state_error :: "string \<Rightarrow> channel_status \<Rightarrow> error" where
  "state_error context_text s =
    (let e = error_of (InvalidChannelState (st_state s) context_text)
     in if st_state s = ChReconnecting then with_notifier (st_notifier s) e else e)"

definition set_reconnecting ::
  "error \<Rightarrow> channel_definition \<Rightarrow> channel_status \<Rightarrow> 'a heap_scheme \<Rightarrow> error \<times> channel_status \<times> 'a heap_scheme" where
  "set_reconnecting e topology s h =
    (let (k, h1) = switch_new h;
         (_, h2) = switch_kill (st_killswitch s) h1;
         s1 = s\<lparr>st_state := ChReconnecting, st_killswitch := k,
                st_receiver_state := recv_reset (st_receiver_state s)\<rparr>
     in (case st_recovery_context s1 of
           Some ctx \<Rightarrow> (rc_cause ctx, s1, h2)
         | None \<Rightarrow>
             let (ctx, h3) = recovery_context_new e topology h2
             in (rc_cause ctx, s1\<lparr>st_recovery_context := Some ctx\<rparr>, h3)))"

definition auto_close :: "channel_id \<Rightarrow> channel_status \<Rightarrow> bool" where
  "auto_close cid s = (cid \<noteq> 0 \<and> st_connected s)"

definition set_will_receive :: "16 word \<Rightarrow> delivery_cause \<Rightarrow> channel_status \<Rightarrow> nat \<times> channel_status" where
  "set_will_receive class_id cause s =
    (st_killswitch s, s\<lparr>st_receiver_state := recv_set_will_receive class_id cause (st_receiver_state s)\<rparr>)"

definition set_content_length ::
  "channel_id \<Rightarrow> 16 word \<Rightarrow> payload_size \<Rightarrow> (delivery_cause \<Rightarrow> bool \<Rightarrow> 'w \<Rightarrow> 'w)
    \<Rightarrow> (string \<Rightarrow> 'w \<Rightarrow> (error + unit) \<times> 'w) \<Rightarrow> (string \<Rightarrow> 'w \<Rightarrow> (error + unit) \<times> 'w)
    \<Rightarrow> channel_status \<Rightarrow> 'w \<Rightarrow> (error + unit) \<times> channel_status \<times> 'w" where
  "set_content_length c class_id len handler invalid_class_handler error_handler s w =
    (let (r, q, w') = recv_set_content_length c class_id len handler invalid_class_handler error_handler
           (st_confirm s) (st_receiver_state s) w
     in (r, s\<lparr>st_receiver_state := q\<rparr>, w'))"

definition st_receive ::
  "channel_id \<Rightarrow> payload_size \<Rightarrow> (delivery_cause \<Rightarrow> payload_size \<Rightarrow> bool \<Rightarrow> 'w \<Rightarrow> 'w)
    \<Rightarrow> (string \<Rightarrow> 'w \<Rightarrow> (error + unit) \<times> 'w)
    \<Rightarrow> channel_status \<Rightarrow> 'w \<Rightarrow> (error + unit) \<times> channel_status \<times> 'w" where
  "st_receive c len handler error_handler s w =
    (let (r, q, w') = recv_receive c len handler error_handler (st_confirm s) (st_receiver_state s) w
     in (r, s\<lparr>st_receiver_state := q\<rparr>, w'))"

definition set_send_flow :: "bool \<Rightarrow> channel_status \<Rightarrow> channel_status" where
  "set_send_flow flow s = s\<lparr>st_send_flow := flow\<rparr>"

section \<open>Reconnections\<close>

lemma switch_new_frames [simp]:
  "killed k (snd (switch_new h)) = killed k h"
  "fst (switch_new h) = length (switches h)"
  by (simp_all add: switch_new_def killed_def nth_append)

lemma killed_notifier_new [simp]: "killed k (snd (notifier_new h)) = killed k h"
  by (simp add: notifier_new_def killed_def)

lemma killed_swap:
  assumes "switches h' = (switches h @ [False])[j := True]"
  shows "killed k h' \<longleftrightarrow> killed k h \<or> (k = j \<and> k \<le> length (switches h))"
proof (cases "k = j")
  case True
  have "k < length (switches h @ [False]) \<longleftrightarrow> k \<le> length (switches h)" by auto
  then show ?thesis using assms True by (auto simp: killed_def)
next
  case False
  then show ?thesis using assms by (auto simp: killed_def nth_append less_Suc_eq)
qed

lemma set_reconnecting_effect:
  assumes "set_reconnecting e topology s h = (cause, s', h')"
  shows "st_state s' = ChReconnecting" "st_receiver_state s' = []"
    "st_killswitch s' = length (switches h)" "st_confirm s' = st_confirm s"
    "switches h' = (switches h @ [False])[st_killswitch s := True]"
    "\<exists>ctx. st_recovery_context s' = Some ctx \<and> cause = rc_cause ctx
      \<and> (case st_recovery_context s of Some ctx' \<Rightarrow> ctx = ctx'
         | None \<Rightarrow> rc_topology ctx = topology \<and> kind cause = kind e \<and> notifier cause = Some (rc_notifier ctx))"
  using assms
  by (auto simp: set_reconnecting_def recovery_context_new_def switch_new_def switch_kill_def
      recv_reset_def notifier_new_def with_notifier_def Let_def split: option.splits)



end
