(* ===== verification/Consumers_Model.thy ===== *)
theory Consumers_Model
  imports Channel_Status Confirms
begin

text \<open>
  Model of \<^verbatim>\<open>src/consumer.rs\<close>, \<^verbatim>\<open>src/consumer_status.rs\<close>, \<^verbatim>\<open>src/consumers.rs\<close>, \<^verbatim>\<open>src/consumer_canceler.rs\<close> and
  \<^verbatim>\<open>src/basic_get_delivery.rs\<close>.  The clones of a consumer share its state, so a consumer is an index into the
  store of consumers; a consumer delegate is the index of the application's callbacks.  The channel
  that carries deliveries to the stream is a queue.
\<close>

section \<open>Consumers\<close>

datatype consumer_state = Active | ActiveWithDelegate | Canceling | Canceled

fun is_active :: "consumer_state \<Rightarrow> bool" where
  "is_active Active = True"
| "is_active ActiveWithDelegate = True"
| "is_active _ = False"

record consumer_status =
  cs_state :: consumer_state
  cs_delegate :: "nat option"

definition consumer_status_default :: consumer_status where
  "consumer_status_default = \<lparr>cs_state = Active, cs_delegate = None\<rparr>"

definition cs_set_delegate :: "nat option \<Rightarrow> consumer_status \<Rightarrow> consumer_status" where
  "cs_set_delegate d s =
    (if is_active (cs_state s) then s\<lparr>cs_state := ActiveWithDelegate, cs_delegate := d\<rparr> else s)"

definition cs_start_cancel :: "consumer_status \<Rightarrow> consumer_status" where
  "cs_start_cancel s = s\<lparr>cs_state := Canceling, cs_delegate := None\<rparr>"

definition cs_cancel :: "consumer_status \<Rightarrow> consumer_status" where
  "cs_cancel s = s\<lparr>cs_state := Canceled, cs_delegate := None\<rparr>"

record consumer =
  con_tag :: short_string
  con_current_message :: "delivery option"
  con_deliveries :: "delivery_result list"
  con_status :: consumer_status
  con_queue :: short_string
  con_options :: basic_consume_options
  con_arguments :: field_table
  con_error :: nat

record consumers_state = frames_state +
  consumer_objs :: "consumer list"

definition consumer_new ::
  "short_string \<Rightarrow> short_string \<Rightarrow> basic_consume_options \<Rightarrow> field_table
    \<Rightarrow> 'a consumers_state_scheme \<Rightarrow> nat \<times> 'a consumers_state_scheme" where
  "consumer_new tag queue_name opts args w =
    (let (e, w1) = holder_new w
     in (length (consumer_objs w1),
         w1\<lparr>consumer_objs := consumer_objs w1 @
           [\<lparr>con_tag = tag, con_current_message = None, con_deliveries = [],
             con_status = consumer_status_default, con_queue = queue_name, con_options = opts,
             con_arguments = args, con_error = e\<rparr>]\<rparr>))"

definition update_consumer ::
  "nat \<Rightarrow> (consumer \<Rightarrow> consumer) \<Rightarrow> 'a consumers_state_scheme \<Rightarrow> 'a consumers_state_scheme" where
  "update_consumer i f w =
    (if i < length (consumer_objs w)
     then w\<lparr>consumer_objs := (consumer_objs w)[i := f (consumer_objs w ! i)]\<rparr> else w)"

definition spawn_infallible :: "internal_future \<Rightarrow> 'a heap_scheme \<Rightarrow> 'a heap_scheme" where
  "spawn_infallible f = rpc_spawn f"

definition dispatch ::
  "nat \<Rightarrow> delivery_result \<Rightarrow> nat option \<Rightarrow> 'a consumers_state_scheme \<Rightarrow> 'a consumers_state_scheme" where
  "dispatch i d delegate w =
    (case delegate of
       Some g \<Rightarrow> spawn_infallible (FutDelegateDelivery g d) w
     | None \<Rightarrow> update_consumer i (\<lambda>c. c\<lparr>con_deliveries := con_deliveries c @ [d]\<rparr>) w)"

text \<open>The fields of a consumer that exists; an index always comes from \<^const>\<open>consumer_new\<close>.\<close>

definition consumer_at :: "nat \<Rightarrow> 'a consumers_state_scheme \<Rightarrow> consumer" where
  "consumer_at i w = consumer_objs w ! i"

definition consumer_delegate :: "nat \<Rightarrow> 'a consumers_state_scheme \<Rightarrow> nat option" where
  "consumer_delegate i w = (if i < length (consumer_objs w) then cs_delegate (con_status (consumer_at i w)) else None)"

definition consumer_set_delegate :: "nat \<Rightarrow> nat \<Rightarrow> 'a consumers_state_scheme \<Rightarrow> 'a consumers_state_scheme" where
  "consumer_set_delegate i g w =
    (let w1 = fold (\<lambda>d. spawn_infallible (FutDelegateDelivery g d)) (con_deliveries (consumer_at i w)) w
     in update_consumer i (\<lambda>c. c\<lparr>con_deliveries := [], con_status := cs_set_delegate (Some g) (con_status c)\<rparr>) w1)"

definition invalidate_delivery :: "delivery_result \<Rightarrow> 'a heap_scheme \<Rightarrow> 'a heap_scheme" where
  "invalidate_delivery d h = (case d of Inr (Some m) \<Rightarrow> invalidate (delivery_acker m) h | _ \<Rightarrow> h)"

definition drop_prefetched_messages :: "nat \<Rightarrow> 'a consumers_state_scheme \<Rightarrow> 'a consumers_state_scheme" where
  "drop_prefetched_messages i w =
    (let w1 = (case consumer_delegate i w of
                 Some g \<Rightarrow> spawn_infallible (FutDelegateDropPrefetched g) w
               | None \<Rightarrow> w);
         w2 = fold invalidate_delivery (con_deliveries (consumer_at i w1)) w1
     in update_consumer i (\<lambda>c. c\<lparr>con_deliveries := []\<rparr>) w2)"

definition consumer_reset :: "nat \<Rightarrow> 'a consumers_state_scheme \<Rightarrow> 'a consumers_state_scheme" where
  "consumer_reset i w =
    (let w1 = (if \<not> consume_no_ack (con_options (consumer_at i w)) then drop_prefetched_messages i w else w)
     in update_consumer i (\<lambda>c. c\<lparr>con_current_message := None\<rparr>) w1)"

definition start_new_delivery :: "nat \<Rightarrow> delivery \<Rightarrow> 'a consumers_state_scheme \<Rightarrow> 'a consumers_state_scheme" where
  "start_new_delivery i d = update_consumer i (\<lambda>c. c\<lparr>con_current_message := Some d\<rparr>)"

definition check_new_delivery ::
  "nat \<Rightarrow> delivery option \<Rightarrow> 'a consumers_state_scheme \<Rightarrow> 'a consumers_state_scheme" where
  "check_new_delivery i d w =
    (case d of Some m \<Rightarrow> dispatch i (Inr (Some m)) (consumer_delegate i w) w | None \<Rightarrow> w)"

definition check_new_delivery_complete :: "bool \<Rightarrow> consumer \<Rightarrow> delivery option \<times> consumer" where
  "check_new_delivery_complete complete c =
    (if \<not> complete then (None, c) else (con_current_message c, c\<lparr>con_current_message := None\<rparr>))"

definition consumer_content_header ::
  "payload_size \<Rightarrow> basic_properties \<Rightarrow> consumer \<Rightarrow> delivery option \<times> consumer" where
  "consumer_content_header n props c =
    check_new_delivery_complete (n = 0)
      (c\<lparr>con_current_message := map_option (\<lambda>d. d\<lparr>delivery_properties := props\<rparr>) (con_current_message c)\<rparr>)"

definition consumer_body :: "payload_size \<Rightarrow> byte list \<Rightarrow> consumer \<Rightarrow> delivery option \<times> consumer" where
  "consumer_body remaining payload c =
    check_new_delivery_complete (remaining = 0)
      (c\<lparr>con_current_message := map_option (receive_content payload) (con_current_message c)\<rparr>)"

definition consumer_handle_content_header_frame ::
  "nat \<Rightarrow> payload_size \<Rightarrow> basic_properties \<Rightarrow> 'a consumers_state_scheme \<Rightarrow> 'a consumers_state_scheme" where
  "consumer_handle_content_header_frame i n props w =
    (let (d, c) = consumer_content_header n props (consumer_at i w)
     in check_new_delivery i d (update_consumer i (\<lambda>_. c) w))"

definition consumer_handle_body_frame ::
  "nat \<Rightarrow> payload_size \<Rightarrow> byte list \<Rightarrow> 'a consumers_state_scheme \<Rightarrow> 'a consumers_state_scheme" where
  "consumer_handle_body_frame i remaining payload w =
    (let (d, c) = consumer_body remaining payload (consumer_at i w)
     in check_new_delivery i d (update_consumer i (\<lambda>_. c) w))"

definition start_cancel :: "nat \<Rightarrow> 'a consumers_state_scheme \<Rightarrow> 'a consumers_state_scheme" where
  "start_cancel i = update_consumer i (\<lambda>c. c\<lparr>con_status := cs_start_cancel (con_status c)\<rparr>)"

definition consumer_cancel :: "nat \<Rightarrow> 'a consumers_state_scheme \<Rightarrow> 'a consumers_state_scheme" where
  "consumer_cancel i w =
    update_consumer i (\<lambda>c. c\<lparr>con_status := cs_cancel (con_status c)\<rparr>)
      (dispatch i (Inr None) (consumer_delegate i w) w)"

definition consumer_send_error :: "nat \<Rightarrow> error \<Rightarrow> 'a consumers_state_scheme \<Rightarrow> 'a consumers_state_scheme" where
  "consumer_send_error i e w = dispatch i (Inl e) (consumer_delegate i w) w"

definition consumer_set_error :: "nat \<Rightarrow> error \<Rightarrow> 'a consumers_state_scheme \<Rightarrow> 'a consumers_state_scheme" where
  "consumer_set_error i e w =
    (let w1 = snd (holder_set (con_error (consumer_at i w)) e w)
     in consumer_cancel i (consumer_send_error i e w1))"

text \<open>An item of the stream: a delivery or an error, or the end.\<close>

datatype stream_poll = StreamPending | StreamItem "error + delivery" | StreamEnd

definition poll_next :: "nat \<Rightarrow> 'a consumers_state_scheme \<Rightarrow> stream_poll \<times> 'a consumers_state_scheme" where
  "poll_next i w =
    (case con_deliveries (consumer_at i w) of
       [] \<Rightarrow> (StreamPending, w)
     | d # ds \<Rightarrow>
         (case d of Inr (Some m) \<Rightarrow> StreamItem (Inr m) | Inr None \<Rightarrow> StreamEnd | Inl e \<Rightarrow> StreamItem (Inl e),
          update_consumer i (\<lambda>c. c\<lparr>con_deliveries := ds\<rparr>) w))"

text \<open>Dropping the handle that the application holds.\<close>

definition consumer_canceler_drop ::
  "channel_id \<Rightarrow> nat \<Rightarrow> 'a consumers_state_scheme \<Rightarrow> 'a consumers_state_scheme" where
  "consumer_canceler_drop c i w =
    (if cs_state (con_status (consumer_at i w)) = Active
     then rpc_send (CmdCancelConsumer c (con_tag (consumer_at i w)) i) w else w)"

section \<open>The consumers of a channel\<close>

type_synonym consumer_table = "(short_string \<times> nat) list"

definition consumers_register :: "short_string \<Rightarrow> nat \<Rightarrow> consumer_table \<Rightarrow> consumer_table" where
  "consumers_register tag i m = AList.update tag i m"

definition consumers_deregister ::
  "short_string \<Rightarrow> consumer_table \<Rightarrow> 'a consumers_state_scheme \<Rightarrow> consumer_table \<times> 'a consumers_state_scheme" where
  "consumers_deregister tag m w =
    (case map_of m tag of
       Some i \<Rightarrow> (AList.delete tag m, consumer_cancel i w)
     | None \<Rightarrow> (m, w))"

definition consumers_start_cancel_one ::
  "short_string \<Rightarrow> consumer_table \<Rightarrow> 'a consumers_state_scheme \<Rightarrow> 'a consumers_state_scheme" where
  "consumers_start_cancel_one tag m w = (case map_of m tag of Some i \<Rightarrow> start_cancel i w | None \<Rightarrow> w)"

definition consumers_start_delivery ::
  "short_string \<Rightarrow> (nat \<Rightarrow> 'a consumers_state_scheme \<Rightarrow> delivery \<times> 'a consumers_state_scheme) \<Rightarrow> consumer_table
    \<Rightarrow> 'a consumers_state_scheme \<Rightarrow> 'a consumers_state_scheme" where
  "consumers_start_delivery tag message m w =
    (case map_of m tag of
       Some i \<Rightarrow> let (d, w1) = message (con_error (consumer_at i w)) w in start_new_delivery i d w1
     | None \<Rightarrow> w)"

definition consumers_handle_content_header_frame ::
  "short_string \<Rightarrow> payload_size \<Rightarrow> basic_properties \<Rightarrow> consumer_table
    \<Rightarrow> 'a consumers_state_scheme \<Rightarrow> 'a consumers_state_scheme" where
  "consumers_handle_content_header_frame tag n props m w =
    (case map_of m tag of Some i \<Rightarrow> consumer_handle_content_header_frame i n props w | None \<Rightarrow> w)"

definition consumers_handle_body_frame ::
  "short_string \<Rightarrow> payload_size \<Rightarrow> byte list \<Rightarrow> consumer_table
    \<Rightarrow> 'a consumers_state_scheme \<Rightarrow> 'a consumers_state_scheme" where
  "consumers_handle_body_frame tag remaining payload m w =
    (case map_of m tag of Some i \<Rightarrow> consumer_handle_body_frame i remaining payload w | None \<Rightarrow> w)"

definition consumers_drop_prefetched_messages ::
  "consumer_table \<Rightarrow> 'a consumers_state_scheme \<Rightarrow> 'a consumers_state_scheme" where
  "consumers_drop_prefetched_messages m = fold (\<lambda>(_, i). drop_prefetched_messages i) m"

definition consumers_start_cancel ::
  "consumer_table \<Rightarrow> 'a consumers_state_scheme \<Rightarrow> 'a consumers_state_scheme" where
  "consumers_start_cancel m = fold (\<lambda>(_, i). start_cancel i) m"

definition consumers_cancel ::
  "consumer_table \<Rightarrow> 'a consumers_state_scheme \<Rightarrow> consumer_table \<times> 'a consumers_state_scheme" where
  "consumers_cancel m w = ([], fold (\<lambda>(_, i). consumer_cancel i) m w)"

definition consumers_error ::
  "error \<Rightarrow> bool \<Rightarrow> consumer_table \<Rightarrow> 'a consumers_state_scheme \<Rightarrow> consumer_table \<times> 'a consumers_state_scheme" where
  "consumers_error e recover m w =
    ([], fold (\<lambda>(_, i) w. if recover then consumer_send_error i e w else consumer_set_error i e w) m w)"

definition consumers_topology :: "consumer_table \<Rightarrow> nat list" where
  "consumers_topology m = map snd m"

section \<open>Messages obtained with basic.get\<close>

type_synonym basic_get_delivery = "(basic_get_message \<times> nat) option"

definition get_start_new_delivery :: "basic_get_message \<Rightarrow> nat \<Rightarrow> basic_get_delivery \<Rightarrow> basic_get_delivery" where
  "get_start_new_delivery m resolver g = Some (m, resolver)"

definition get_new_delivery_complete ::
  "basic_get_delivery \<times> 'a heap_scheme \<Rightarrow> basic_get_delivery \<times> 'a heap_scheme" where
  "get_new_delivery_complete gh =
    (case fst gh of
       Some (m, resolver) \<Rightarrow> (None, promise_resolve resolver (VGet (Some m)) (snd gh))
     | None \<Rightarrow> gh)"

definition get_handle_content_header_frame ::
  "payload_size \<Rightarrow> basic_properties \<Rightarrow> basic_get_delivery \<times> 'a heap_scheme \<Rightarrow> basic_get_delivery \<times> 'a heap_scheme" where
  "get_handle_content_header_frame n props gh =
    (let g = map_option (\<lambda>(m, r). (m\<lparr>get_delivery := (get_delivery m)\<lparr>delivery_properties := props\<rparr>\<rparr>, r)) (fst gh)
     in if n = 0 then get_new_delivery_complete (g, snd gh) else (g, snd gh))"

definition get_handle_body_frame ::
  "payload_size \<Rightarrow> byte list \<Rightarrow> basic_get_delivery \<times> 'a heap_scheme \<Rightarrow> basic_get_delivery \<times> 'a heap_scheme" where
  "get_handle_body_frame remaining payload gh =
    (let g = map_option (\<lambda>(m, r). (m\<lparr>get_delivery := receive_content payload (get_delivery m)\<rparr>, r)) (fst gh)
     in if remaining = 0 then get_new_delivery_complete (g, snd gh) else (g, snd gh))"

section \<open>Content reaches the application in one piece\<close>

lemma consumer_objs_frames [simp]:
  "consumer_objs (rpc_send c w) = consumer_objs w"
  "consumer_objs (promise_complete p r w) = consumer_objs w"
  "consumer_objs (snd (switch_kill k w)) = consumer_objs w"
  by (simp_all add: rpc_send_def wake_def promise_complete_def switch_kill_def)

lemma update_consumer_at [simp]:
  "i < length (consumer_objs w) \<Longrightarrow> consumer_at i (update_consumer i f w) = f (consumer_at i w)"
  "i \<noteq> j \<Longrightarrow> consumer_at i (update_consumer j f w) = consumer_at i w"
  "length (consumer_objs (update_consumer j f w)) = length (consumer_objs w)"
  by (simp_all add: update_consumer_def consumer_at_def)

lemma consumer_at_frames [simp]:
  "consumer_at i (rpc_send c w) = consumer_at i w"
  "consumer_at i (promise_complete p r w) = consumer_at i w"
  "consumer_at i (snd (switch_kill k w)) = consumer_at i w"
  by (simp_all add: consumer_at_def)

lemma rpc_update_consumer [simp]: "rpc (update_consumer i f w) = rpc w"
  by (simp add: update_consumer_def)

text \<open>The deliveries that a consumer got, as its stream or as its delegate sees them.\<close>

fun good_delivery :: "delivery_result \<Rightarrow> delivery list" where
  "good_delivery (Inr (Some m)) = [m]"
| "good_delivery _ = []"

fun delegated :: "nat \<Rightarrow> internal_command option \<Rightarrow> delivery list" where
  "delegated g (Some (CmdSpawn (FutDelegateDelivery g' d))) = (if g = g' then good_delivery d else [])"
| "delegated g _ = []"

definition consumer_pending :: "nat \<Rightarrow> 'a consumers_state_scheme \<Rightarrow> delivery option" where
  "consumer_pending i w = (if i < length (consumer_objs w) then con_current_message (consumer_at i w) else None)"

definition consumer_received :: "nat \<Rightarrow> 'a consumers_state_scheme \<Rightarrow> delivery list" where
  "consumer_received i w = (case consumer_delegate i w of
     None \<Rightarrow> concat (map good_delivery (con_deliveries (consumer_at i w)))
   | Some g \<Rightarrow> concat (map (delegated g) (rpc w)))"

lemma receive_content_simps:
  "receive_content [] m = m"
  "receive_content ys (receive_content xs m) = receive_content (xs @ ys) m"
  by (simp_all add: receive_content_def)

lemmas consumer_eval = consumer_pending_def consumer_received_def check_new_delivery_def
  check_new_delivery_complete_def dispatch_def spawn_infallible_def rpc_spawn_def consumer_delegate_def

interpretation consumer_sink: content_sink "consumer_pending i" "consumer_received i"
  "consumer_handle_content_header_frame i" "consumer_handle_body_frame i"
  "\<lambda>p m. m\<lparr>delivery_properties := p\<rparr>" receive_content for i
proof
  fix w :: "'a consumers_state_scheme" and m n p xs
  assume "consumer_pending i w = Some m"
  then have i: "i < length (consumer_objs w)" and m: "con_current_message (consumer_at i w) = Some m"
    by (auto simp: consumer_pending_def split: if_splits)
  show "if n = 0 then consumer_pending i (consumer_handle_content_header_frame i n p w) = None
        \<and> consumer_received i (consumer_handle_content_header_frame i n p w)
          = consumer_received i w @ [m\<lparr>delivery_properties := p\<rparr>]
      else consumer_pending i (consumer_handle_content_header_frame i n p w) = Some (m\<lparr>delivery_properties := p\<rparr>)
        \<and> consumer_received i (consumer_handle_content_header_frame i n p w) = consumer_received i w"
    using i m by (auto simp: consumer_handle_content_header_frame_def consumer_content_header_def
        consumer_eval split: option.splits)
  show "if n = 0 then consumer_pending i (consumer_handle_body_frame i n xs w) = None
        \<and> consumer_received i (consumer_handle_body_frame i n xs w) = consumer_received i w @ [receive_content xs m]
      else consumer_pending i (consumer_handle_body_frame i n xs w) = Some (receive_content xs m)
        \<and> consumer_received i (consumer_handle_body_frame i n xs w) = consumer_received i w"
    using i m by (auto simp: consumer_handle_body_frame_def consumer_body_def
        consumer_eval split: option.splits)
qed (simp_all add: receive_content_simps)

text \<open>The message of a \<^verbatim>\<open>basic.get\<close> whose promise is \<^term>\<open>p\<close>.\<close>

definition get_pending :: "nat \<Rightarrow> basic_get_delivery \<times> 'a heap_scheme \<Rightarrow> basic_get_message option" where
  "get_pending p gh = (case fst gh of
     Some (m, r) \<Rightarrow> if r = p \<and> promise_open (snd gh) p then Some m else None | None \<Rightarrow> None)"

definition get_received :: "nat \<Rightarrow> basic_get_delivery \<times> 'a heap_scheme \<Rightarrow> basic_get_message list" where
  "get_received p gh = (case promise_get p (snd gh) of Some (Inr (VGet (Some m))) \<Rightarrow> [m] | _ \<Rightarrow> [])"

interpretation get_sink: content_sink "get_pending p" "get_received p"
  get_handle_content_header_frame get_handle_body_frame
  "\<lambda>props m. m\<lparr>get_delivery := (get_delivery m)\<lparr>delivery_properties := props\<rparr>\<rparr>"
  "\<lambda>xs m. m\<lparr>get_delivery := receive_content xs (get_delivery m)\<rparr>" for p
  by unfold_locales
    (auto simp: get_pending_def get_received_def get_handle_content_header_frame_def get_handle_body_frame_def
      get_new_delivery_complete_def promise_resolve_def promise_open_def store_simps receive_content_simps
      split: option.splits if_splits prod.splits)

definition return_received :: "bool \<Rightarrow> returned_messages \<Rightarrow> basic_return_message list" where
  "return_received confirm_mode s = (if confirm_mode then rm_waiting_messages s else rm_non_confirm_messages s)"

interpretation return_sink: content_sink rm_current_message "return_received confirm_mode"
  "\<lambda>n p. rm_handle_content_header_frame n p confirm_mode" "\<lambda>n xs. rm_handle_body_frame n xs confirm_mode"
  "\<lambda>p. return_map_delivery (\<lambda>d. d\<lparr>delivery_properties := p\<rparr>)"
  "\<lambda>xs. return_map_delivery (receive_content xs)" for confirm_mode
  by unfold_locales
    (auto simp: return_received_def rm_handle_content_header_frame_def rm_handle_body_frame_def
      rm_new_delivery_complete_def return_map_delivery_def receive_content_simps Let_def)

text \<open>
  C26: the content of a message reaches its receiver in one piece.  When a channel waits for the content of
  a delivery, of a \<^verbatim>\<open>basic.get\<close> or of a returned message, and the header announces the total length of
  the body frames that follow, every frame is accepted, the receiver gets exactly one message with the
  properties of the header and the concatenation of the bodies, and the channel is ready for the next.
\<close>

theorem content_reassembled:
  assumes "consumer_pending i w = Some m" "get_pending p gh = Some g" "rm_current_message s = Some r"
    and len: "sum_list (map length bs) = unat n" "bs = [] \<or> last bs \<noteq> []"
  shows "(\<exists>w'. receive_message c cls n props bs (consumer_handle_content_header_frame i) (consumer_handle_body_frame i) err1
        (WillReceiveContent cls cause # q) w = (replicate (Suc (length bs)) (Inr ()), q, w')
      \<and> consumer_received i w' = consumer_received i w @ [receive_content (concat bs) (m\<lparr>delivery_properties := props\<rparr>)])
    \<and> (\<exists>gh'. receive_message c cls n props bs get_handle_content_header_frame get_handle_body_frame err2
        (WillReceiveContent cls cause # q) gh = (replicate (Suc (length bs)) (Inr ()), q, gh')
      \<and> get_received p gh' = [g\<lparr>get_delivery := receive_content (concat bs) ((get_delivery g)\<lparr>delivery_properties := props\<rparr>)\<rparr>])
    \<and> (\<exists>s'. receive_message c cls n props bs (\<lambda>n p. rm_handle_content_header_frame n p confirm_mode)
        (\<lambda>n xs. rm_handle_body_frame n xs confirm_mode) err3
        (WillReceiveContent cls cause # q) s = (replicate (Suc (length bs)) (Inr ()), q, s')
      \<and> return_received confirm_mode s' = return_received confirm_mode s
          @ [r\<lparr>return_delivery := receive_content (concat bs) ((return_delivery r)\<lparr>delivery_properties := props\<rparr>)\<rparr>])"
proof (intro conjI)
  show "\<exists>w'. receive_message c cls n props bs (consumer_handle_content_header_frame i) (consumer_handle_body_frame i) err1
        (WillReceiveContent cls cause # q) w = (replicate (Suc (length bs)) (Inr ()), q, w')
      \<and> consumer_received i w' = consumer_received i w @ [receive_content (concat bs) (m\<lparr>delivery_properties := props\<rparr>)]"
    using consumer_sink.message_assembled[OF assms(1) len] by blast
  have "get_received p gh = []"
    using assms(2) by (auto simp: get_pending_def get_received_def promise_open_def split: option.splits if_splits)
  then show "\<exists>gh'. receive_message c cls n props bs get_handle_content_header_frame get_handle_body_frame err2
        (WillReceiveContent cls cause # q) gh = (replicate (Suc (length bs)) (Inr ()), q, gh')
      \<and> get_received p gh' = [g\<lparr>get_delivery := receive_content (concat bs) ((get_delivery g)\<lparr>delivery_properties := props\<rparr>)\<rparr>]"
    using get_sink.message_assembled[OF assms(2) len, of c cls props err2 cause q] by auto
  show "\<exists>s'. receive_message c cls n props bs (\<lambda>n p. rm_handle_content_header_frame n p confirm_mode)
        (\<lambda>n xs. rm_handle_body_frame n xs confirm_mode) err3
        (WillReceiveContent cls cause # q) s = (replicate (Suc (length bs)) (Inr ()), q, s')
      \<and> return_received confirm_mode s' = return_received confirm_mode s
          @ [r\<lparr>return_delivery := receive_content (concat bs) ((return_delivery r)\<lparr>delivery_properties := props\<rparr>)\<rparr>]"
    using return_sink.message_assembled[OF assms(3) len, of c cls props confirm_mode err3 cause q]
    by (auto simp: return_map_delivery_def)
qed

definition consumers_empty :: consumers_state where
  "consumers_empty = \<lparr>promises = [], switches = [], notifiers = [], holders = [], rpc = [], socket_events = [],
     publish_frames = [], retry_frames = [], frames_queue = [], low_prio_frames = [], expected_replies = [],
     poison = None, channels_poison = [], consumer_objs = []\<rparr>"

definition sample_delivery :: delivery where
  "sample_delivery = fst (delivery_mock 1 ''x'' ''k'' False [] heap_empty)"

definition sample_world :: consumers_state where
  "sample_world = start_new_delivery 0 sample_delivery
     (snd (consumer_new ''tag'' ''queue'' (BasicConsumeOptions False False False False) [] consumers_empty))"

lemma sample_world_simps [simp]:
  "length (consumer_objs sample_world) = 1" "consumer_delegate 0 sample_world = None"
  "con_current_message (consumer_at 0 sample_world) = Some sample_delivery"
  "con_deliveries (consumer_at 0 sample_world) = []"
  by (simp_all add: sample_world_def consumer_new_def start_new_delivery_def update_consumer_def consumer_at_def
      holder_new_def consumers_empty_def consumer_delegate_def consumer_status_default_def Let_def)

theorem content_reassembled_witness:
  "\<exists>w'. receive_message 1 60 3 DefaultProperties [[1, 2], [3]] (consumer_handle_content_header_frame 0)
      (consumer_handle_body_frame 0) (\<lambda>_ w. (Inr (), w)) [WillReceiveContent 60 (CauseConsume ''tag'')] sample_world
      = ([Inr (), Inr (), Inr ()], [], w')
    \<and> consumer_received 0 w' = [receive_content [1, 2, 3] (sample_delivery\<lparr>delivery_properties := DefaultProperties\<rparr>)]"
proof -
  have 1: "consumer_pending 0 sample_world = Some sample_delivery" "consumer_received 0 sample_world = []"
    by (simp_all add: consumer_pending_def consumer_received_def)
  have 2: "get_pending 0 (Some (\<lparr>get_delivery = sample_delivery, get_message_count = 0\<rparr>, 0), heap_empty\<lparr>promises := [None]\<rparr>)
      = Some \<lparr>get_delivery = sample_delivery, get_message_count = 0\<rparr>"
    by (simp add: get_pending_def promise_open_def promise_get_def)
  have 3: "rm_current_message (rm_start_new_delivery
        \<lparr>return_delivery = sample_delivery, return_reply_code = 312, return_reply_text = ''''\<rparr> rm_default)
      = Some \<lparr>return_delivery = sample_delivery, return_reply_code = 312, return_reply_text = ''''\<rparr>"
    by (simp add: rm_start_new_delivery_def)
  have 4: "sum_list (map length [[1 :: byte, 2], [3]]) = unat (3 :: payload_size)"
    "[[1 :: byte, 2], [3]] = [] \<or> last [[1 :: byte, 2], [3]] \<noteq> []" by simp_all
  from content_reassembled[OF 1(1) 2 3 4, of 1 60 DefaultProperties "\<lambda>_ w. (Inr (), w)" "CauseConsume ''tag''" "[]"]
  show ?thesis using 1(2) by (simp add: numeral_3_eq_3)
qed

section \<open>Errors and cancellations on the stream\<close>

lemma consumer_objs_holder_set [simp]: "consumer_objs (snd (holder_set n e w)) = consumer_objs w"
  by (simp add: holder_set_def)

lemma consumer_delegate_objs:
  "consumer_objs w' = consumer_objs w \<Longrightarrow> consumer_delegate i w' = consumer_delegate i w"
  by (simp add: consumer_delegate_def consumer_at_def)

lemma consumer_error_effect:
  assumes "i < length (consumer_objs w)" "consumer_delegate i w = None"
  shows "consumer_objs (consumer_send_error i e w) = (consumer_objs w)
      [i := (consumer_at i w)\<lparr>con_deliveries := con_deliveries (consumer_at i w) @ [Inl e]\<rparr>]"
    and "consumer_objs (consumer_set_error i e w) = (consumer_objs w)
      [i := (consumer_at i w)\<lparr>con_deliveries := con_deliveries (consumer_at i w) @ [Inl e, Inr None],
         con_status := cs_cancel (con_status (consumer_at i w))\<rparr>]"
  using assms
  by (simp_all add: consumer_send_error_def consumer_set_error_def consumer_cancel_def dispatch_def
      update_consumer_def consumer_delegate_def consumer_at_def Let_def)

definition error_items :: "error \<Rightarrow> bool \<Rightarrow> delivery_result list" where
  "error_items e recover = (if recover then [Inl e] else [Inl e, Inr None])"

lemma consumers_error_fold:
  assumes "distinct (map snd m)"
    and "\<forall>j\<in>snd ` set m. j < length (consumer_objs w) \<and> consumer_delegate j w = None"
  shows "con_deliveries (consumer_at i (snd (consumers_error e recover m w))) =
    con_deliveries (consumer_at i w) @ (if i \<in> snd ` set m then error_items e recover else [])"
  using assms
proof (induction m arbitrary: w)
  case Nil
  then show ?case by (simp add: consumers_error_def)
next
  case (Cons x m)
  obtain t j where x: "x = (t, j)" by fastforce
  let ?w = "if recover then consumer_send_error j e w else consumer_set_error j e w"
  have j: "j < length (consumer_objs w)" "consumer_delegate j w = None" using Cons.prems(2) x by auto
  note eff = consumer_error_effect[OF j, of e]
  have at: "con_deliveries (consumer_at k ?w) = con_deliveries (consumer_at k w) @ (if k = j then error_items e recover else [])"
    for k using j(1) by (auto simp: consumer_at_def eff error_items_def)
  have "\<forall>k\<in>snd ` set m. k < length (consumer_objs ?w) \<and> consumer_delegate k ?w = None"
  proof
    fix k assume k: "k \<in> snd ` set m"
    then have "k \<noteq> j" using Cons.prems(1) x by auto
    moreover have "k < length (consumer_objs w) \<and> consumer_delegate k w = None" using Cons.prems(2) k by auto
    ultimately show "k < length (consumer_objs ?w) \<and> consumer_delegate k ?w = None"
      by (auto simp: eff consumer_delegate_def consumer_at_def)
  qed
  from Cons.IH[OF _ this] Cons.prems(1) show ?case
    by (auto simp: consumers_error_def x at)
qed

text \<open>
  C27: when a channel fails, each of its consumers gets the error after the deliveries it already has.
  Without recovery the end of the stream follows the error; with recovery it does not, although the
  channel keeps no reference to the consumer that could end its stream later.
\<close>

theorem consumers_error_streams:
  assumes "distinct (map snd m)"
    and "\<forall>j\<in>snd ` set m. j < length (consumer_objs w) \<and> consumer_delegate j w = None"
    and "(t, i) \<in> set m"
  shows "fst (consumers_error e recover m w) = []
    \<and> con_deliveries (consumer_at i (snd (consumers_error e recover m w))) =
        con_deliveries (consumer_at i w) @ (if recover then [Inl e] else [Inl e, Inr None])"
  using consumers_error_fold[OF assms(1,2), of i e recover] assms(3)
  by (force simp: consumers_error_def error_items_def)

theorem consumers_error_streams_witness:
  "con_deliveries (consumer_at 0 (snd (consumers_error (error_of FutureCompleted) True [(''tag'', 0)] sample_world)))
     = [Inl (error_of FutureCompleted)]"
  using consumers_error_streams[of "[(''tag'', 0)]" sample_world "''tag''" 0 "error_of FutureCompleted" True]
  by simp

lemma killed_invalidate:
  "killed k (invalidate a h) \<longleftrightarrow> killed k h \<or> (k = acker_killswitch a \<and> k < length (switches h))"
  by (auto simp: invalidate_def killed_kill)

lemma killed_fold_invalidate:
  "killed k (fold invalidate_delivery ds h) \<longleftrightarrow> killed k h
    \<or> (k < length (switches h) \<and> (\<exists>m. Inr (Some m) \<in> set ds \<and> acker_killswitch (delivery_acker m) = k))"
proof (induction ds arbitrary: h)
  case Nil
  then show ?case by simp
next
  case (Cons d ds)
  show ?case
  proof (cases "\<exists>m. d = Inr (Some m)")
    case True
    then obtain m where d: "d = Inr (Some m)" by blast
    have inv: "invalidate_delivery (Inr (Some m)) h = invalidate (delivery_acker m) h"
      by (simp add: invalidate_delivery_def)
    have "length (switches (invalidate (delivery_acker m) h)) = length (switches h)"
      by (simp add: invalidate_def switch_kill_def)
    then show ?thesis by (auto simp: Cons d inv killed_invalidate)
  next
    case False
    then have "invalidate_delivery d h = h"
      by (auto simp: invalidate_delivery_def split: sum.splits option.splits)
    with False show ?thesis by (auto simp: Cons)
  qed
qed

lemma consumer_objs_fold_invalidate [simp]:
  "consumer_objs (fold invalidate_delivery ds w) = consumer_objs w"
  by (induction ds arbitrary: w)
    (auto simp: invalidate_delivery_def invalidate_def split: sum.split option.split)

lemma killed_rpc_send [simp]: "killed k (rpc_send c h) = killed k h"
  by (simp add: killed_def)

lemma killed_update_consumer [simp]: "killed k (update_consumer i f w) = killed k w"
  by (simp add: update_consumer_def killed_def)

text \<open>
  Prefetched messages that are dropped can no longer be acknowledged, and the stream does not yield
  them: after a channel is closed or recovered no acknowledgement can go out for a delivery of the
  past that the application has not seen.
\<close>

lemma dropped_prefetched_unusable:
  assumes "i < length (consumer_objs w)" "Inr (Some m) \<in> set (con_deliveries (consumer_at i w))"
    and "acker_killswitch (delivery_acker m) < length (switches w)"
  shows "\<not> usable (delivery_acker m) (drop_prefetched_messages i w)
    \<and> con_deliveries (consumer_at i (drop_prefetched_messages i w)) = []"
proof -
  let ?w = "case consumer_delegate i w of Some g \<Rightarrow> spawn_infallible (FutDelegateDropPrefetched g) w | None \<Rightarrow> w"
  have w: "consumer_objs ?w = consumer_objs w" "switches ?w = switches w"
    by (simp_all add: spawn_infallible_def rpc_spawn_def rpc_send_def wake_def split: option.split)
  then have at: "consumer_at i ?w = consumer_at i w" by (simp add: consumer_at_def)
  have "killed (acker_killswitch (delivery_acker m)) (drop_prefetched_messages i w)"
    using assms w by (auto simp: drop_prefetched_messages_def Let_def killed_fold_invalidate at)
  moreover have "con_deliveries (consumer_at i (drop_prefetched_messages i w)) = []"
    using assms(1) w by (simp add: drop_prefetched_messages_def Let_def)
  ultimately show ?thesis by (simp add: usable_def)
qed

lemma dropped_prefetched_unusable_witness:
  "\<exists>w. \<not> usable (delivery_acker sample_delivery) (drop_prefetched_messages 0 w)
     \<and> usable (delivery_acker sample_delivery) (w :: consumers_state)"
proof -
  let ?w = "(dispatch 0 (Inr (Some sample_delivery)) None sample_world)\<lparr>switches := [False, False]\<rparr>"
  have k: "acker_killswitch (delivery_acker sample_delivery) = 1" "acker_channel_killswitch (delivery_acker sample_delivery) = 0"
    by (simp_all add: sample_delivery_def delivery_mock_def delivery_new_def acker_new_def switch_new_def
        heap_empty_def Let_def)
  have "0 < length (consumer_objs ?w)" "Inr (Some sample_delivery) \<in> set (con_deliveries (consumer_at 0 ?w))"
    by (simp_all add: dispatch_def update_consumer_def consumer_at_def)
  from dropped_prefetched_unusable[OF this] have "\<not> usable (delivery_acker sample_delivery) (drop_prefetched_messages 0 ?w)"
    by (simp add: k)
  moreover have "usable (delivery_acker sample_delivery) ?w"
    by (simp add: usable_def poisoned_def k killed_def)
  ultimately show ?thesis by blast
qed

end
