(* ===== verification/Connection_State.thy ===== *)
theory Connection_State
  imports Store
begin

text \<open>
  The connection-wide state: the parameters negotiated in the handshake and the recovery policy
  (\<^verbatim>\<open>src/configuration.rs\<close>), the options of a connection (\<^verbatim>\<open>src/connection_properties.rs\<close>), the built-in
  authentication providers (\<^verbatim>\<open>src/auth.rs\<close>), the status of the connection (\<^verbatim>\<open>src/connection_status.rs\<close>) and the
  events for the application (\<^verbatim>\<open>src/events.rs\<close>).  Of the URI and of the credentials, which other crates
  define, the values that the source reads are arguments.
\<close>

section \<open>Authentication\<close>

text \<open>
  The provider that answers with the credentials of the URI.  Arguments: the name of the mechanism, whether
  it is RabbitMQ's demonstration of a challenge and response, and what the protocol crate computes from
  the credentials.
\<close>

definition default_continue_auth :: "short_string \<Rightarrow> bool \<Rightarrow> string \<Rightarrow> string \<Rightarrow> string \<Rightarrow> string + string" where
  "default_continue_auth mechanism is_cr_demo expected_challenge answer challenge =
    (if \<not> is_cr_demo
     then Inl (''Received invalid Connection.Secure with challenge '' @ [CHR 0x27] @ challenge @ [CHR 0x27]
       @ '' for SASL mechanism '' @ mechanism @ '' with default provider.'')
     else if challenge \<noteq> expected_challenge
     then Inl (mechanism @ '': received invalid challenge '' @ [CHR 0x27] @ challenge @ [CHR 0x27])
     else Inr answer)"

definition default_auth_provider ::
  "short_string \<Rightarrow> bool \<Rightarrow> string \<Rightarrow> string \<Rightarrow> string \<Rightarrow> auth_provider" where
  "default_auth_provider mechanism is_cr_demo sasl_auth_string expected_challenge answer =
    \<lparr>auth_mechanism = mechanism, auth_starter = Inr sasl_auth_string,
     auth_continue = default_continue_auth mechanism is_cr_demo expected_challenge answer\<rparr>"

text \<open>The default of \<^verbatim>\<open>continue_auth\<close> in the trait.\<close>

definition trait_continue_auth :: "short_string \<Rightarrow> string \<Rightarrow> string + string" where
  "trait_continue_auth mechanism challenge =
    Inl (''Received Connection.Secure with challenge '' @ [CHR 0x27] @ challenge @ [CHR 0x27]
      @ '' but we don'' @ [CHR 0x27] @ ''t know how to handle it for '' @ mechanism @ ''.'')"

definition token_auth_provider ::
  "short_string \<Rightarrow> (string \<Rightarrow> string) \<Rightarrow> string + string \<Rightarrow> auth_provider" where
  "token_auth_provider mechanism sasl_auth_string created =
    \<lparr>auth_mechanism = mechanism, auth_starter = map_sum id sasl_auth_string created,
     auth_continue = trait_continue_auth mechanism\<rparr>"

section \<open>Connection properties\<close>

text \<open>A backoff strategy is given by what the source sets of it: the number of retries.\<close>

record connection_properties =
  cp_locale :: short_string
  cp_client_properties :: field_table
  cp_auth_provider :: "auth_provider option"
  cp_backoff_max_times :: nat
  cp_auto_recover :: bool
  cp_backoff_configured :: bool

definition connection_properties_default :: connection_properties where
  "connection_properties_default =
    \<lparr>cp_locale = ''en_US'', cp_client_properties = [], cp_auth_provider = None, cp_backoff_max_times = 0,
     cp_auto_recover = False, cp_backoff_configured = False\<rparr>"

definition with_locale :: "short_string \<Rightarrow> connection_properties \<Rightarrow> connection_properties" where
  "with_locale l p = p\<lparr>cp_locale := l\<rparr>"

definition with_client_property :: "short_string \<Rightarrow> string \<Rightarrow> connection_properties \<Rightarrow> connection_properties" where
  "with_client_property k v p = p\<lparr>cp_client_properties := table_insert k (LongString v) (cp_client_properties p)\<rparr>"

definition with_connection_name :: "string \<Rightarrow> connection_properties \<Rightarrow> connection_properties" where
  "with_connection_name n = with_client_property ''connection_name'' n"

definition with_auth_provider :: "auth_provider \<Rightarrow> connection_properties \<Rightarrow> connection_properties" where
  "with_auth_provider a p = p\<lparr>cp_auth_provider := Some a\<rparr>"

definition with_backoff :: "nat \<Rightarrow> connection_properties \<Rightarrow> connection_properties" where
  "with_backoff n p = p\<lparr>cp_backoff_max_times := n, cp_backoff_configured := True\<rparr>"

definition configure_backoff :: "(nat \<Rightarrow> nat) \<Rightarrow> connection_properties \<Rightarrow> connection_properties" where
  "configure_backoff f p = p\<lparr>cp_backoff_max_times := f (cp_backoff_max_times p), cp_backoff_configured := True\<rparr>"

definition enable_auto_recover :: "connection_properties \<Rightarrow> connection_properties" where
  "enable_auto_recover p =
    (let p1 = p\<lparr>cp_auto_recover := True\<rparr>
     in if \<not> cp_backoff_configured p1
        then p1\<lparr>cp_backoff_max_times := 16, cp_backoff_configured := True\<rparr> else p1)"

section \<open>Configuration\<close>

record negotiated_config =
  nc_channel_max :: channel_id
  nc_frame_max :: frame_size
  nc_heartbeat :: heartbeat_secs

text \<open>\<^verbatim>\<open>FRAME_MIN_SIZE\<close> of the protocol crate.\<close>

abbreviation frame_min_size :: frame_size where
  "frame_min_size \<equiv> 4096"

definition negotiated_config_new ::
  "channel_id option \<Rightarrow> frame_size option \<Rightarrow> heartbeat_secs option \<Rightarrow> negotiated_config" where
  "negotiated_config_new channel_max frame_max heartbeat =
    \<lparr>nc_channel_max = (case channel_max of Some x \<Rightarrow> x | None \<Rightarrow> 0),
     nc_frame_max = (case frame_max of Some x \<Rightarrow> x | None \<Rightarrow> 0),
     nc_heartbeat = (case heartbeat of Some x \<Rightarrow> x | None \<Rightarrow> 0)\<rparr>"

definition set_channel_max :: "channel_id \<Rightarrow> negotiated_config \<Rightarrow> negotiated_config" where
  "set_channel_max x n = n\<lparr>nc_channel_max := x\<rparr>"

definition set_frame_max :: "frame_size \<Rightarrow> negotiated_config \<Rightarrow> negotiated_config" where
  "set_frame_max x n = n\<lparr>nc_frame_max := max x frame_min_size\<rparr>"

definition set_heartbeat :: "heartbeat_secs \<Rightarrow> negotiated_config \<Rightarrow> negotiated_config" where
  "set_heartbeat x n = n\<lparr>nc_heartbeat := x\<rparr>"

record configuration =
  cfg_client_properties :: field_table
  cfg_locale :: short_string
  cfg_auth_provider :: auth_provider
  cfg_backoff_max_times :: nat
  cfg_negotiated :: negotiated_config
  cfg_auto_recover :: bool

definition configuration_new ::
  "auth_provider \<Rightarrow> channel_id option \<Rightarrow> frame_size option \<Rightarrow> heartbeat_secs option \<Rightarrow> connection_properties \<Rightarrow> configuration" where
  "configuration_new default_provider channel_max frame_max heartbeat p =
    \<lparr>cfg_client_properties = cp_client_properties p, cfg_locale = cp_locale p,
     cfg_auth_provider = (case cp_auth_provider p of Some a \<Rightarrow> a | None \<Rightarrow> default_provider),
     cfg_backoff_max_times = cp_backoff_max_times p,
     cfg_negotiated = negotiated_config_new channel_max frame_max heartbeat,
     cfg_auto_recover = cp_auto_recover p\<rparr>"

section \<open>The status of the connection\<close>

record connection_status =
  cn_vhost :: short_string
  cn_username :: string
  cn_state :: connection_state
  cn_blocked :: bool
  cn_poison :: "error option"

definition connection_status_new :: "short_string \<Rightarrow> string \<Rightarrow> connection_status" where
  "connection_status_new vhost username =
    \<lparr>cn_vhost = vhost, cn_username = username, cn_state = CsInitial, cn_blocked = False, cn_poison = None\<rparr>"

definition connection_status_default :: connection_status where
  "connection_status_default = connection_status_new ''/'' ''guest''"

definition cn_set_state :: "connection_state \<Rightarrow> connection_status \<Rightarrow> connection_state \<times> connection_status" where
  "cn_set_state x s = (cn_state s, s\<lparr>cn_state := x\<rparr>)"

definition cn_set_connecting :: "connection_status \<Rightarrow> (error + unit) \<times> connection_status" where
  "cn_set_connecting s =
    (case cn_poison s of Some e \<Rightarrow> Inl e | None \<Rightarrow> Inr (), s\<lparr>cn_state := CsConnecting, cn_poison := None\<rparr>)"

definition cn_set_reconnecting :: "connection_status \<Rightarrow> connection_status" where
  "cn_set_reconnecting s = s\<lparr>cn_poison := None, cn_state := CsReconnecting, cn_blocked := False\<rparr>"

definition cn_block :: "connection_status \<Rightarrow> connection_status" where
  "cn_block s = s\<lparr>cn_blocked := True\<rparr>"

definition cn_unblock :: "connection_status \<Rightarrow> connection_status" where
  "cn_unblock s = s\<lparr>cn_blocked := False\<rparr>"

definition cn_connected :: "connection_status \<Rightarrow> bool" where
  "cn_connected s = (cn_state s = CsConnected)"

definition ensure_connected :: "connection_status \<Rightarrow> error + unit" where
  "ensure_connected s =
    (if \<not> cn_connected s then Inl (error_of (InvalidConnectionState (cn_state s))) else Inr ())"

definition cn_connecting :: "connection_status \<Rightarrow> bool" where
  "cn_connecting s = (cn_state s = CsConnecting)"

definition cn_reconnecting :: "connection_status \<Rightarrow> bool" where
  "cn_reconnecting s = (cn_state s = CsReconnecting)"

definition cn_closing :: "connection_status \<Rightarrow> bool" where
  "cn_closing s = (cn_state s = CsClosing)"

definition cn_closed :: "connection_status \<Rightarrow> bool" where
  "cn_closed s = (cn_state s = CsClosed)"

definition cn_errored :: "connection_status \<Rightarrow> bool" where
  "cn_errored s = (cn_state s = CsError)"

definition cn_set_poison :: "error \<Rightarrow> connection_status \<Rightarrow> connection_status" where
  "cn_set_poison e s = s\<lparr>cn_poison := Some e\<rparr>"

definition cn_auto_close :: "connection_status \<Rightarrow> bool" where
  "cn_auto_close s = (cn_state s \<in> {CsConnecting, CsConnected})"

section \<open>Events\<close>

text \<open>Whether the application listens, and the events it has not taken yet.\<close>

record events =
  ev_listening :: bool
  ev_queue :: "event list"

definition events_send :: "event \<Rightarrow> events \<Rightarrow> events" where
  "events_send e s = (if ev_listening s then s\<lparr>ev_queue := ev_queue s @ [e]\<rparr> else s)"

end
