(* ===== verification/Heartbeat_Model.thy ===== *)
theory Heartbeat_Model
  imports Connection_State
begin

text \<open>
  Model of \<^verbatim>\<open>src/heartbeat.rs\<close> and \<^verbatim>\<open>src/secret_update.rs\<close>: the two periodic tasks of a connection.  Instants and
  durations are natural numbers of nanoseconds, and the current time is an argument.  A task is its
  polling function, which says how long to sleep before it is called again.
\<close>

section \<open>Heartbeats\<close>

record heartbeat =
  hb_killswitch :: nat
  hb_last_read :: nat
  hb_last_write :: nat
  hb_timeout :: "nat option"
  hb_poison :: nat

definition duration_max :: nat where
  "duration_max = (2 ^ 64 - 1) * 1000000000 + 999999999"

definition saturating_mul :: "nat \<Rightarrow> nat \<Rightarrow> nat" where
  "saturating_mul d n = min (d * n) duration_max"

definition one_ms :: nat where
  "one_ms = 1000000"

definition heartbeat_new :: "nat \<Rightarrow> 'a heap_scheme \<Rightarrow> heartbeat \<times> 'a heap_scheme" where
  "heartbeat_new now h =
    (let (k, h1) = switch_new h; (p, h2) = switch_new h1
     in (\<lparr>hb_killswitch = k, hb_last_read = now, hb_last_write = now, hb_timeout = None, hb_poison = p\<rparr>, h2))"

definition hb_set_timeout :: "nat \<Rightarrow> heartbeat \<Rightarrow> heartbeat" where
  "hb_set_timeout t b = b\<lparr>hb_timeout := Some t\<rparr>"

definition hb_update_last_write :: "nat \<Rightarrow> heartbeat \<Rightarrow> heartbeat" where
  "hb_update_last_write now b = b\<lparr>hb_last_write := now\<rparr>"

definition hb_update_last_read :: "nat \<Rightarrow> heartbeat \<Rightarrow> heartbeat" where
  "hb_update_last_read now b = b\<lparr>hb_last_read := now\<rparr>"

definition hb_cancel :: "heartbeat \<Rightarrow> 'a heap_scheme \<Rightarrow> heartbeat \<times> 'a heap_scheme" where
  "hb_cancel b h = (b\<lparr>hb_timeout := None\<rparr>, snd (switch_kill (hb_poison b) h))"

definition hb_reset :: "nat \<Rightarrow> heartbeat \<Rightarrow> 'a heap_scheme \<Rightarrow> heartbeat \<times> 'a heap_scheme" where
  "hb_reset now b h =
    (let (b1, h1) = hb_cancel b (switch_reset (hb_killswitch b) h);
         b2 = hb_update_last_write now (hb_update_last_read now b1);
         (p, h2) = switch_new h1
     in (b2\<lparr>hb_poison := p\<rparr>, h2))"

definition hb_inner_poll_timeout ::
  "nat \<Rightarrow> heartbeat \<Rightarrow> 'a heap_scheme \<Rightarrow> nat option \<times> heartbeat \<times> 'a heap_scheme" where
  "hb_inner_poll_timeout now b h =
    (case hb_timeout b of
       None \<Rightarrow> (None, b, h)
     | Some t \<Rightarrow>
         if now - hb_last_read b > saturating_mul t 4
         then (None, b\<lparr>hb_timeout := None\<rparr>,
               rpc_send (CmdSetConnectionError (error_of MissingHeartbeatError))
                 (snd (switch_kill (hb_killswitch b) h)))
         else (case checked_sub t (now - hb_last_write b) of
                 Some d \<Rightarrow> (Some (max d one_ms), b, h)
               | None \<Rightarrow> (Some t, hb_update_last_write now b, rpc_send CmdSendHeartbeat h)))"

text \<open>The task, started with the kill switch that was current then.\<close>

definition hb_poll_timeout ::
  "nat \<Rightarrow> nat \<Rightarrow> connection_status \<Rightarrow> heartbeat \<Rightarrow> 'a heap_scheme \<Rightarrow> nat option \<times> heartbeat \<times> 'a heap_scheme" where
  "hb_poll_timeout now task_poison s b h =
    (if killed task_poison h then (None, b, h)
     else if \<not> cn_connected s then (let (b', h') = hb_cancel b h in (None, b', h'))
     else hb_inner_poll_timeout now b h)"

section \<open>Secret updates\<close>

text \<open>The methods of the application's provider are arguments.\<close>

definition su_cancel :: "nat \<Rightarrow> 'a heap_scheme \<Rightarrow> 'a heap_scheme" where
  "su_cancel k h = snd (switch_kill k h)"

definition su_reset :: "nat \<Rightarrow> 'a heap_scheme \<Rightarrow> nat \<times> 'a heap_scheme" where
  "su_reset k h = switch_new (su_cancel k h)"

definition su_poll_timeout :: "nat option \<Rightarrow> nat \<Rightarrow> connection_status \<Rightarrow> 'a heap_scheme \<Rightarrow> nat option" where
  "su_poll_timeout valid_for k s h = (if killed k h \<or> \<not> cn_connected s then None else valid_for)"

text \<open>What the task does after its sleep: it asks for a token and hands it to the connection.\<close>

definition su_refresh :: "string + string \<Rightarrow> 'a heap_scheme \<Rightarrow> nat option \<times> 'a heap_scheme" where
  "su_refresh refreshed h =
    (case refreshed of
       Inl _ \<Rightarrow> (None, h)
     | Inr token \<Rightarrow> let (p, h') = rpc_update_secret token ''Automatic periodical refresh'' h in (Some p, h'))"

section \<open>The silence of both sides is bounded\<close>

text \<open>
  The runs of the heartbeat task on a connection that stays up: the task is polled, sleeps for the time
  it returned, and meanwhile the socket may be written and read at any time.
\<close>

inductive hb_reach :: "nat \<Rightarrow> nat \<Rightarrow> heartbeat \<Rightarrow> 'a heap_scheme \<Rightarrow> bool" for t where
  hb_started: "hb_timeout b = Some t \<Longrightarrow> hb_last_read b \<le> now \<Longrightarrow> hb_last_write b \<le> now
    \<Longrightarrow> now \<le> hb_last_write b + t \<Longrightarrow> now \<le> hb_last_read b + t \<Longrightarrow> hb_reach t now b h"
| hb_polled: "hb_reach t now b h \<Longrightarrow> hb_inner_poll_timeout now b h = (Some d, b', h')
    \<Longrightarrow> hb_timeout b'' = hb_timeout b'
    \<Longrightarrow> hb_last_write b' \<le> hb_last_write b'' \<Longrightarrow> hb_last_write b'' \<le> now + d
    \<Longrightarrow> hb_last_read b' \<le> hb_last_read b'' \<Longrightarrow> hb_last_read b'' \<le> now + d
    \<Longrightarrow> hb_reach t (now + d) b'' h''"

inductive_cases hb_reachE: "hb_reach t now b h"

lemma hb_poll_Some:
  assumes "hb_inner_poll_timeout now b h = (Some d, b', h')" "hb_timeout b = Some t" "hb_last_write b \<le> now"
  shows "hb_timeout b' = Some t" "hb_last_read b' = hb_last_read b" "d \<le> max t one_ms"
    "now - hb_last_read b \<le> 4 * t" "hb_last_write b \<le> hb_last_write b'" "hb_last_write b' \<le> now"
    "now + d \<le> hb_last_write b' + t + one_ms"
    "rpc h' = rpc h @ (if hb_last_write b + t < now then [Some CmdSendHeartbeat] else [])"
    "killed k h' = killed k h"
  using assms
  by (auto simp: hb_inner_poll_timeout_def checked_sub_def saturating_mul_def hb_update_last_write_def
      killed_def rpc_send_def wake_def split: if_splits)

lemma hb_reach_inv:
  "hb_reach t now b h \<Longrightarrow> hb_timeout b = Some t \<and> hb_last_write b \<le> now \<and> hb_last_read b \<le> now
    \<and> now \<le> hb_last_write b + t + one_ms \<and> now \<le> hb_last_read b + 4 * t + max t one_ms"
proof (induction rule: hb_reach.induct)
  case (hb_started b now h)
  then show ?case by auto
next
  case (hb_polled now b h d b' h' b'' h'')
  then have b: "hb_timeout b = Some t" "hb_last_write b \<le> now" "hb_last_read b \<le> now" by auto
  note p = hb_poll_Some[OF hb_polled.hyps(2) b(1,2)]
  show ?case using p hb_polled.hyps b by auto
qed



text \<open>
  C29: a connection whose server was silent for more than four timeouts is given up at the next poll: the
  kill switch that the socket loop checks is killed, the error is queued, and the task ends.
\<close>

theorem missing_heartbeat_detected:
  assumes "hb_timeout b = Some t" "4 * t \<le> duration_max" "hb_last_read b + 4 * t < now"
    and "hb_killswitch b < length (switches h)" "\<not> killed task_poison h" "cn_connected s"
    and "hb_poll_timeout now task_poison s b h = (r, b', h')"
  shows "r = None \<and> killed (hb_killswitch b) h' \<and> hb_timeout b' = None
    \<and> rpc h' = rpc h @ [Some (CmdSetConnectionError (error_of MissingHeartbeatError))]"
proof -
  have "saturating_mul t 4 = 4 * t" "now - hb_last_read b > 4 * t"
    using assms(2,3) by (simp_all add: saturating_mul_def)
  with assms show ?thesis
    by (auto simp: hb_poll_timeout_def hb_inner_poll_timeout_def killed_def switch_kill_def rpc_send_def wake_def)
qed

theorem missing_heartbeat_detected_witness:
  "let b = \<lparr>hb_killswitch = 0, hb_last_read = 0, hb_last_write = 0, hb_timeout = Some 30, hb_poison = 1\<rparr>;
       h = heap_empty\<lparr>switches := [False, False]\<rparr>;
       (r, b', h') = hb_poll_timeout 200 1 (connection_status_default\<lparr>cn_state := CsConnected\<rparr>) b h
   in r = None \<and> killed 0 h'"
proof -
  let ?b = "\<lparr>hb_killswitch = 0, hb_last_read = 0, hb_last_write = 0, hb_timeout = Some 30, hb_poison = 1\<rparr>"
  let ?h = "heap_empty\<lparr>switches := [False, False]\<rparr>"
  let ?s = "connection_status_default\<lparr>cn_state := CsConnected\<rparr>"
  obtain r b' h' where e: "hb_poll_timeout 200 1 ?s ?b ?h = (r, b', h')" by (rule prod_cases3)
  have "4 * 30 \<le> duration_max" by (simp add: duration_max_def)
  from missing_heartbeat_detected[OF _ this _ _ _ _ e]
  have "r = None \<and> killed 0 h'" by (simp add: killed_def cn_connected_def)
  then show ?thesis unfolding Let_def e by simp
qed

text \<open>A task that was started before a reset stops at its next poll.\<close>

lemma hb_reset_stops_old_task:
  assumes "hb_poison b < length (switches h)" "hb_reset now b h = (b', h')"
  shows "fst (hb_poll_timeout now' (hb_poison b) s b'' h') = None" "\<not> killed (hb_poison b') h'"
proof -
  have h': "switches h' = (switches h)[hb_killswitch b := False, hb_poison b := True] @ [False]"
    and p: "hb_poison b' = length (switches h)"
    using assms(2) by (auto simp: hb_reset_def hb_cancel_def switch_reset_def switch_kill_def switch_new_def
        hb_update_last_write_def hb_update_last_read_def Let_def)
  show "fst (hb_poll_timeout now' (hb_poison b) s b'' h') = None"
    using assms(1) by (simp add: hb_poll_timeout_def killed_def h' nth_append)
  show "\<not> killed (hb_poison b') h'" by (simp add: killed_def h' p nth_append)
qed

end
