(* ===== verification/Socket_Model.thy ===== *)
theory Socket_Model
  imports Store
begin

text \<open>
  Model of \<^verbatim>\<open>src/socket_state.rs\<close>: what the socket loop knows about its socket, and the events that wake it
  up.  The events wait in the store.  Waiting with no event blocks, which is \<^term>\<open>None\<close>.
\<close>

record socket_state =
  ss_readable :: bool
  ss_writable :: bool

definition socket_state_default :: socket_state where
  "socket_state_default = \<lparr>ss_readable = True, ss_writable = True\<rparr>"

definition handle_event :: "socket_event \<Rightarrow> socket_state \<Rightarrow> socket_state" where
  "handle_event e s =
    (case e of
       SocketReadable \<Rightarrow> s\<lparr>ss_readable := True\<rparr>
     | SocketWritable \<Rightarrow> s\<lparr>ss_writable := True\<rparr>
     | SocketWake \<Rightarrow> s)"

definition socket_wait :: "socket_state \<Rightarrow> 'a heap_scheme \<Rightarrow> (socket_state \<times> 'a heap_scheme) option" where
  "socket_wait s h =
    (case socket_events h of
       [] \<Rightarrow> None
     | e # es \<Rightarrow> Some (handle_event e s, h\<lparr>socket_events := es\<rparr>))"

definition socket_reset :: "socket_state \<Rightarrow> socket_state" where
  "socket_reset s = s\<lparr>ss_readable := True, ss_writable := True\<rparr>"

definition handle_read_poll :: "nat option \<Rightarrow> socket_state \<Rightarrow> nat option \<times> socket_state" where
  "handle_read_poll p s = (case p of Some n \<Rightarrow> (Some n, s) | None \<Rightarrow> (None, s\<lparr>ss_readable := False\<rparr>))"

definition handle_write_poll :: "'b option \<Rightarrow> socket_state \<Rightarrow> 'b option \<times> socket_state" where
  "handle_write_poll p s = (case p of Some n \<Rightarrow> (Some n, s) | None \<Rightarrow> (None, s\<lparr>ss_writable := False\<rparr>))"

definition handle_io_result ::
  "error + unit \<Rightarrow> socket_state \<Rightarrow> 'a heap_scheme \<Rightarrow> (error + unit) \<times> socket_state \<times> 'a heap_scheme" where
  "handle_io_result r s h =
    (case r of
       Inl e \<Rightarrow>
         if interrupted e then (Inr (), s, wake h)
         else if wouldblock e then (Inr (), s, h)
         else (Inl e, if is_io_error e then s\<lparr>ss_readable := False, ss_writable := False\<rparr> else s, h)
     | Inr _ \<Rightarrow> (Inr (), s, h))"

definition poll_events :: "socket_state \<Rightarrow> 'a heap_scheme \<Rightarrow> socket_state \<times> 'a heap_scheme" where
  "poll_events s h = (fold handle_event (socket_events h) s, h\<lparr>socket_events := []\<rparr>)"

definition socket_send :: "socket_event \<Rightarrow> 'a heap_scheme \<Rightarrow> 'a heap_scheme" where
  "socket_send e h = h\<lparr>socket_events := socket_events h @ [e]\<rparr>"

section \<open>No wake-up is lost\<close>

lemma fold_handle_event:
  "ss_readable (fold handle_event es s) = (ss_readable s \<or> SocketReadable \<in> set es)"
  "ss_writable (fold handle_event es s) = (ss_writable s \<or> SocketWritable \<in> set es)"
  by (induction es arbitrary: s) (auto simp: handle_event_def split: socket_event.split)

text \<open>
  An event sent before a poll of the events is seen by it, in any order with the others, and a loop that
  waits with an event pending does not block.
\<close>

lemma poll_events_sees_all:
  assumes "poll_events s h = (s', h')"
  shows "ss_readable s' = (ss_readable s \<or> SocketReadable \<in> set (socket_events h))"
    and "ss_writable s' = (ss_writable s \<or> SocketWritable \<in> set (socket_events h))"
    and "socket_events h' = []"
  using assms by (auto simp: poll_events_def fold_handle_event)

lemma socket_wait_blocks: "socket_wait s h = None \<longleftrightarrow> socket_events h = []"
  by (cases "socket_events h") (simp_all add: socket_wait_def)

lemma rpc_send_wakes: "socket_wait s (rpc_send c h) \<noteq> None"
  by (simp add: socket_wait_blocks rpc_send_def wake_def)

end
