(* ===== verification/Channel_Model.thy ===== *)
theory Channel_Model
  imports Consumers_Model Connection_State
begin

text \<open>
  Model of \<^verbatim>\<open>src/channel.rs\<close> but for the calls that only wrap a generated one.  The clones of a channel share
  their state, so a channel is an index into the store of channels.  The frames, the connection's status,
  the negotiated configuration and the events are shared by all channels: with the store of channels they
  are the world on which every operation works.

  The conversion of a reply code into an AMQP error belongs to the protocol crate and is the
  parameter \<^verbatim>\<open>error_kind_of\<close>.
\<close>

section \<open>Channels\<close>

record channel =
  ch_id :: channel_id
  ch_status :: channel_status
  ch_registry :: registry
  ch_acks :: acknowledgements
  ch_consumers :: consumer_table
  ch_get :: basic_get_delivery
  ch_returned :: returned_messages
  ch_auto_recover :: bool

record world = consumers_state +
  chan_objs :: "channel list"
  w_conn_status :: connection_status
  w_negotiated :: negotiated_config
  w_events :: events

definition channel_new :: "channel_id \<Rightarrow> bool \<Rightarrow> 'a world_scheme \<Rightarrow> nat \<times> 'a world_scheme" where
  "channel_new c auto_recover w =
    (let (s, w1) = channel_status_new c w
     in (length (chan_objs w1),
         w1\<lparr>chan_objs := chan_objs w1 @
           [\<lparr>ch_id = c, ch_status = s, ch_registry = registry_default, ch_acks = acks_new c,
             ch_consumers = [], ch_get = None, ch_returned = rm_default, ch_auto_recover = auto_recover\<rparr>]\<rparr>))"

text \<open>A channel that exists; an index always comes from \<^const>\<open>channel_new\<close>.\<close>

definition chan :: "nat \<Rightarrow> 'a world_scheme \<Rightarrow> channel" where
  "chan i w = chan_objs w ! i"

definition update_chan :: "nat \<Rightarrow> (channel \<Rightarrow> channel) \<Rightarrow> 'a world_scheme \<Rightarrow> 'a world_scheme" where
  "update_chan i f w = w\<lparr>chan_objs := (chan_objs w)[i := f (chan i w)]\<rparr>"

abbreviation chan_status :: "nat \<Rightarrow> 'a world_scheme \<Rightarrow> channel_status" where
  "chan_status i w \<equiv> ch_status (chan i w)"

definition update_status :: "nat \<Rightarrow> (channel_status \<Rightarrow> channel_status) \<Rightarrow> 'a world_scheme \<Rightarrow> 'a world_scheme" where
  "update_status i f = update_chan i (\<lambda>c. c\<lparr>ch_status := f (ch_status c)\<rparr>)"

definition update_registry :: "nat \<Rightarrow> (registry \<Rightarrow> registry) \<Rightarrow> 'a world_scheme \<Rightarrow> 'a world_scheme" where
  "update_registry i f = update_chan i (\<lambda>c. c\<lparr>ch_registry := f (ch_registry c)\<rparr>)"

definition set_acks :: "nat \<Rightarrow> acknowledgements \<Rightarrow> returned_messages \<Rightarrow> 'a world_scheme \<Rightarrow> 'a world_scheme" where
  "set_acks i a s = update_chan i (\<lambda>c. c\<lparr>ch_acks := a, ch_returned := s\<rparr>)"

definition set_consumers :: "nat \<Rightarrow> consumer_table \<Rightarrow> 'a world_scheme \<Rightarrow> 'a world_scheme" where
  "set_consumers i m = update_chan i (\<lambda>c. c\<lparr>ch_consumers := m\<rparr>)"

definition send_event :: "event \<Rightarrow> 'a world_scheme \<Rightarrow> 'a world_scheme" where
  "send_event e w = w\<lparr>w_events := events_send e (w_events w)\<rparr>"

text \<open>The outcome of a call up to its first wait: an error at once, or a promise it waits for.\<close>

datatype call_outcome = Failed error | Await nat

section \<open>Life cycle\<close>

definition wait_for_recovery :: "nat \<Rightarrow> error \<Rightarrow> 'a world_scheme \<Rightarrow> (error, unit) poll" where
  "wait_for_recovery i e w =
    (case (can_recover (ch_auto_recover (chan i w)) e, notifier e) of
       (True, Some n) \<Rightarrow> if notifier_ready n w then Ready (Inr ()) else Pending
     | _ \<Rightarrow> Ready (Inl e))"

definition error_publisher_confirms :: "nat \<Rightarrow> error \<Rightarrow> 'a world_scheme \<Rightarrow> 'a world_scheme" where
  "error_publisher_confirms i e w =
    (let (a, s, w1) = acks_on_channel_error e (ch_acks (chan i w)) (ch_returned (chan i w)) w
     in set_acks i a s w1)"

definition cancel_consumers :: "nat \<Rightarrow> 'a world_scheme \<Rightarrow> 'a world_scheme" where
  "cancel_consumers i w = (let (m, w1) = consumers_cancel (ch_consumers (chan i w)) w in set_consumers i m w1)"

definition error_consumers :: "nat \<Rightarrow> error \<Rightarrow> 'a world_scheme \<Rightarrow> 'a world_scheme" where
  "error_consumers i e w =
    (let recover = can_recover (ch_auto_recover (chan i w)) e;
         (m, w1) = consumers_error e recover (ch_consumers (chan i w)) w
     in set_consumers i m w1)"

definition channel_set_state :: "nat \<Rightarrow> channel_state \<Rightarrow> 'a world_scheme \<Rightarrow> 'a world_scheme" where
  "channel_set_state i x = update_status i (set_state x)"

definition channel_set_closing :: "nat \<Rightarrow> error option \<Rightarrow> 'a world_scheme \<Rightarrow> 'a world_scheme" where
  "channel_set_closing i err w =
    (let w1 = channel_set_state i ChClosing w
     in (case err of
           Some e \<Rightarrow> error_consumers i e (error_publisher_confirms i e w1)
         | None \<Rightarrow> consumers_start_cancel (ch_consumers (chan i w1)) w1))"

definition channel_set_closed :: "nat \<Rightarrow> error \<Rightarrow> 'a world_scheme \<Rightarrow> 'a world_scheme" where
  "channel_set_closed i e w =
    (let w1 = cancel_consumers i (error_publisher_confirms i e (channel_set_state i ChClosed w))
     in rpc_send (CmdRemoveChannel (ch_id (chan i w1)) e) w1)"

definition channel_set_connection_error :: "nat \<Rightarrow> error \<Rightarrow> 'a world_scheme \<Rightarrow> 'a world_scheme" where
  "channel_set_connection_error i e w =
    (let w1 = error_consumers i e (error_publisher_confirms i e (channel_set_state i ChError w))
     in rpc_send (CmdRemoveChannel (ch_id (chan i w1)) e) w1)"

definition channel_finalize_connection :: "nat \<Rightarrow> 'a world_scheme \<Rightarrow> 'a world_scheme" where
  "channel_finalize_connection i w =
    (let (s, w1) = finalize_connection (chan_status i w) w in update_status i (\<lambda>_. s) w1)"

definition topology :: "nat \<Rightarrow> 'a world_scheme \<Rightarrow> channel_definition" where
  "topology i w =
    \<lparr>cd_exchanges = exchanges_topology (ch_registry (chan i w)),
     cd_queues = queues_topology (ch_registry (chan i w)),
     cd_consumers = consumers_topology (ch_consumers (chan i w))\<rparr>"

definition channel_poison :: "nat \<Rightarrow> error \<Rightarrow> 'a world_scheme \<Rightarrow> 'a world_scheme" where
  "channel_poison i e w = poison_channel (ch_id (chan i w)) e w"

definition init_recovery :: "nat \<Rightarrow> error \<Rightarrow> 'a world_scheme \<Rightarrow> error \<times> 'a world_scheme" where
  "init_recovery i e w =
    (let (err, s, w1) = set_reconnecting e (topology i w) (chan_status i w) w;
         w2 = update_status i (\<lambda>_. s) w1;
         w3 = drop_frames_for_channel (ch_id (chan i w2)) err w2
     in (err, channel_poison i err w3))"

definition update_recovery :: "nat \<Rightarrow> 'a world_scheme \<Rightarrow> channel_definition option \<times> 'a world_scheme" where
  "update_recovery i w =
    (case st_recovery_context (chan_status i w) of
       None \<Rightarrow> (None, w)
     | Some ctx \<Rightarrow>
         let c = ch_id (chan i w);
             (xs, w1) = take_expected_replies c w;
             ctx1 = set_expected_replies xs ctx;
             (a, s, w2) = acks_reset (rc_cause ctx1) (ch_acks (chan i w1)) (ch_returned (chan i w1)) w1;
             w3 = drop_channel_poison c (set_acks i a s w2)
         in (Some (rc_topology ctx1), update_status i (\<lambda>st. st\<lparr>st_recovery_context := Some ctx1\<rparr>) w3))"

section \<open>Sending\<close>

definition send_frame ::
  "nat \<Rightarrow> amqp_frame \<Rightarrow> nat \<Rightarrow> expected_reply option \<Rightarrow> nat option \<Rightarrow> 'a world_scheme \<Rightarrow> 'a world_scheme" where
  "send_frame i f canceler expected resolver w = wake (push (ch_id (chan i w)) f canceler expected resolver w)"

definition send_method_frame ::
  "nat \<Rightarrow> amqp_class \<Rightarrow> nat \<Rightarrow> expected_reply option \<Rightarrow> nat option \<Rightarrow> 'a world_scheme \<Rightarrow> 'a world_scheme" where
  "send_method_frame i m canceler expected resolver w =
    send_frame i (Method (ch_id (chan i w)) m) canceler expected resolver w"

text \<open>\<^verbatim>\<open>slice::chunks\<close> of the standard library, for a chunk size that is not zero.\<close>

function chunks :: "nat \<Rightarrow> 'b list \<Rightarrow> 'b list list" where
  "chunks n xs = (if xs = [] \<or> n = 0 then [] else take n xs # chunks n (drop n xs))"
  by pat_completeness auto
termination
  by (relation "measure (\<lambda>(n, xs). length xs)") auto

declare chunks.simps [simp del]

definition chunk_size :: "frame_size \<Rightarrow> nat" where
  "chunk_size frame_max = max (unat frame_max - 8) 1"

definition publish_frames_of ::
  "channel_id \<Rightarrow> frame_size \<Rightarrow> amqp_class \<Rightarrow> byte list \<Rightarrow> basic_properties \<Rightarrow> amqp_frame list" where
  "publish_frames_of c frame_max m payload props =
    [Method c m,
     Header c \<lparr>header_class_id = get_amqp_class_id m, header_body_size = of_nat (length payload),
               header_properties = props\<rparr>]
    @ map (Body c) (chunks (chunk_size frame_max) payload)"

text \<open>
  The part before the wait; the confirm that is returned afterwards is the one registered before, or
  one that was not requested.
\<close>

definition send_method_frame_with_body ::
  "nat \<Rightarrow> amqp_class \<Rightarrow> byte list \<Rightarrow> basic_properties \<Rightarrow> 'a world_scheme \<Rightarrow> nat \<times> 'a world_scheme" where
  "send_method_frame_with_body i m payload props w =
    (let c = ch_id (chan i w);
         fs = publish_frames_of c (nc_frame_max (w_negotiated w)) m payload props;
         (p, w1) = promise_new w
     in (p, wake (push_frames c fs p w1)))"

definition publish_confirm :: "publisher_confirm option \<Rightarrow> 'a world_scheme \<Rightarrow> publisher_confirm \<times> 'a world_scheme" where
  "publish_confirm r w = (case r of Some c \<Rightarrow> (c, w) | None \<Rightarrow> publisher_confirm_not_requested w)"

section \<open>Protocol violations\<close>

definition assert_channel0 :: "nat \<Rightarrow> 16 word \<Rightarrow> 16 word \<Rightarrow> 'a world_scheme \<Rightarrow> (error + unit) \<times> 'a world_scheme" where
  "assert_channel0 i class_id method_id w =
    (if ch_id (chan i w) = 0 then (Inr (), w)
     else let e = \<lparr>ae_kind = command_invalid,
                   ae_message = ''connection frame received on channel '' @ show_word (ch_id (chan i w))\<rparr>
          in (Inl (error_of (ProtocolError e)),
              rpc_close_connection (get_id e) (ae_message e) class_id method_id w))"

definition report_protocol_violation ::
  "nat \<Rightarrow> amqp_error \<Rightarrow> 16 word \<Rightarrow> 16 word \<Rightarrow> 'a world_scheme \<Rightarrow> (error + unit) \<times> 'a world_scheme" where
  "report_protocol_violation i e class_id method_id w =
    (let err = error_of (ProtocolError e)
     in (Inl err,
         rpc_send (CmdSetConnectionError err)
           (rpc_close_connection (get_id e) (ae_message e) class_id method_id w)))"

definition handle_invalid_contents ::
  "nat \<Rightarrow> string \<Rightarrow> 16 word \<Rightarrow> 16 word \<Rightarrow> 'a world_scheme \<Rightarrow> (error + unit) \<times> 'a world_scheme" where
  "handle_invalid_contents i msg =
    report_protocol_violation i \<lparr>ae_kind = unexpected_frame, ae_message = msg\<rparr>"

section \<open>Content\<close>

definition chan_get_frame ::
  "nat \<Rightarrow> (basic_get_delivery \<times> 'a world_scheme \<Rightarrow> basic_get_delivery \<times> 'a world_scheme)
    \<Rightarrow> 'a world_scheme \<Rightarrow> 'a world_scheme" where
  "chan_get_frame i f w = (let (g, w1) = f (ch_get (chan i w), w) in update_chan i (\<lambda>c. c\<lparr>ch_get := g\<rparr>) w1)"

definition handle_content_header_frame ::
  "nat \<Rightarrow> 16 word \<Rightarrow> payload_size \<Rightarrow> basic_properties \<Rightarrow> 'a world_scheme \<Rightarrow> (error + unit) \<times> 'a world_scheme" where
  "handle_content_header_frame i class_id sz props w =
    (let (r, s, w1) = set_content_length (ch_id (chan i w)) class_id sz
           (\<lambda>cause confirm_mode w.
              case cause of
                CauseConsume tag \<Rightarrow> consumers_handle_content_header_frame tag sz props (ch_consumers (chan i w)) w
              | CauseGet \<Rightarrow> chan_get_frame i (get_handle_content_header_frame sz props) w
              | CauseReturn \<Rightarrow>
                  update_chan i (\<lambda>c. c\<lparr>ch_returned :=
                    rm_handle_content_header_frame sz props confirm_mode (ch_returned c)\<rparr>) w)
           (\<lambda>msg. report_protocol_violation i \<lparr>ae_kind = frame_error, ae_message = msg\<rparr> class_id 0)
           (\<lambda>msg. handle_invalid_contents i msg class_id 0)
           (chan_status i w) w
     in (r, update_status i (\<lambda>_. s) w1))"

definition handle_body_frame :: "nat \<Rightarrow> byte list \<Rightarrow> 'a world_scheme \<Rightarrow> (error + unit) \<times> 'a world_scheme" where
  "handle_body_frame i payload w =
    (let (r, s, w1) = st_receive (ch_id (chan i w)) (of_nat (length payload))
           (\<lambda>cause remaining confirm_mode w.
              case cause of
                CauseConsume tag \<Rightarrow> consumers_handle_body_frame tag remaining payload (ch_consumers (chan i w)) w
              | CauseGet \<Rightarrow> chan_get_frame i (get_handle_body_frame remaining payload) w
              | CauseReturn \<Rightarrow>
                  update_chan i (\<lambda>c. c\<lparr>ch_returned :=
                    rm_handle_body_frame remaining payload confirm_mode (ch_returned c)\<rparr>) w)
           (\<lambda>msg. handle_invalid_contents i msg 0 0)
           (chan_status i w) w
     in (r, update_status i (\<lambda>_. s) w1))"

section \<open>Hooks around the methods that are sent\<close>

definition before_basic_publish :: "nat \<Rightarrow> 'a world_scheme \<Rightarrow> publisher_confirm option \<times> 'a world_scheme" where
  "before_basic_publish i w =
    (if st_confirm (chan_status i w)
     then let (c, a, w1) = register_pending (ch_acks (chan i w)) w
          in (Some c, update_chan i (\<lambda>ch. ch\<lparr>ch_acks := a\<rparr>) w1)
     else (None, w))"

definition before_basic_cancel :: "nat \<Rightarrow> short_string \<Rightarrow> 'a world_scheme \<Rightarrow> 'a world_scheme" where
  "before_basic_cancel i tag w = consumers_start_cancel_one tag (ch_consumers (chan i w)) w"

definition before_channel_close :: "nat \<Rightarrow> 'a world_scheme \<Rightarrow> 'a world_scheme" where
  "before_channel_close i = channel_set_closing i None"

definition on_connection_close_ok_sent :: "nat \<Rightarrow> error \<Rightarrow> 'a world_scheme \<Rightarrow> 'a world_scheme" where
  "on_connection_close_ok_sent i e w =
    (let w1 = rpc_send CmdFinishConnectionShutdown w
     in if \<not> can_recover (ch_auto_recover (chan i w)) e
        then if is_amqp_error e then rpc_send (CmdSetConnectionError e) w1
             else rpc_send (CmdSetConnectionClosed e) w1
        else w1)"

definition on_channel_close_ok_sent :: "nat \<Rightarrow> error option \<Rightarrow> 'a world_scheme \<Rightarrow> 'a world_scheme" where
  "on_channel_close_ok_sent i err w =
    (let e = (case err of Some e \<Rightarrow> e
              | None \<Rightarrow> error_of (InvalidChannelState ChClosing ''channel.close-ok sent''));
         w1 = channel_set_closed i e (channel_poison i e w)
     in (case err of Some e \<Rightarrow> send_event (EventError e) w1 | None \<Rightarrow> w1))"

definition chan_drop_prefetched :: "nat \<Rightarrow> 'a world_scheme \<Rightarrow> 'a world_scheme" where
  "chan_drop_prefetched i w = consumers_drop_prefetched_messages (ch_consumers (chan i w)) w"

definition on_basic_recover_async_sent :: "nat \<Rightarrow> 'a world_scheme \<Rightarrow> 'a world_scheme" where
  "on_basic_recover_async_sent = chan_drop_prefetched"

definition on_basic_ack_sent :: "nat \<Rightarrow> bool \<Rightarrow> delivery_tag \<Rightarrow> 'a world_scheme \<Rightarrow> 'a world_scheme" where
  "on_basic_ack_sent i multiple t w = (if multiple \<and> t = 0 then chan_drop_prefetched i w else w)"

definition on_basic_nack_sent :: "nat \<Rightarrow> bool \<Rightarrow> delivery_tag \<Rightarrow> 'a world_scheme \<Rightarrow> 'a world_scheme" where
  "on_basic_nack_sent i multiple t w = (if multiple \<and> t = 0 then chan_drop_prefetched i w else w)"

section \<open>The handshake\<close>

definition tune_connection_configuration ::
  "channel_id \<Rightarrow> frame_size \<Rightarrow> heartbeat_secs \<Rightarrow> negotiated_config \<Rightarrow> negotiated_config" where
  "tune_connection_configuration channel_max frame_max heartbeat_interval n =
    (let n1 = (if nc_heartbeat n = 0 \<or> (heartbeat_interval \<noteq> 0 \<and> heartbeat_interval < nc_heartbeat n)
               then set_heartbeat heartbeat_interval n else n);
         n2 = (if channel_max \<noteq> 0
               then if nc_channel_max n1 = 0 \<or> channel_max < nc_channel_max n1
                    then set_channel_max channel_max n1 else n1
               else n1);
         n3 = (if nc_channel_max n2 = 0 then set_channel_max (- 1) n2 else n2);
         n4 = (if frame_max \<noteq> 0
               then if nc_frame_max n3 = 0 \<or> frame_max < nc_frame_max n3
                    then set_frame_max frame_max n3 else n3
               else n3)
     in if nc_frame_max n4 = 0 then set_frame_max (- 1) n4 else n4)"

definition connection_process_error ::
  "connection_state \<Rightarrow> connection_step option \<Rightarrow> nat option \<Rightarrow> 'a world_scheme \<Rightarrow> (error + unit) \<times> 'a world_scheme" where
  "connection_process_error state step resolver w =
    (let e = error_of (InvalidConnectionState state);
         w1 = rpc_send (CmdSetConnectionError e) w;
         w2 = (case step of Some s \<Rightarrow> promise_reject (into_connection_resolver s) e w1 | None \<Rightarrow> w1);
         w3 = (case resolver of Some r \<Rightarrow> promise_reject r e w2 | None \<Rightarrow> w2)
     in (Inl e, w3))"

definition client_capabilities :: field_table where
  "client_capabilities = fold (\<lambda>k. table_insert k (Boolean True))
    [''publisher_confirms'', ''exchange_exchange_bindings'', ''basic.nack'', ''consumer_cancel_notify'',
     ''connection.blocked'', ''consumer_priorities'', ''authentication_failure_close'',
     ''per_consumer_qos'', ''direct_reply_to''] []"

definition start_client_properties :: "field_table \<Rightarrow> field_table" where
  "start_client_properties t =
    (let t1 = (if \<not> table_contains ''product'' t \<or> \<not> table_contains ''version'' t
               then table_insert ''version'' (LongString ''4.11.0'')
                      (table_insert ''product'' (LongString ''lapin'') t)
               else t);
         t2 = table_insert ''platform'' (LongString ''rust'') t1
     in table_insert ''capabilities'' (FieldTable client_capabilities) t2)"

text \<open>An unsupported mechanism or locale is only logged.\<close>

definition on_connection_start_received ::
  "nat \<Rightarrow> string \<Rightarrow> string \<Rightarrow> connection_step \<Rightarrow> 'a world_scheme \<Rightarrow> (error + unit) \<times> 'a world_scheme" where
  "on_connection_start_received i mechanisms locales step w =
    (let state = cn_state (w_conn_status w) in
     if state \<noteq> CsConnecting then connection_process_error state (Some step) None w
     else (case step of
        StepProtocolHeader resolver con \<Rightarrow>
          let auth = conn_auth_provider con;
              con1 = con\<lparr>conn_client_properties := start_client_properties (conn_client_properties con)\<rparr>
          in (case auth_starter auth of
                Inl msg \<Rightarrow> (Inl (error_of (AuthProviderError msg)), w)
              | Inr response \<Rightarrow>
                  (Inr (),
                   rpc_spawn (FutConnectionStartOk i (conn_client_properties con1) (auth_mechanism auth)
                     response (conn_locale con1) resolver con1 auth) w))
      | _ \<Rightarrow> connection_process_error state (Some step) None w))"

definition on_connection_secure_received ::
  "nat \<Rightarrow> string \<Rightarrow> connection_step \<Rightarrow> 'a world_scheme \<Rightarrow> (error + unit) \<times> 'a world_scheme" where
  "on_connection_secure_received i challenge step w =
    (let state = cn_state (w_conn_status w);
         answer = (\<lambda>resolver con auth.
           case auth_continue auth challenge of
             Inl msg \<Rightarrow> (Inl (error_of (AuthProviderError msg)), w)
           | Inr response \<Rightarrow> (Inr (), rpc_spawn (FutConnectionSecureOk i response resolver con auth) w))
     in if state \<noteq> CsConnecting then connection_process_error state (Some step) None w
        else (case step of
           StepStartOk resolver con auth \<Rightarrow> answer resolver con auth
         | StepSecureOk resolver con auth \<Rightarrow> answer resolver con auth
         | _ \<Rightarrow> connection_process_error state (Some step) None w))"

definition on_connection_tune_received ::
  "nat \<Rightarrow> channel_id \<Rightarrow> frame_size \<Rightarrow> heartbeat_secs \<Rightarrow> connection_step \<Rightarrow> 'a world_scheme
    \<Rightarrow> (error + unit) \<times> 'a world_scheme" where
  "on_connection_tune_received i channel_max frame_max heartbeat_interval step w =
    (let state = cn_state (w_conn_status w);
         tune = (\<lambda>resolver con.
           (Inr (), rpc_spawn (FutConnectionTuneOk i resolver con)
             (w\<lparr>w_negotiated := tune_connection_configuration channel_max frame_max heartbeat_interval
                  (w_negotiated w)\<rparr>)))
     in if state \<noteq> CsConnecting then connection_process_error state (Some step) None w
        else (case step of
           StepStartOk resolver con _ \<Rightarrow> tune resolver con
         | StepSecureOk resolver con _ \<Rightarrow> tune resolver con
         | _ \<Rightarrow> connection_process_error state (Some step) None w))"

definition on_connection_open_ok_received ::
  "nat \<Rightarrow> connection \<Rightarrow> nat \<Rightarrow> 'a world_scheme \<Rightarrow> (error + unit) \<times> 'a world_scheme" where
  "on_connection_open_ok_received i con resolver w =
    (let state = cn_state (w_conn_status w) in
     if state \<noteq> CsConnecting then connection_process_error state None (Some resolver) w
     else let w1 = w\<lparr>w_conn_status := snd (cn_set_state CsConnected (w_conn_status w))\<rparr>
          in (Inr (), send_event EventConnected (promise_resolve resolver (VConnection con) w1)))"

section \<open>What the server's methods do\<close>

text \<open>The AMQP error of a close method, when its code is one of an error.\<close>

definition close_error :: "(reply_code \<Rightarrow> amqp_error_kind option) \<Rightarrow> reply_code \<Rightarrow> short_string \<Rightarrow> error option" where
  "close_error error_kind_of code text =
    map_option (\<lambda>k. error_of (ProtocolError \<lparr>ae_kind = k, ae_message = text\<rparr>)) (error_kind_of code)"

definition on_connection_close_received ::
  "(reply_code \<Rightarrow> amqp_error_kind option) \<Rightarrow> nat \<Rightarrow> reply_code \<Rightarrow> short_string \<Rightarrow> 'a world_scheme
    \<Rightarrow> (error + unit) \<times> 'a world_scheme" where
  "on_connection_close_received error_kind_of i code text w =
    (let e = (case close_error error_kind_of code text of
                Some e \<Rightarrow> e | None \<Rightarrow> error_of (InvalidConnectionState CsClosed));
         w1 = (if can_recover (ch_auto_recover (chan i w)) e
               then rpc_send (CmdInitConnectionRecovery e) w
               else let (r, w0) = connection_resolver (ch_id (chan i w)) w
                    in rpc_init_connection_shutdown e r w0)
     in (Inr (), rpc_send (CmdSendConnectionCloseOk e) w1))"

definition on_connection_blocked_received :: "short_string \<Rightarrow> 'a world_scheme \<Rightarrow> (error + unit) \<times> 'a world_scheme" where
  "on_connection_blocked_received reason w =
    (Inr (), send_event (EventConnectionBlocked reason) (w\<lparr>w_conn_status := cn_block (w_conn_status w)\<rparr>))"

definition on_connection_unblocked_received :: "'a world_scheme \<Rightarrow> (error + unit) \<times> 'a world_scheme" where
  "on_connection_unblocked_received w =
    (Inr (), wake (send_event EventConnectionUnblocked (w\<lparr>w_conn_status := cn_unblock (w_conn_status w)\<rparr>)))"

definition on_connection_close_ok_received :: "'a world_scheme \<Rightarrow> (error + unit) \<times> 'a world_scheme" where
  "on_connection_close_ok_received w =
    (Inr (), rpc_send (CmdSetConnectionClosed (error_of (InvalidConnectionState CsClosed))) w)"

definition on_channel_open_ok_received ::
  "nat \<Rightarrow> nat \<Rightarrow> nat \<Rightarrow> 'a world_scheme \<Rightarrow> (error + unit) \<times> 'a world_scheme" where
  "on_channel_open_ok_received i resolver opened w =
    (let w1 = (if \<not> st_confirm (chan_status i w) then channel_finalize_connection i w else w)
     in (Inr (), promise_resolve resolver (VChannel opened) w1))"

definition on_channel_flow_received :: "nat \<Rightarrow> bool \<Rightarrow> 'a world_scheme \<Rightarrow> (error + unit) \<times> 'a world_scheme" where
  "on_channel_flow_received i active w =
    (Inr (), rpc_spawn (FutChannelFlowOk i active)
       (send_event (EventSendFlow active) (update_status i (set_send_flow active) w)))"

definition on_channel_flow_ok_received :: "bool \<Rightarrow> nat \<Rightarrow> 'a world_scheme \<Rightarrow> (error + unit) \<times> 'a world_scheme" where
  "on_channel_flow_ok_received active resolver w = (Inr (), promise_resolve resolver (VBool active) w)"

definition on_channel_close_received ::
  "(reply_code \<Rightarrow> amqp_error_kind option) \<Rightarrow> nat \<Rightarrow> reply_code \<Rightarrow> short_string \<Rightarrow> 'a world_scheme
    \<Rightarrow> (error + unit) \<times> 'a world_scheme" where
  "on_channel_close_received error_kind_of i code text w =
    (let err = close_error error_kind_of code text
     in (Inr (), rpc_spawn (FutChannelCloseOk i err) (channel_set_closing i err w)))"

definition on_channel_close_ok_received :: "nat \<Rightarrow> 'a world_scheme \<Rightarrow> (error + unit) \<times> 'a world_scheme" where
  "on_channel_close_ok_received i w =
    (Inr (), channel_set_closed i (error_of (InvalidChannelState ChClosed ''channel.close-ok received'')) w)"

definition channel_next_expected_close_ok_reply :: "nat \<Rightarrow> 'a world_scheme \<Rightarrow> reply option \<times> 'a world_scheme" where
  "channel_next_expected_close_ok_reply i w =
    next_expected_close_ok_reply (ch_id (chan i w))
      (error_of (InvalidChannelState ChClosed ''unexpected channel.close-ok received'')) w"

definition on_exchange_bind_ok_received ::
  "nat \<Rightarrow> short_string \<Rightarrow> short_string \<Rightarrow> short_string \<Rightarrow> field_table \<Rightarrow> 'a world_scheme \<Rightarrow> (error + unit) \<times> 'a world_scheme" where
  "on_exchange_bind_ok_received i dest src key args w =
    (Inr (), update_registry i (register_exchange_binding dest src key args) w)"

definition on_exchange_unbind_ok_received ::
  "nat \<Rightarrow> short_string \<Rightarrow> short_string \<Rightarrow> short_string \<Rightarrow> field_table \<Rightarrow> 'a world_scheme \<Rightarrow> (error + unit) \<times> 'a world_scheme" where
  "on_exchange_unbind_ok_received i dest src key args w =
    (Inr (), update_registry i (deregister_exchange_binding dest src key args) w)"

definition on_exchange_declare_ok_received ::
  "nat \<Rightarrow> nat \<Rightarrow> short_string \<Rightarrow> exchange_kind \<Rightarrow> exchange_declare_options \<Rightarrow> field_table \<Rightarrow> 'a world_scheme
    \<Rightarrow> (error + unit) \<times> 'a world_scheme" where
  "on_exchange_declare_ok_received i resolver name kd opts args w =
    (Inr (), promise_resolve resolver VUnit (update_registry i (register_exchange name kd opts args) w))"

definition on_exchange_delete_ok_received :: "nat \<Rightarrow> short_string \<Rightarrow> 'a world_scheme \<Rightarrow> (error + unit) \<times> 'a world_scheme" where
  "on_exchange_delete_ok_received i name w = (Inr (), update_registry i (deregister_exchange name) w)"

definition on_queue_delete_ok_received ::
  "nat \<Rightarrow> message_count \<Rightarrow> nat \<Rightarrow> short_string \<Rightarrow> 'a world_scheme \<Rightarrow> (error + unit) \<times> 'a world_scheme" where
  "on_queue_delete_ok_received i n resolver name w =
    (Inr (), promise_resolve resolver (VCount n) (update_registry i (deregister_queue name) w))"

definition on_queue_purge_ok_received :: "message_count \<Rightarrow> nat \<Rightarrow> 'a world_scheme \<Rightarrow> (error + unit) \<times> 'a world_scheme" where
  "on_queue_purge_ok_received n resolver w = (Inr (), promise_resolve resolver (VCount n) w)"

definition on_queue_declare_ok_received ::
  "nat \<Rightarrow> short_string \<Rightarrow> message_count \<Rightarrow> message_count \<Rightarrow> nat \<Rightarrow> queue_declare_options \<Rightarrow> field_table
    \<Rightarrow> 'a world_scheme \<Rightarrow> (error + unit) \<times> 'a world_scheme" where
  "on_queue_declare_ok_received i name n consumers_n resolver opts args w =
    (Inr (),
     promise_resolve resolver
       (VQueue \<lparr>queue_info_name = name, queue_info_message_count = n, queue_info_consumer_count = consumers_n\<rparr>)
       (update_registry i (register_queue name opts args) w))"

definition on_queue_bind_ok_received ::
  "nat \<Rightarrow> short_string \<Rightarrow> short_string \<Rightarrow> short_string \<Rightarrow> field_table \<Rightarrow> 'a world_scheme \<Rightarrow> (error + unit) \<times> 'a world_scheme" where
  "on_queue_bind_ok_received i name exchange key args w =
    (Inr (), update_registry i (register_queue_binding name exchange key args) w)"

definition on_queue_unbind_ok_received ::
  "nat \<Rightarrow> short_string \<Rightarrow> short_string \<Rightarrow> short_string \<Rightarrow> field_table \<Rightarrow> 'a world_scheme \<Rightarrow> (error + unit) \<times> 'a world_scheme" where
  "on_queue_unbind_ok_received i name exchange key args w =
    (Inr (), update_registry i (deregister_queue_binding name exchange key args) w)"

text \<open>The class number of the basic methods, which content headers repeat.\<close>

definition chan_will_receive :: "nat \<Rightarrow> delivery_cause \<Rightarrow> 'a world_scheme \<Rightarrow> nat \<times> 'a world_scheme" where
  "chan_will_receive i cause w =
    (let (k, s) = set_will_receive 60 cause (chan_status i w) in (k, update_status i (\<lambda>_. s) w))"

definition on_basic_get_ok_received ::
  "nat \<Rightarrow> delivery_tag \<Rightarrow> bool \<Rightarrow> short_string \<Rightarrow> short_string \<Rightarrow> message_count \<Rightarrow> nat \<Rightarrow> 'a world_scheme
    \<Rightarrow> (error + unit) \<times> 'a world_scheme" where
  "on_basic_get_ok_received i t redelivered exchange key n resolver w =
    (let (k, w1) = chan_will_receive i CauseGet w;
         (m, w2) = basic_get_message_new (ch_id (chan i w)) t exchange key redelivered n k w1
     in (Inr (), update_chan i (\<lambda>c. c\<lparr>ch_get := get_start_new_delivery m resolver (ch_get c)\<rparr>) w2))"

definition on_basic_get_empty_received :: "nat \<Rightarrow> 'a world_scheme \<Rightarrow> (error + unit) \<times> 'a world_scheme" where
  "on_basic_get_empty_received i w =
    (case find_expected_reply (ch_id (chan i w))
            (\<lambda>x. case reply_of x of ReplyBasicGetOk _ \<Rightarrow> True | _ \<Rightarrow> False) w of
       (Some (ReplyBasicGetOk resolver), w1) \<Rightarrow> (Inr (), promise_resolve resolver (VGet None) w1)
     | (_, w1) \<Rightarrow>
         handle_invalid_contents i
           (''unexpected basic get empty received on channel '' @ show_word (ch_id (chan i w)))
           (get_amqp_class_id (Basic BasicGetEmpty)) (get_amqp_method_id (Basic BasicGetEmpty)) w1)"

definition on_basic_consume_ok_received ::
  "nat \<Rightarrow> short_string \<Rightarrow> nat \<Rightarrow> short_string \<Rightarrow> basic_consume_options \<Rightarrow> field_table \<Rightarrow> nat option \<Rightarrow> 'a world_scheme
    \<Rightarrow> (error + unit) \<times> 'a world_scheme" where
  "on_basic_consume_ok_received i tag resolver queue_name opts args original w =
    (let (x, w1) = (case original of Some x \<Rightarrow> (x, w) | None \<Rightarrow> consumer_new tag queue_name opts args w);
         w2 = set_consumers i (consumers_register tag x (ch_consumers (chan i w1))) w1
     in (Inr (), promise_resolve resolver (VConsumer x) w2))"

definition on_basic_deliver_received ::
  "nat \<Rightarrow> short_string \<Rightarrow> delivery_tag \<Rightarrow> bool \<Rightarrow> short_string \<Rightarrow> short_string \<Rightarrow> 'a world_scheme
    \<Rightarrow> (error + unit) \<times> 'a world_scheme" where
  "on_basic_deliver_received i tag t redelivered exchange key w =
    (let (k, w1) = chan_will_receive i (CauseConsume tag) w
     in (Inr (), consumers_start_delivery tag
           (\<lambda>e. delivery_new (ch_id (chan i w)) t exchange key redelivered True (Some e) k)
           (ch_consumers (chan i w1)) w1))"

definition deregister_consumer :: "nat \<Rightarrow> short_string \<Rightarrow> 'a world_scheme \<Rightarrow> 'a world_scheme" where
  "deregister_consumer i tag w =
    (let (m, w1) = consumers_deregister tag (ch_consumers (chan i w)) w in set_consumers i m w1)"

definition on_basic_cancel_received ::
  "nat \<Rightarrow> short_string \<Rightarrow> bool \<Rightarrow> 'a world_scheme \<Rightarrow> (error + unit) \<times> 'a world_scheme" where
  "on_basic_cancel_received i tag nowait w =
    (let w1 = deregister_consumer i tag w
     in (Inr (), if \<not> nowait then rpc_spawn (FutBasicCancelOk i tag) w1 else w1))"

definition on_basic_cancel_ok_received :: "nat \<Rightarrow> short_string \<Rightarrow> 'a world_scheme \<Rightarrow> (error + unit) \<times> 'a world_scheme" where
  "on_basic_cancel_ok_received i tag w = (Inr (), deregister_consumer i tag w)"

definition acknowledgement_error ::
  "nat \<Rightarrow> amqp_error \<Rightarrow> 16 word \<Rightarrow> 16 word \<Rightarrow> 'a world_scheme \<Rightarrow> (error + unit) \<times> 'a world_scheme" where
  "acknowledgement_error i e class_id method_id w =
    (Inl (error_of (ProtocolError e)),
     rpc_spawn (FutChannelClose i (get_id e) (ae_message e) class_id method_id) w)"

text \<open>The common part of \<^verbatim>\<open>on_basic_ack_received\<close> and \<^verbatim>\<open>on_basic_nack_received\<close>.\<close>

definition on_confirmation_received ::
  "nat \<Rightarrow> bool \<Rightarrow> delivery_tag \<Rightarrow> bool \<Rightarrow> amqp_class \<Rightarrow> 'a world_scheme \<Rightarrow> (error + unit) \<times> 'a world_scheme" where
  "on_confirmation_received i success t multiple m w =
    (if \<not> st_confirm (chan_status i w) then (Inr (), w)
     else
       let st = (ch_acks (chan i w), ch_returned (chan i w), w);
           (r, a, s, w1) =
             (if multiple
              then if t > 0 then complete_pending_before t success st
                   else (Inr (), drop_all success (fst st) (snd st))
              else drop_pending t success st);
           w2 = set_acks i a s w1
       in (case r of
             Inl e \<Rightarrow> acknowledgement_error i e (get_amqp_class_id m) (get_amqp_method_id m) w2
           | Inr _ \<Rightarrow> (Inr (), w2)))"

definition on_basic_ack_received ::
  "nat \<Rightarrow> delivery_tag \<Rightarrow> bool \<Rightarrow> 'a world_scheme \<Rightarrow> (error + unit) \<times> 'a world_scheme" where
  "on_basic_ack_received i t multiple = on_confirmation_received i True t multiple (Basic (BasicAck t multiple))"

definition on_basic_nack_received ::
  "nat \<Rightarrow> delivery_tag \<Rightarrow> bool \<Rightarrow> bool \<Rightarrow> 'a world_scheme \<Rightarrow> (error + unit) \<times> 'a world_scheme" where
  "on_basic_nack_received i t multiple requeue =
    on_confirmation_received i False t multiple (Basic (BasicNack t multiple requeue))"

definition on_basic_return_received ::
  "nat \<Rightarrow> reply_code \<Rightarrow> short_string \<Rightarrow> short_string \<Rightarrow> short_string \<Rightarrow> 'a world_scheme \<Rightarrow> (error + unit) \<times> 'a world_scheme" where
  "on_basic_return_received i code text exchange key w =
    (let (k, w1) = chan_will_receive i CauseReturn w;
         (m, w2) = basic_return_message_new exchange key code text k w1
     in (Inr (), update_chan i (\<lambda>c. c\<lparr>ch_returned := rm_start_new_delivery m (ch_returned c)\<rparr>) w2))"

definition on_basic_recover_ok_received :: "nat \<Rightarrow> 'a world_scheme \<Rightarrow> (error + unit) \<times> 'a world_scheme" where
  "on_basic_recover_ok_received i w = (Inr (), chan_drop_prefetched i w)"

definition on_confirm_select_ok_received :: "nat \<Rightarrow> 'a world_scheme \<Rightarrow> (error + unit) \<times> 'a world_scheme" where
  "on_confirm_select_ok_received i w =
    (let (s, w1) = set_confirm (chan_status i w) w in (Inr (), update_status i (\<lambda>_. s) w1))"

definition on_access_request_ok_received :: "'a world_scheme \<Rightarrow> (error + unit) \<times> 'a world_scheme" where
  "on_access_request_ok_received w = (Inr (), w)"

section \<open>The frames of a publish\<close>

lemma chunk_count:
  assumes "0 < n" "0 < l"
  shows "Suc ((l - n + n - 1) div n) = (l + n - 1) div (n :: nat)"
proof -
  have eq: "l + n - 1 = (l - 1) + n" using assms(2) by simp
  have "(l - 1 + n) div n = (l - 1) div n + 1" using assms(1) by (intro div_add_self2) simp
  then have "(l + n - 1) div n = Suc ((l - 1) div n)" by (simp only: eq Suc_eq_plus1)
  moreover have "(l - n + n - 1) div n = (l - 1) div n"
  proof (cases "n \<le> l")
    case True
    then show ?thesis by (simp only: le_add_diff_inverse2)
  next
    case False
    then have "l - n = 0" "l - 1 < n" by auto
    then show ?thesis using assms(1) by simp
  qed
  ultimately show ?thesis by (simp only:)
qed

lemma chunks_spec:
  assumes "0 < n"
  shows "concat (chunks n xs) = xs" "\<forall>c\<in>set (chunks n xs). c \<noteq> [] \<and> length c \<le> n"
    "length (chunks n xs) = (length xs + n - 1) div n"
proof -
  have "concat (chunks n xs) = xs \<and> (\<forall>c\<in>set (chunks n xs). c \<noteq> [] \<and> length c \<le> n)
    \<and> length (chunks n xs) = (length xs + n - 1) div n"
    using assms
  proof (induction n xs rule: chunks.induct)
    case (1 n xs)
    show ?case
    proof (cases "xs = []")
      case True
      with 1 show ?thesis by (simp add: chunks.simps)
    next
      case False
      with 1 have ih: "concat (chunks n (drop n xs)) = drop n xs"
        "\<forall>c\<in>set (chunks n (drop n xs)). c \<noteq> [] \<and> length c \<le> n"
        "length (chunks n (drop n xs)) = (length xs - n + n - 1) div n" by auto
      moreover have "chunks n xs = take n xs # chunks n (drop n xs)"
        using False 1(2) by (subst chunks.simps) simp
      ultimately show ?thesis using ih False 1(2) chunk_count[of n "length xs"]
        by (simp only: concat.simps append_take_drop_id list.set ball_simps list.size length_greater_0_conv
            simp_thms) auto
    qed
  qed
  then show "concat (chunks n xs) = xs" "\<forall>c\<in>set (chunks n xs). c \<noteq> [] \<and> length c \<le> n"
    "length (chunks n xs) = (length xs + n - 1) div n" by auto
qed

lemma chunk_size_pos [simp]: "0 < chunk_size frame_max"
  by (simp add: chunk_size_def)

text \<open>The payload of a frame, and its size on the wire: 7 bytes before the payload and one after it.\<close>

fun body_payload :: "amqp_frame \<Rightarrow> byte list" where
  "body_payload (Body _ payload) = payload"
| "body_payload _ = []"

definition body_frame_size :: "byte list \<Rightarrow> nat" where
  "body_frame_size payload = length payload + 8"

lemma concat_body_payload: "concat (map (body_payload \<circ> Body c) xs) = concat xs"
  by (induction xs) simp_all

text \<open>
  C30: the frames of a publish are its method, one content header with the size of the payload, and body
  frames that hold the payload in order, none of them empty and none longer than the negotiated frame size
  allows; their number is the least possible, and the frames have the shape that the frame queues keep
  together.
\<close>

theorem publish_frames_fit:
  "let fs = publish_frames_of c frame_max m payload props
   in publish_shape fs
    \<and> concat (map body_payload fs) = payload
    \<and> (\<exists>h. fs ! 1 = Header c h \<and> unat (header_body_size h) = length payload mod 2 ^ 64
         \<and> header_class_id h = get_amqp_class_id m)
    \<and> list_all (\<lambda>f. frame_channel_id f = c) fs
    \<and> list_all (\<lambda>f. body_payload f \<noteq> [] \<and> body_frame_size (body_payload f) \<le> max (unat frame_max) 9) (drop 2 fs)
    \<and> length fs = 2 + (length payload + chunk_size frame_max - 1) div chunk_size frame_max"
proof -
  let ?n = "chunk_size frame_max"
  note spec = chunks_spec[OF chunk_size_pos, of frame_max payload]
  have "length b + 8 \<le> max (unat frame_max) 9" if "b \<in> set (chunks ?n payload)" for b
    using spec(2) that by (auto simp: chunk_size_def max_def split: if_splits)
  then show ?thesis using spec
    by (auto simp: publish_frames_of_def Let_def list_all_iff concat_body_payload body_frame_size_def
        unat_of_nat o_def)
qed

section \<open>Negotiation\<close>

text \<open>The smaller of two limits, where zero stands for none.\<close>

definition lower_limit :: "'b::{linorder, zero} \<Rightarrow> 'b \<Rightarrow> 'b" where
  "lower_limit a b = (if a = 0 then b else if b = 0 then a else min a b)"

lemma max_frame_size [simp]: "max (- 1) (4096 :: 32 word) = - 1" "max x (4096 :: 32 word) \<noteq> 0"
  by (auto simp: max_def word_order.extremum_unique)

lemma tune_fields:
  fixes n channel_max frame_max heartbeat_interval
  defines "n' \<equiv> tune_connection_configuration channel_max frame_max heartbeat_interval n"
  shows "nc_heartbeat n' = (if nc_heartbeat n = 0 \<or> heartbeat_interval \<noteq> 0 \<and> heartbeat_interval < nc_heartbeat n
      then heartbeat_interval else nc_heartbeat n)"
    and "nc_channel_max n' =
      (let x = (if channel_max \<noteq> 0 \<and> (nc_channel_max n = 0 \<or> channel_max < nc_channel_max n)
        then channel_max else nc_channel_max n) in if x = 0 then - 1 else x)"
    and "nc_frame_max n' =
      (let x = (if frame_max \<noteq> 0 \<and> (nc_frame_max n = 0 \<or> frame_max < nc_frame_max n)
        then max frame_max 4096 else nc_frame_max n) in if x = 0 then - 1 else x)"
  by (simp_all add: n'_def tune_connection_configuration_def set_heartbeat_def set_channel_max_def
      set_frame_max_def Let_def if_distrib[where f = nc_heartbeat] if_distrib[where f = nc_channel_max]
      if_distrib[where f = nc_frame_max] cong: if_cong split del: if_split)
    (simp_all split: if_split)

text \<open>
  C32: the negotiated values are the smaller of the two sides' limits, zero standing for no limit: the
  heartbeat as such; the number of channels never zero; the size of frames never zero, and raised to the
  protocol's minimum of 4096 whenever the server's value is taken, but not when the client's own smaller
  value is.
\<close>

theorem tune_picks_lower_limits:
  "let n' = tune_connection_configuration channel_max frame_max heartbeat_interval n;
       lower = lower_limit (nc_frame_max n) frame_max
   in nc_heartbeat n' = lower_limit (nc_heartbeat n) heartbeat_interval
    \<and> nc_channel_max n' = (let x = lower_limit (nc_channel_max n) channel_max in if x = 0 then - 1 else x)
    \<and> nc_frame_max n' = (if lower = 0 then - 1 else if lower = nc_frame_max n then lower else max lower 4096)
    \<and> nc_channel_max n' \<noteq> 0 \<and> nc_frame_max n' \<noteq> 0"
proof -
  have "lower_limit (nc_heartbeat n) heartbeat_interval =
      (if nc_heartbeat n = 0 \<or> heartbeat_interval \<noteq> 0 \<and> heartbeat_interval < nc_heartbeat n
       then heartbeat_interval else nc_heartbeat n)"
    by (auto simp: lower_limit_def min_def)
  moreover have "lower_limit (nc_channel_max n) channel_max =
      (if channel_max \<noteq> 0 \<and> (nc_channel_max n = 0 \<or> channel_max < nc_channel_max n)
       then channel_max else nc_channel_max n)"
    by (auto simp: lower_limit_def min_def)
  moreover have "(if frame_max \<noteq> 0 \<and> (nc_frame_max n = 0 \<or> frame_max < nc_frame_max n)
       then max frame_max 4096 else nc_frame_max n) =
      (if lower_limit (nc_frame_max n) frame_max = nc_frame_max n then nc_frame_max n
       else max (lower_limit (nc_frame_max n) frame_max) 4096)"
    by (auto simp: lower_limit_def min_def)
  moreover have "lower_limit (nc_frame_max n) frame_max = 0 \<longleftrightarrow> nc_frame_max n = 0 \<and> frame_max = 0"
    by (auto simp: lower_limit_def min_def)
  ultimately show ?thesis by (simp add: tune_fields Let_def) (simp add: lower_limit_def)
qed

end
