(* ===== verification/Channel_Methods.thy ===== *)
theory Channel_Methods
  imports Channel_Model
begin

text \<open>
  Model of \<^verbatim>\<open>src/generated/channel.rs\<close>: for each AMQP method, the function that sends it and the function
  that receives it, and the dispatch of a received method.  The text that the generator repeats for
  every method, up to its names, is written once in the first section.

  A function that sends runs up to the promise it waits for.  The numbers of a received method are
  those of its reply class, so a method without fields is not an argument.
\<close>

section \<open>The common part\<close>

definition request :: "nat \<Rightarrow> amqp_class \<Rightarrow> (nat \<Rightarrow> reply) \<Rightarrow> 'a world_scheme \<Rightarrow> nat \<times> 'a world_scheme" where
  "request i m reply w =
    (let (p, w1) = promise_new w
     in (p, send_method_frame i m p (Some (ExpectedReply (reply p) p)) None w1))"

definition notice :: "nat \<Rightarrow> amqp_class \<Rightarrow> 'a world_scheme \<Rightarrow> nat \<times> 'a world_scheme" where
  "notice i m w = (let (p, w1) = promise_new w in (p, send_method_frame i m p None (Some p) w1))"

definition when_state ::
  "(channel_status \<Rightarrow> bool) \<Rightarrow> string \<Rightarrow> nat \<Rightarrow> ('a world_scheme \<Rightarrow> call_outcome \<times> 'a world_scheme)
    \<Rightarrow> 'a world_scheme \<Rightarrow> call_outcome \<times> 'a world_scheme" where
  "when_state ok ctx i f w =
    (if \<not> ok (chan_status i w) then (Failed (state_error ctx (chan_status i w)), w) else f w)"

definition awaiting :: "nat \<times> 'a world_scheme \<Rightarrow> call_outcome \<times> 'a world_scheme" where
  "awaiting x = (Await (fst x), snd x)"

text \<open>With the \<^verbatim>\<open>nowait\<close> flag the client receives the reply from itself.\<close>

definition with_nowait ::
  "bool \<Rightarrow> ('a world_scheme \<Rightarrow> (error + unit) \<times> 'a world_scheme) \<Rightarrow> nat \<times> 'a world_scheme
    \<Rightarrow> call_outcome \<times> 'a world_scheme" where
  "with_nowait nowait receive_ok x =
    (if nowait
     then (case receive_ok (snd x) of (Inl e, w1) \<Rightarrow> (Failed e, w1) | (Inr _, w1) \<Rightarrow> (Await (fst x), w1))
     else awaiting x)"

definition receiving ::
  "string \<Rightarrow> nat \<Rightarrow> ('a world_scheme \<Rightarrow> (error + unit) \<times> 'a world_scheme) \<Rightarrow> 'a world_scheme
    \<Rightarrow> (error + unit) \<times> 'a world_scheme" where
  "receiving ctx i f w =
    (if \<not> can_receive_messages (chan_status i w) then (Inl (state_error ctx (chan_status i w)), w) else f w)"

definition expect_reply :: "(reply \<Rightarrow> 'p option) \<Rightarrow> nat \<Rightarrow> 'a world_scheme \<Rightarrow> 'p option \<times> 'a world_scheme" where
  "expect_reply pat i w =
    (let (r, w1) = find_expected_reply (ch_id (chan i w)) (\<lambda>x. pat (reply_of x) \<noteq> None) w
     in (Option.bind r pat, w1))"

text \<open>
  The reply that arrives has to be one the channel waits for; the method is named by its class and its
  own name.
\<close>

definition match_reply ::
  "string \<Rightarrow> string \<Rightarrow> amqp_class \<Rightarrow> (reply \<Rightarrow> 'p option) \<Rightarrow> nat
    \<Rightarrow> ('p \<Rightarrow> 'a world_scheme \<Rightarrow> (error + unit) \<times> 'a world_scheme)
    \<Rightarrow> 'a world_scheme \<Rightarrow> (error + unit) \<times> 'a world_scheme" where
  "match_reply class_name method_name m pat i f w =
    (case expect_reply pat i w of
       (Some x, w1) \<Rightarrow> f x w1
     | (None, w1) \<Rightarrow>
         handle_invalid_contents i
           (''unexpected '' @ class_name @ '' '' @ method_name @ '' received on channel ''
             @ show_word (ch_id (chan i w)) @ '', was awaiting for None'')
           (get_amqp_class_id m) (get_amqp_method_id m) w1)"

definition receive_reply ::
  "string \<Rightarrow> string \<Rightarrow> amqp_class \<Rightarrow> (reply \<Rightarrow> 'p option) \<Rightarrow> nat
    \<Rightarrow> ('p \<Rightarrow> 'a world_scheme \<Rightarrow> (error + unit) \<times> 'a world_scheme)
    \<Rightarrow> 'a world_scheme \<Rightarrow> (error + unit) \<times> 'a world_scheme" where
  "receive_reply class_name method_name m pat i f =
    receiving (class_name @ ''.'' @ method_name) i (match_reply class_name method_name m pat i f)"

text \<open>The result of a hook completes the promise of a reply that carries no value.\<close>

definition completing ::
  "nat \<Rightarrow> (error + unit) \<times> 'a world_scheme \<Rightarrow> (error + unit) \<times> 'a world_scheme" where
  "completing p x =
    (fst x, promise_complete p (case fst x of Inl e \<Rightarrow> Inl e | Inr _ \<Rightarrow> Inr VUnit) (snd x))"

definition on_channel0 ::
  "amqp_class \<Rightarrow> nat \<Rightarrow> ('a world_scheme \<Rightarrow> (error + unit) \<times> 'a world_scheme) \<Rightarrow> 'a world_scheme
    \<Rightarrow> (error + unit) \<times> 'a world_scheme" where
  "on_channel0 m i f w =
    (case assert_channel0 i (get_amqp_class_id m) (get_amqp_method_id m) w of
       (Inl e, w1) \<Rightarrow> (Inl e, w1)
     | (Inr _, w1) \<Rightarrow> f w1)"

definition at_connection_step ::
  "nat \<Rightarrow> (connection_step \<Rightarrow> 'a world_scheme \<Rightarrow> (error + unit) \<times> 'a world_scheme) \<Rightarrow> 'a world_scheme
    \<Rightarrow> (error + unit) \<times> 'a world_scheme" where
  "at_connection_step i f w =
    (case find_connection_step (ch_id (chan i w)) w of
       (Some step, w1) \<Rightarrow> f step w1
     | (None, w1) \<Rightarrow> connection_process_error (cn_state (w_conn_status w1)) None None w1)"

section \<open>Basic methods\<close>

definition basic_qos :: "nat \<Rightarrow> 16 word \<Rightarrow> basic_qos_options \<Rightarrow> 'a world_scheme \<Rightarrow> call_outcome \<times> 'a world_scheme" where
  "basic_qos i prefetch_count opts = when_state st_connected ''basic.qos'' i (\<lambda>w.
    awaiting (request i (Basic (BasicQos prefetch_count (qos_global opts))) ReplyBasicQosOk w))"

definition receive_basic_qos_ok :: "nat \<Rightarrow> 'a world_scheme \<Rightarrow> (error + unit) \<times> 'a world_scheme" where
  "receive_basic_qos_ok i = receive_reply ''basic'' ''qos-ok'' (Basic BasicQosOk)
    (\<lambda>r. case r of ReplyBasicQosOk p \<Rightarrow> Some p | _ \<Rightarrow> None) i (\<lambda>p w. completing p (Inr (), w))"

definition receive_basic_consume_ok :: "nat \<Rightarrow> short_string \<Rightarrow> 'a world_scheme \<Rightarrow> (error + unit) \<times> 'a world_scheme" where
  "receive_basic_consume_ok i tag = receive_reply ''basic'' ''consume-ok'' (Basic (BasicConsumeOk tag))
    (\<lambda>r. case r of ReplyBasicConsumeOk p q opts args orig \<Rightarrow> Some (p, q, opts, args, orig) | _ \<Rightarrow> None) i
    (\<lambda>(p, q, opts, args, orig). on_basic_consume_ok_received i tag p q opts args orig)"

definition do_basic_consume ::
  "nat \<Rightarrow> short_string \<Rightarrow> short_string \<Rightarrow> basic_consume_options \<Rightarrow> field_table \<Rightarrow> nat option
    \<Rightarrow> 'a world_scheme \<Rightarrow> call_outcome \<times> 'a world_scheme" where
  "do_basic_consume i queue_name tag opts args original = when_state st_connected ''basic.consume'' i (\<lambda>w.
    with_nowait (consume_nowait opts) (receive_basic_consume_ok i tag)
      (request i
        (Basic (BasicConsume queue_name tag (consume_no_local opts) (consume_no_ack opts)
          (consume_exclusive opts) (consume_nowait opts) args))
        (\<lambda>p. ReplyBasicConsumeOk p queue_name opts args original) w))"

definition receive_basic_cancel_ok :: "nat \<Rightarrow> short_string \<Rightarrow> 'a world_scheme \<Rightarrow> (error + unit) \<times> 'a world_scheme" where
  "receive_basic_cancel_ok i tag = receive_reply ''basic'' ''cancel-ok'' (Basic (BasicCancelOk tag))
    (\<lambda>r. case r of ReplyBasicCancelOk p \<Rightarrow> Some p | _ \<Rightarrow> None) i
    (\<lambda>p w. completing p (on_basic_cancel_ok_received i tag w))"

definition basic_cancel :: "nat \<Rightarrow> short_string \<Rightarrow> basic_cancel_options \<Rightarrow> 'a world_scheme \<Rightarrow> call_outcome \<times> 'a world_scheme" where
  "basic_cancel i tag opts = when_state st_connected ''basic.cancel'' i (\<lambda>w.
    with_nowait (cancel_nowait opts) (receive_basic_cancel_ok i tag)
      (request i (Basic (BasicCancel tag (cancel_nowait opts))) ReplyBasicCancelOk
        (before_basic_cancel i tag w)))"

definition receive_basic_cancel ::
  "nat \<Rightarrow> short_string \<Rightarrow> bool \<Rightarrow> 'a world_scheme \<Rightarrow> (error + unit) \<times> 'a world_scheme" where
  "receive_basic_cancel i tag nowait = receiving ''basic.cancel'' i (on_basic_cancel_received i tag nowait)"

definition basic_cancel_ok :: "nat \<Rightarrow> short_string \<Rightarrow> 'a world_scheme \<Rightarrow> call_outcome \<times> 'a world_scheme" where
  "basic_cancel_ok i tag = when_state st_connected ''basic.cancel-ok'' i (\<lambda>w.
    awaiting (notice i (Basic (BasicCancelOk tag)) w))"

text \<open>The confirm registered before the frames are queued is returned with the outcome.\<close>

definition basic_publish ::
  "nat \<Rightarrow> short_string \<Rightarrow> short_string \<Rightarrow> basic_publish_options \<Rightarrow> byte list \<Rightarrow> basic_properties
    \<Rightarrow> 'a world_scheme \<Rightarrow> call_outcome \<times> publisher_confirm option \<times> 'a world_scheme" where
  "basic_publish i exchange key opts payload props w =
    (if \<not> st_connected (chan_status i w)
     then (Failed (state_error ''basic.publish'' (chan_status i w)), None, w)
     else let (r, w1) = before_basic_publish i w;
              (p, w2) = send_method_frame_with_body i
                (Basic (BasicPublish exchange key (publish_mandatory opts) (publish_immediate opts)))
                payload props w1
          in (Await p, r, w2))"

definition receive_basic_return ::
  "nat \<Rightarrow> reply_code \<Rightarrow> short_string \<Rightarrow> short_string \<Rightarrow> short_string \<Rightarrow> 'a world_scheme \<Rightarrow> (error + unit) \<times> 'a world_scheme" where
  "receive_basic_return i code text exchange key =
    receiving ''basic.return'' i (on_basic_return_received i code text exchange key)"

definition receive_basic_deliver ::
  "nat \<Rightarrow> short_string \<Rightarrow> delivery_tag \<Rightarrow> bool \<Rightarrow> short_string \<Rightarrow> short_string \<Rightarrow> 'a world_scheme
    \<Rightarrow> (error + unit) \<times> 'a world_scheme" where
  "receive_basic_deliver i tag t redelivered exchange key =
    receiving ''basic.deliver'' i (on_basic_deliver_received i tag t redelivered exchange key)"

definition do_basic_get ::
  "nat \<Rightarrow> short_string \<Rightarrow> basic_get_options \<Rightarrow> nat option \<Rightarrow> 'a world_scheme \<Rightarrow> call_outcome \<times> 'a world_scheme" where
  "do_basic_get i queue_name opts original = when_state st_connected ''basic.get'' i (\<lambda>w.
    let (p, w1) = promise_new w;
        resolver = (case original of Some r \<Rightarrow> r | None \<Rightarrow> p)
    in (Await p, send_method_frame i (Basic (BasicGet queue_name (get_no_ack opts))) resolver
          (Some (ExpectedReply (ReplyBasicGetOk p) resolver)) None w1))"

definition receive_basic_get_ok ::
  "nat \<Rightarrow> delivery_tag \<Rightarrow> bool \<Rightarrow> short_string \<Rightarrow> short_string \<Rightarrow> message_count \<Rightarrow> 'a world_scheme
    \<Rightarrow> (error + unit) \<times> 'a world_scheme" where
  "receive_basic_get_ok i t redelivered exchange key n =
    receive_reply ''basic'' ''get-ok'' (Basic (BasicGetOk t redelivered exchange key n))
      (\<lambda>r. case r of ReplyBasicGetOk p \<Rightarrow> Some p | _ \<Rightarrow> None) i
      (\<lambda>p. on_basic_get_ok_received i t redelivered exchange key n p)"

definition receive_basic_get_empty :: "nat \<Rightarrow> 'a world_scheme \<Rightarrow> (error + unit) \<times> 'a world_scheme" where
  "receive_basic_get_empty i = receiving ''basic.get-empty'' i (on_basic_get_empty_received i)"

definition basic_ack :: "nat \<Rightarrow> delivery_tag \<Rightarrow> basic_ack_options \<Rightarrow> 'a world_scheme \<Rightarrow> call_outcome \<times> 'a world_scheme" where
  "basic_ack i t opts = when_state st_connected ''basic.ack'' i (\<lambda>w.
    let (p, w1) = notice i (Basic (BasicAck t (ack_multiple opts))) w
    in (Await p, on_basic_ack_sent i (ack_multiple opts) t w1))"

definition receive_basic_ack :: "nat \<Rightarrow> delivery_tag \<Rightarrow> bool \<Rightarrow> 'a world_scheme \<Rightarrow> (error + unit) \<times> 'a world_scheme" where
  "receive_basic_ack i t multiple = receiving ''basic.ack'' i (on_basic_ack_received i t multiple)"

definition basic_reject :: "nat \<Rightarrow> delivery_tag \<Rightarrow> basic_reject_options \<Rightarrow> 'a world_scheme \<Rightarrow> call_outcome \<times> 'a world_scheme" where
  "basic_reject i t opts = when_state st_connected ''basic.reject'' i (\<lambda>w.
    awaiting (notice i (Basic (BasicReject t (reject_requeue opts))) w))"

definition basic_recover_async ::
  "nat \<Rightarrow> basic_recover_async_options \<Rightarrow> 'a world_scheme \<Rightarrow> call_outcome \<times> 'a world_scheme" where
  "basic_recover_async i opts = when_state st_connected ''basic.recover-async'' i (\<lambda>w.
    let (p, w1) = notice i (Basic (BasicRecoverAsync (recover_async_requeue opts))) w
    in (Await p, on_basic_recover_async_sent i w1))"

definition basic_recover :: "nat \<Rightarrow> basic_recover_options \<Rightarrow> 'a world_scheme \<Rightarrow> call_outcome \<times> 'a world_scheme" where
  "basic_recover i opts = when_state st_connected ''basic.recover'' i (\<lambda>w.
    awaiting (request i (Basic (BasicRecover (recover_requeue opts))) ReplyBasicRecoverOk w))"

definition receive_basic_recover_ok :: "nat \<Rightarrow> 'a world_scheme \<Rightarrow> (error + unit) \<times> 'a world_scheme" where
  "receive_basic_recover_ok i = receive_reply ''basic'' ''recover-ok'' (Basic BasicRecoverOk)
    (\<lambda>r. case r of ReplyBasicRecoverOk p \<Rightarrow> Some p | _ \<Rightarrow> None) i
    (\<lambda>p w. completing p (on_basic_recover_ok_received i w))"

definition basic_nack :: "nat \<Rightarrow> delivery_tag \<Rightarrow> basic_nack_options \<Rightarrow> 'a world_scheme \<Rightarrow> call_outcome \<times> 'a world_scheme" where
  "basic_nack i t opts = when_state st_connected ''basic.nack'' i (\<lambda>w.
    let (p, w1) = notice i (Basic (BasicNack t (nack_multiple opts) (nack_requeue opts))) w
    in (Await p, on_basic_nack_sent i (nack_multiple opts) t w1))"

definition receive_basic_nack ::
  "nat \<Rightarrow> delivery_tag \<Rightarrow> bool \<Rightarrow> bool \<Rightarrow> 'a world_scheme \<Rightarrow> (error + unit) \<times> 'a world_scheme" where
  "receive_basic_nack i t multiple requeue =
    receiving ''basic.nack'' i (on_basic_nack_received i t multiple requeue)"

section \<open>Connection methods\<close>

definition receive_connection_start ::
  "nat \<Rightarrow> string \<Rightarrow> string \<Rightarrow> 'a world_scheme \<Rightarrow> (error + unit) \<times> 'a world_scheme" where
  "receive_connection_start i mechanisms locales =
    on_channel0 (Connection (ConnectionStart mechanisms locales)) i
      (receiving ''connection.start'' i
        (at_connection_step i (on_connection_start_received i mechanisms locales)))"

definition connection_start_ok ::
  "nat \<Rightarrow> field_table \<Rightarrow> short_string \<Rightarrow> string \<Rightarrow> short_string \<Rightarrow> nat \<Rightarrow> connection \<Rightarrow> auth_provider
    \<Rightarrow> 'a world_scheme \<Rightarrow> call_outcome \<times> 'a world_scheme" where
  "connection_start_ok i client_properties mechanism response locale_name resolver con auth w =
    awaiting (request i (Connection (ConnectionStartOk client_properties mechanism response locale_name))
      (\<lambda>_. ReplyConnectionStep (StepStartOk resolver con auth)) w)"

definition receive_connection_secure :: "nat \<Rightarrow> string \<Rightarrow> 'a world_scheme \<Rightarrow> (error + unit) \<times> 'a world_scheme" where
  "receive_connection_secure i challenge =
    on_channel0 (Connection (ConnectionSecure challenge)) i
      (receiving ''connection.secure'' i
        (at_connection_step i (on_connection_secure_received i challenge)))"

definition connection_secure_ok ::
  "nat \<Rightarrow> string \<Rightarrow> nat \<Rightarrow> connection \<Rightarrow> auth_provider \<Rightarrow> 'a world_scheme \<Rightarrow> call_outcome \<times> 'a world_scheme" where
  "connection_secure_ok i response resolver con auth w =
    awaiting (request i (Connection (ConnectionSecureOk response))
      (\<lambda>_. ReplyConnectionStep (StepSecureOk resolver con auth)) w)"

definition receive_connection_tune ::
  "nat \<Rightarrow> channel_id \<Rightarrow> frame_size \<Rightarrow> heartbeat_secs \<Rightarrow> 'a world_scheme \<Rightarrow> (error + unit) \<times> 'a world_scheme" where
  "receive_connection_tune i channel_max frame_max heartbeat_interval =
    on_channel0 (Connection (ConnectionTune channel_max frame_max heartbeat_interval)) i
      (receiving ''connection.tune'' i
        (at_connection_step i (on_connection_tune_received i channel_max frame_max heartbeat_interval)))"

definition connection_tune_ok ::
  "nat \<Rightarrow> channel_id \<Rightarrow> frame_size \<Rightarrow> heartbeat_secs \<Rightarrow> 'a world_scheme \<Rightarrow> call_outcome \<times> 'a world_scheme" where
  "connection_tune_ok i channel_max frame_max heartbeat_interval w =
    awaiting (notice i (Connection (ConnectionTuneOk channel_max frame_max heartbeat_interval)) w)"

definition connection_open ::
  "nat \<Rightarrow> short_string \<Rightarrow> connection \<Rightarrow> nat \<Rightarrow> 'a world_scheme \<Rightarrow> call_outcome \<times> 'a world_scheme" where
  "connection_open i virtual_host con resolver w =
    awaiting (request i (Connection (ConnectionOpen virtual_host))
      (\<lambda>p. ReplyConnectionOpenOk p con resolver) w)"

definition receive_connection_open_ok :: "nat \<Rightarrow> 'a world_scheme \<Rightarrow> (error + unit) \<times> 'a world_scheme" where
  "receive_connection_open_ok i =
    on_channel0 (Connection ConnectionOpenOk) i
      (receive_reply ''connection'' ''open-ok'' (Connection ConnectionOpenOk)
        (\<lambda>r. case r of ReplyConnectionOpenOk p con resolver \<Rightarrow> Some (p, con, resolver) | _ \<Rightarrow> None) i
        (\<lambda>(p, con, resolver) w. completing p (on_connection_open_ok_received i con resolver w)))"

definition connection_close ::
  "nat \<Rightarrow> reply_code \<Rightarrow> short_string \<Rightarrow> 16 word \<Rightarrow> 16 word \<Rightarrow> 'a world_scheme \<Rightarrow> call_outcome \<times> 'a world_scheme" where
  "connection_close i code text class_id method_id w =
    awaiting (request i (Connection (ConnectionClose code text class_id method_id)) ReplyConnectionCloseOk w)"

definition receive_connection_close ::
  "(reply_code \<Rightarrow> amqp_error_kind option) \<Rightarrow> nat \<Rightarrow> reply_code \<Rightarrow> short_string \<Rightarrow> 16 word \<Rightarrow> 16 word
    \<Rightarrow> 'a world_scheme \<Rightarrow> (error + unit) \<times> 'a world_scheme" where
  "receive_connection_close error_kind_of i code text class_id method_id =
    on_channel0 (Connection (ConnectionClose code text class_id method_id)) i
      (receiving ''connection.close'' i (on_connection_close_received error_kind_of i code text))"

definition connection_close_ok :: "nat \<Rightarrow> error \<Rightarrow> 'a world_scheme \<Rightarrow> call_outcome \<times> 'a world_scheme" where
  "connection_close_ok i e w =
    (let (p, w1) = notice i (Connection ConnectionCloseOk) w in (Await p, on_connection_close_ok_sent i e w1))"

definition receive_connection_close_ok :: "nat \<Rightarrow> 'a world_scheme \<Rightarrow> (error + unit) \<times> 'a world_scheme" where
  "receive_connection_close_ok i =
    on_channel0 (Connection ConnectionCloseOk) i
      (receive_reply ''connection'' ''close-ok'' (Connection ConnectionCloseOk)
        (\<lambda>r. case r of ReplyConnectionCloseOk p \<Rightarrow> Some p | _ \<Rightarrow> None) i
        (\<lambda>p w. completing p (on_connection_close_ok_received w)))"

definition receive_connection_blocked :: "nat \<Rightarrow> short_string \<Rightarrow> 'a world_scheme \<Rightarrow> (error + unit) \<times> 'a world_scheme" where
  "receive_connection_blocked i reason =
    on_channel0 (Connection (ConnectionBlocked reason)) i
      (receiving ''connection.blocked'' i (on_connection_blocked_received reason))"

definition receive_connection_unblocked :: "nat \<Rightarrow> 'a world_scheme \<Rightarrow> (error + unit) \<times> 'a world_scheme" where
  "receive_connection_unblocked i =
    on_channel0 (Connection ConnectionUnblocked) i
      (receiving ''connection.unblocked'' i on_connection_unblocked_received)"

definition connection_update_secret ::
  "nat \<Rightarrow> string \<Rightarrow> short_string \<Rightarrow> 'a world_scheme \<Rightarrow> call_outcome \<times> 'a world_scheme" where
  "connection_update_secret i secret reason w =
    awaiting (request i (Connection (ConnectionUpdateSecret secret reason)) ReplyConnectionUpdateSecretOk w)"

definition receive_connection_update_secret_ok :: "nat \<Rightarrow> 'a world_scheme \<Rightarrow> (error + unit) \<times> 'a world_scheme" where
  "receive_connection_update_secret_ok i =
    on_channel0 (Connection ConnectionUpdateSecretOk) i
      (receive_reply ''connection'' ''update-secret-ok'' (Connection ConnectionUpdateSecretOk)
        (\<lambda>r. case r of ReplyConnectionUpdateSecretOk p \<Rightarrow> Some p | _ \<Rightarrow> None) i
        (\<lambda>p w. completing p (Inr (), w)))"

section \<open>Channel and access methods\<close>

definition channel_open :: "nat \<Rightarrow> nat \<Rightarrow> 'a world_scheme \<Rightarrow> call_outcome \<times> 'a world_scheme" where
  "channel_open i opened = when_state st_initializing ''channel.open'' i (\<lambda>w.
    awaiting (request i (Channel ChannelOpen) (\<lambda>p. ReplyChannelOpenOk p opened) w))"

definition receive_channel_open_ok :: "nat \<Rightarrow> 'a world_scheme \<Rightarrow> (error + unit) \<times> 'a world_scheme" where
  "receive_channel_open_ok i w =
    (if \<not> st_initializing (chan_status i w)
     then (Inl (state_error ''channel.open-ok'' (chan_status i w)), w)
     else match_reply ''channel'' ''open-ok'' (Channel ChannelOpenOk)
       (\<lambda>r. case r of ReplyChannelOpenOk p opened \<Rightarrow> Some (p, opened) | _ \<Rightarrow> None) i
       (\<lambda>(p, opened). on_channel_open_ok_received i p opened) w)"

definition channel_flow :: "nat \<Rightarrow> channel_flow_options \<Rightarrow> 'a world_scheme \<Rightarrow> call_outcome \<times> 'a world_scheme" where
  "channel_flow i opts = when_state st_connected ''channel.flow'' i (\<lambda>w.
    awaiting (request i (Channel (ChannelFlow (flow_active opts))) ReplyChannelFlowOk w))"

definition receive_channel_flow :: "nat \<Rightarrow> bool \<Rightarrow> 'a world_scheme \<Rightarrow> (error + unit) \<times> 'a world_scheme" where
  "receive_channel_flow i active = receiving ''channel.flow'' i (on_channel_flow_received i active)"

definition channel_flow_ok :: "nat \<Rightarrow> channel_flow_ok_options \<Rightarrow> 'a world_scheme \<Rightarrow> call_outcome \<times> 'a world_scheme" where
  "channel_flow_ok i opts = when_state st_connected ''channel.flow-ok'' i (\<lambda>w.
    awaiting (notice i (Channel (ChannelFlowOk (flow_ok_active opts))) w))"

definition receive_channel_flow_ok :: "nat \<Rightarrow> bool \<Rightarrow> 'a world_scheme \<Rightarrow> (error + unit) \<times> 'a world_scheme" where
  "receive_channel_flow_ok i active = receive_reply ''channel'' ''flow-ok'' (Channel (ChannelFlowOk active))
    (\<lambda>r. case r of ReplyChannelFlowOk p \<Rightarrow> Some p | _ \<Rightarrow> None) i (on_channel_flow_ok_received active)"

definition do_channel_close ::
  "nat \<Rightarrow> reply_code \<Rightarrow> short_string \<Rightarrow> 16 word \<Rightarrow> 16 word \<Rightarrow> 'a world_scheme \<Rightarrow> call_outcome \<times> 'a world_scheme" where
  "do_channel_close i code text class_id method_id = when_state st_connected ''channel.close'' i (\<lambda>w.
    awaiting (request i (Channel (ChannelClose code text class_id method_id)) ReplyChannelCloseOk
      (before_channel_close i w)))"

definition receive_channel_close ::
  "(reply_code \<Rightarrow> amqp_error_kind option) \<Rightarrow> nat \<Rightarrow> reply_code \<Rightarrow> short_string \<Rightarrow> 'a world_scheme
    \<Rightarrow> (error + unit) \<times> 'a world_scheme" where
  "receive_channel_close error_kind_of i code text =
    receiving ''channel.close'' i (on_channel_close_received error_kind_of i code text)"

definition channel_close_ok :: "nat \<Rightarrow> error option \<Rightarrow> 'a world_scheme \<Rightarrow> call_outcome \<times> 'a world_scheme" where
  "channel_close_ok i err = when_state st_closing ''channel.close-ok'' i (\<lambda>w.
    let (p, w1) = notice i (Channel ChannelCloseOk) w in (Await p, on_channel_close_ok_sent i err w1))"

definition receive_channel_close_ok :: "nat \<Rightarrow> 'a world_scheme \<Rightarrow> (error + unit) \<times> 'a world_scheme" where
  "receive_channel_close_ok i = receiving ''channel.close-ok'' i (\<lambda>w.
    case channel_next_expected_close_ok_reply i w of
      (Some (ReplyChannelCloseOk p), w1) \<Rightarrow> completing p (on_channel_close_ok_received i w1)
    | (_, w1) \<Rightarrow>
        handle_invalid_contents i
          (''unexpected channel close-ok received on channel '' @ show_word (ch_id (chan i w))
            @ '', was awaiting for None'')
          (get_amqp_class_id (Channel ChannelCloseOk)) (get_amqp_method_id (Channel ChannelCloseOk)) w1)"

definition access_request ::
  "nat \<Rightarrow> short_string \<Rightarrow> access_request_options \<Rightarrow> 'a world_scheme \<Rightarrow> call_outcome \<times> 'a world_scheme" where
  "access_request i realm opts = when_state st_connected ''access.request'' i (\<lambda>w.
    awaiting (request i (Access (AccessRequest realm (access_exclusive opts) (access_passive opts)
      (access_active opts) (access_write opts) (access_read opts))) ReplyAccessRequestOk w))"

definition receive_access_request_ok :: "nat \<Rightarrow> 'a world_scheme \<Rightarrow> (error + unit) \<times> 'a world_scheme" where
  "receive_access_request_ok i = receive_reply ''access'' ''request-ok'' (Access AccessRequestOk)
    (\<lambda>r. case r of ReplyAccessRequestOk p \<Rightarrow> Some p | _ \<Rightarrow> None) i
    (\<lambda>p w. completing p (on_access_request_ok_received w))"

section \<open>Exchange methods\<close>

definition receive_exchange_declare_ok :: "nat \<Rightarrow> 'a world_scheme \<Rightarrow> (error + unit) \<times> 'a world_scheme" where
  "receive_exchange_declare_ok i = receive_reply ''exchange'' ''declare-ok'' (Exchange ExchangeDeclareOk)
    (\<lambda>r. case r of ReplyExchangeDeclareOk p x kd opts args \<Rightarrow> Some (p, x, kd, opts, args) | _ \<Rightarrow> None) i
    (\<lambda>(p, x, kd, opts, args). on_exchange_declare_ok_received i p x kd opts args)"

definition do_exchange_declare ::
  "nat \<Rightarrow> short_string \<Rightarrow> short_string \<Rightarrow> exchange_declare_options \<Rightarrow> field_table \<Rightarrow> exchange_kind
    \<Rightarrow> 'a world_scheme \<Rightarrow> call_outcome \<times> 'a world_scheme" where
  "do_exchange_declare i exchange kind_text opts args kd = when_state st_connected ''exchange.declare'' i (\<lambda>w.
    with_nowait (exchange_nowait opts) (receive_exchange_declare_ok i)
      (request i
        (Exchange (ExchangeDeclare exchange kind_text (exchange_passive opts) (exchange_durable opts)
          (exchange_auto_delete opts) (exchange_internal opts) (exchange_nowait opts) args))
        (\<lambda>p. ReplyExchangeDeclareOk p exchange kd opts args) w))"

definition receive_exchange_delete_ok :: "nat \<Rightarrow> 'a world_scheme \<Rightarrow> (error + unit) \<times> 'a world_scheme" where
  "receive_exchange_delete_ok i = receive_reply ''exchange'' ''delete-ok'' (Exchange ExchangeDeleteOk)
    (\<lambda>r. case r of ReplyExchangeDeleteOk p x \<Rightarrow> Some (p, x) | _ \<Rightarrow> None) i
    (\<lambda>(p, x) w. completing p (on_exchange_delete_ok_received i x w))"

definition exchange_delete ::
  "nat \<Rightarrow> short_string \<Rightarrow> exchange_delete_options \<Rightarrow> 'a world_scheme \<Rightarrow> call_outcome \<times> 'a world_scheme" where
  "exchange_delete i exchange opts = when_state st_connected ''exchange.delete'' i (\<lambda>w.
    with_nowait (exchange_delete_nowait opts) (receive_exchange_delete_ok i)
      (request i
        (Exchange (ExchangeDelete exchange (exchange_delete_if_unused opts) (exchange_delete_nowait opts)))
        (\<lambda>p. ReplyExchangeDeleteOk p exchange) w))"

definition receive_exchange_bind_ok :: "nat \<Rightarrow> 'a world_scheme \<Rightarrow> (error + unit) \<times> 'a world_scheme" where
  "receive_exchange_bind_ok i = receive_reply ''exchange'' ''bind-ok'' (Exchange ExchangeBindOk)
    (\<lambda>r. case r of ReplyExchangeBindOk p d s k args \<Rightarrow> Some (p, d, s, k, args) | _ \<Rightarrow> None) i
    (\<lambda>(p, d, s, k, args) w. completing p (on_exchange_bind_ok_received i d s k args w))"

definition exchange_bind ::
  "nat \<Rightarrow> short_string \<Rightarrow> short_string \<Rightarrow> short_string \<Rightarrow> exchange_bind_options \<Rightarrow> field_table
    \<Rightarrow> 'a world_scheme \<Rightarrow> call_outcome \<times> 'a world_scheme" where
  "exchange_bind i dest src key opts args = when_state st_connected ''exchange.bind'' i (\<lambda>w.
    with_nowait (exchange_bind_nowait opts) (receive_exchange_bind_ok i)
      (request i (Exchange (ExchangeBind dest src key (exchange_bind_nowait opts) args))
        (\<lambda>p. ReplyExchangeBindOk p dest src key args) w))"

definition receive_exchange_unbind_ok :: "nat \<Rightarrow> 'a world_scheme \<Rightarrow> (error + unit) \<times> 'a world_scheme" where
  "receive_exchange_unbind_ok i = receive_reply ''exchange'' ''unbind-ok'' (Exchange ExchangeUnbindOk)
    (\<lambda>r. case r of ReplyExchangeUnbindOk p d s k args \<Rightarrow> Some (p, d, s, k, args) | _ \<Rightarrow> None) i
    (\<lambda>(p, d, s, k, args) w. completing p (on_exchange_unbind_ok_received i d s k args w))"

definition exchange_unbind ::
  "nat \<Rightarrow> short_string \<Rightarrow> short_string \<Rightarrow> short_string \<Rightarrow> exchange_unbind_options \<Rightarrow> field_table
    \<Rightarrow> 'a world_scheme \<Rightarrow> call_outcome \<times> 'a world_scheme" where
  "exchange_unbind i dest src key opts args = when_state st_connected ''exchange.unbind'' i (\<lambda>w.
    with_nowait (exchange_unbind_nowait opts) (receive_exchange_unbind_ok i)
      (request i (Exchange (ExchangeUnbind dest src key (exchange_unbind_nowait opts) args))
        (\<lambda>p. ReplyExchangeUnbindOk p dest src key args) w))"

section \<open>Queue methods\<close>

definition receive_queue_declare_ok ::
  "nat \<Rightarrow> short_string \<Rightarrow> message_count \<Rightarrow> message_count \<Rightarrow> 'a world_scheme \<Rightarrow> (error + unit) \<times> 'a world_scheme" where
  "receive_queue_declare_ok i name n consumers_n =
    receive_reply ''queue'' ''declare-ok'' (Queue (QueueDeclareOk name n consumers_n))
      (\<lambda>r. case r of ReplyQueueDeclareOk p opts args \<Rightarrow> Some (p, opts, args) | _ \<Rightarrow> None) i
      (\<lambda>(p, opts, args). on_queue_declare_ok_received i name n consumers_n p opts args)"

definition queue_declare ::
  "nat \<Rightarrow> short_string \<Rightarrow> queue_declare_options \<Rightarrow> field_table \<Rightarrow> 'a world_scheme \<Rightarrow> call_outcome \<times> 'a world_scheme" where
  "queue_declare i name opts args = when_state st_connected ''queue.declare'' i (\<lambda>w.
    with_nowait (queue_nowait opts) (receive_queue_declare_ok i name 0 0)
      (request i
        (Queue (QueueDeclare name (queue_passive opts) (queue_durable opts) (queue_exclusive opts)
          (queue_auto_delete opts) (queue_nowait opts) args))
        (\<lambda>p. ReplyQueueDeclareOk p opts args) w))"

definition receive_queue_bind_ok :: "nat \<Rightarrow> 'a world_scheme \<Rightarrow> (error + unit) \<times> 'a world_scheme" where
  "receive_queue_bind_ok i = receive_reply ''queue'' ''bind-ok'' (Queue QueueBindOk)
    (\<lambda>r. case r of ReplyQueueBindOk p q x k args \<Rightarrow> Some (p, q, x, k, args) | _ \<Rightarrow> None) i
    (\<lambda>(p, q, x, k, args) w. completing p (on_queue_bind_ok_received i q x k args w))"

definition queue_bind ::
  "nat \<Rightarrow> short_string \<Rightarrow> short_string \<Rightarrow> short_string \<Rightarrow> queue_bind_options \<Rightarrow> field_table
    \<Rightarrow> 'a world_scheme \<Rightarrow> call_outcome \<times> 'a world_scheme" where
  "queue_bind i name exchange key opts args = when_state st_connected ''queue.bind'' i (\<lambda>w.
    with_nowait (queue_bind_nowait opts) (receive_queue_bind_ok i)
      (request i (Queue (QueueBind name exchange key (queue_bind_nowait opts) args))
        (\<lambda>p. ReplyQueueBindOk p name exchange key args) w))"

definition queue_purge ::
  "nat \<Rightarrow> short_string \<Rightarrow> queue_purge_options \<Rightarrow> 'a world_scheme \<Rightarrow> call_outcome \<times> 'a world_scheme" where
  "queue_purge i name opts = when_state st_connected ''queue.purge'' i (\<lambda>w.
    awaiting (request i (Queue (QueuePurge name (queue_purge_nowait opts))) ReplyQueuePurgeOk w))"

definition receive_queue_purge_ok :: "nat \<Rightarrow> message_count \<Rightarrow> 'a world_scheme \<Rightarrow> (error + unit) \<times> 'a world_scheme" where
  "receive_queue_purge_ok i n = receive_reply ''queue'' ''purge-ok'' (Queue (QueuePurgeOk n))
    (\<lambda>r. case r of ReplyQueuePurgeOk p \<Rightarrow> Some p | _ \<Rightarrow> None) i (on_queue_purge_ok_received n)"

definition receive_queue_delete_ok :: "nat \<Rightarrow> message_count \<Rightarrow> 'a world_scheme \<Rightarrow> (error + unit) \<times> 'a world_scheme" where
  "receive_queue_delete_ok i n = receive_reply ''queue'' ''delete-ok'' (Queue (QueueDeleteOk n))
    (\<lambda>r. case r of ReplyQueueDeleteOk p q \<Rightarrow> Some (p, q) | _ \<Rightarrow> None) i
    (\<lambda>(p, q). on_queue_delete_ok_received i n p q)"

definition queue_delete ::
  "nat \<Rightarrow> short_string \<Rightarrow> queue_delete_options \<Rightarrow> 'a world_scheme \<Rightarrow> call_outcome \<times> 'a world_scheme" where
  "queue_delete i name opts = when_state st_connected ''queue.delete'' i (\<lambda>w.
    with_nowait (queue_delete_nowait opts) (receive_queue_delete_ok i 0)
      (request i
        (Queue (QueueDelete name (queue_delete_if_unused opts) (queue_delete_if_empty opts)
          (queue_delete_nowait opts)))
        (\<lambda>p. ReplyQueueDeleteOk p name) w))"

definition queue_unbind ::
  "nat \<Rightarrow> short_string \<Rightarrow> short_string \<Rightarrow> short_string \<Rightarrow> field_table \<Rightarrow> 'a world_scheme \<Rightarrow> call_outcome \<times> 'a world_scheme" where
  "queue_unbind i name exchange key args = when_state st_connected ''queue.unbind'' i (\<lambda>w.
    awaiting (request i (Queue (QueueUnbind name exchange key args))
      (\<lambda>p. ReplyQueueUnbindOk p name exchange key args) w))"

definition receive_queue_unbind_ok :: "nat \<Rightarrow> 'a world_scheme \<Rightarrow> (error + unit) \<times> 'a world_scheme" where
  "receive_queue_unbind_ok i = receive_reply ''queue'' ''unbind-ok'' (Queue QueueUnbindOk)
    (\<lambda>r. case r of ReplyQueueUnbindOk p q x k args \<Rightarrow> Some (p, q, x, k, args) | _ \<Rightarrow> None) i
    (\<lambda>(p, q, x, k, args) w. completing p (on_queue_unbind_ok_received i q x k args w))"

section \<open>Transactions and confirms\<close>

definition tx_select :: "nat \<Rightarrow> 'a world_scheme \<Rightarrow> call_outcome \<times> 'a world_scheme" where
  "tx_select i = when_state st_connected ''tx.select'' i (\<lambda>w.
    awaiting (request i (Tx TxSelect) ReplyTxSelectOk w))"

definition receive_tx_select_ok :: "nat \<Rightarrow> 'a world_scheme \<Rightarrow> (error + unit) \<times> 'a world_scheme" where
  "receive_tx_select_ok i = receive_reply ''tx'' ''select-ok'' (Tx TxSelectOk)
    (\<lambda>r. case r of ReplyTxSelectOk p \<Rightarrow> Some p | _ \<Rightarrow> None) i (\<lambda>p w. completing p (Inr (), w))"

definition tx_commit :: "nat \<Rightarrow> 'a world_scheme \<Rightarrow> call_outcome \<times> 'a world_scheme" where
  "tx_commit i = when_state st_connected ''tx.commit'' i (\<lambda>w.
    awaiting (request i (Tx TxCommit) ReplyTxCommitOk w))"

definition receive_tx_commit_ok :: "nat \<Rightarrow> 'a world_scheme \<Rightarrow> (error + unit) \<times> 'a world_scheme" where
  "receive_tx_commit_ok i = receive_reply ''tx'' ''commit-ok'' (Tx TxCommitOk)
    (\<lambda>r. case r of ReplyTxCommitOk p \<Rightarrow> Some p | _ \<Rightarrow> None) i (\<lambda>p w. completing p (Inr (), w))"

definition tx_rollback :: "nat \<Rightarrow> 'a world_scheme \<Rightarrow> call_outcome \<times> 'a world_scheme" where
  "tx_rollback i = when_state st_connected ''tx.rollback'' i (\<lambda>w.
    awaiting (request i (Tx TxRollback) ReplyTxRollbackOk w))"

definition receive_tx_rollback_ok :: "nat \<Rightarrow> 'a world_scheme \<Rightarrow> (error + unit) \<times> 'a world_scheme" where
  "receive_tx_rollback_ok i = receive_reply ''tx'' ''rollback-ok'' (Tx TxRollbackOk)
    (\<lambda>r. case r of ReplyTxRollbackOk p \<Rightarrow> Some p | _ \<Rightarrow> None) i (\<lambda>p w. completing p (Inr (), w))"

definition confirm_select :: "nat \<Rightarrow> confirm_select_options \<Rightarrow> 'a world_scheme \<Rightarrow> call_outcome \<times> 'a world_scheme" where
  "confirm_select i opts = when_state connected_or_recovering ''confirm.select'' i (\<lambda>w.
    awaiting (request i (Confirm (ConfirmSelect (confirm_select_nowait opts))) ReplyConfirmSelectOk w))"

definition receive_confirm_select_ok :: "nat \<Rightarrow> 'a world_scheme \<Rightarrow> (error + unit) \<times> 'a world_scheme" where
  "receive_confirm_select_ok i = receive_reply ''confirm'' ''select-ok'' (Confirm ConfirmSelectOk)
    (\<lambda>r. case r of ReplyConfirmSelectOk p \<Rightarrow> Some p | _ \<Rightarrow> None) i
    (\<lambda>p w. completing p (on_confirm_select_ok_received i w))"

section \<open>Dispatch\<close>

definition unexpected_method :: "nat \<Rightarrow> amqp_class \<Rightarrow> 'a world_scheme \<Rightarrow> (error + unit) \<times> 'a world_scheme" where
  "unexpected_method i m w =
    handle_invalid_contents i (''unexpected method received on channel '' @ show_word (ch_id (chan i w)))
      (get_amqp_class_id m) (get_amqp_method_id m) w"

definition receive_basic :: "nat \<Rightarrow> basic_method \<Rightarrow> 'a world_scheme \<Rightarrow> (error + unit) \<times> 'a world_scheme" where
  "receive_basic i m = (case m of
      BasicQosOk \<Rightarrow> receive_basic_qos_ok i
    | BasicConsumeOk tag \<Rightarrow> receive_basic_consume_ok i tag
    | BasicCancel tag nowait \<Rightarrow> receive_basic_cancel i tag nowait
    | BasicCancelOk tag \<Rightarrow> receive_basic_cancel_ok i tag
    | BasicReturn code text exchange key \<Rightarrow> receive_basic_return i code text exchange key
    | BasicDeliver tag t redelivered exchange key \<Rightarrow> receive_basic_deliver i tag t redelivered exchange key
    | BasicGetOk t redelivered exchange key n \<Rightarrow> receive_basic_get_ok i t redelivered exchange key n
    | BasicGetEmpty \<Rightarrow> receive_basic_get_empty i
    | BasicAck t multiple \<Rightarrow> receive_basic_ack i t multiple
    | BasicRecoverOk \<Rightarrow> receive_basic_recover_ok i
    | BasicNack t multiple requeue \<Rightarrow> receive_basic_nack i t multiple requeue
    | _ \<Rightarrow> unexpected_method i (Basic m))"

definition receive_connection ::
  "(reply_code \<Rightarrow> amqp_error_kind option) \<Rightarrow> nat \<Rightarrow> connection_method \<Rightarrow> 'a world_scheme
    \<Rightarrow> (error + unit) \<times> 'a world_scheme" where
  "receive_connection error_kind_of i m = (case m of
      ConnectionStart mechanisms locales \<Rightarrow> receive_connection_start i mechanisms locales
    | ConnectionSecure challenge \<Rightarrow> receive_connection_secure i challenge
    | ConnectionTune channel_max frame_max heartbeat_interval \<Rightarrow>
        receive_connection_tune i channel_max frame_max heartbeat_interval
    | ConnectionOpenOk \<Rightarrow> receive_connection_open_ok i
    | ConnectionClose code text class_id method_id \<Rightarrow>
        receive_connection_close error_kind_of i code text class_id method_id
    | ConnectionCloseOk \<Rightarrow> receive_connection_close_ok i
    | ConnectionBlocked reason \<Rightarrow> receive_connection_blocked i reason
    | ConnectionUnblocked \<Rightarrow> receive_connection_unblocked i
    | ConnectionUpdateSecretOk \<Rightarrow> receive_connection_update_secret_ok i
    | _ \<Rightarrow> unexpected_method i (Connection m))"

definition receive_channel ::
  "(reply_code \<Rightarrow> amqp_error_kind option) \<Rightarrow> nat \<Rightarrow> channel_method \<Rightarrow> 'a world_scheme
    \<Rightarrow> (error + unit) \<times> 'a world_scheme" where
  "receive_channel error_kind_of i m = (case m of
      ChannelOpenOk \<Rightarrow> receive_channel_open_ok i
    | ChannelFlow active \<Rightarrow> receive_channel_flow i active
    | ChannelFlowOk active \<Rightarrow> receive_channel_flow_ok i active
    | ChannelClose code text _ _ \<Rightarrow> receive_channel_close error_kind_of i code text
    | ChannelCloseOk \<Rightarrow> receive_channel_close_ok i
    | _ \<Rightarrow> unexpected_method i (Channel m))"

definition receive_exchange :: "nat \<Rightarrow> exchange_method \<Rightarrow> 'a world_scheme \<Rightarrow> (error + unit) \<times> 'a world_scheme" where
  "receive_exchange i m = (case m of
      ExchangeDeclareOk \<Rightarrow> receive_exchange_declare_ok i
    | ExchangeDeleteOk \<Rightarrow> receive_exchange_delete_ok i
    | ExchangeBindOk \<Rightarrow> receive_exchange_bind_ok i
    | ExchangeUnbindOk \<Rightarrow> receive_exchange_unbind_ok i
    | _ \<Rightarrow> unexpected_method i (Exchange m))"

definition receive_queue :: "nat \<Rightarrow> queue_method \<Rightarrow> 'a world_scheme \<Rightarrow> (error + unit) \<times> 'a world_scheme" where
  "receive_queue i m = (case m of
      QueueDeclareOk name n consumers_n \<Rightarrow> receive_queue_declare_ok i name n consumers_n
    | QueueBindOk \<Rightarrow> receive_queue_bind_ok i
    | QueuePurgeOk n \<Rightarrow> receive_queue_purge_ok i n
    | QueueDeleteOk n \<Rightarrow> receive_queue_delete_ok i n
    | QueueUnbindOk \<Rightarrow> receive_queue_unbind_ok i
    | _ \<Rightarrow> unexpected_method i (Queue m))"

definition receive_tx :: "nat \<Rightarrow> tx_method \<Rightarrow> 'a world_scheme \<Rightarrow> (error + unit) \<times> 'a world_scheme" where
  "receive_tx i m = (case m of
      TxSelectOk \<Rightarrow> receive_tx_select_ok i
    | TxCommitOk \<Rightarrow> receive_tx_commit_ok i
    | TxRollbackOk \<Rightarrow> receive_tx_rollback_ok i
    | _ \<Rightarrow> unexpected_method i (Tx m))"

definition receive_method ::
  "(reply_code \<Rightarrow> amqp_error_kind option) \<Rightarrow> nat \<Rightarrow> amqp_class \<Rightarrow> 'a world_scheme
    \<Rightarrow> (error + unit) \<times> 'a world_scheme" where
  "receive_method error_kind_of i m = (case m of
      Basic b \<Rightarrow> receive_basic i b
    | Connection c \<Rightarrow> receive_connection error_kind_of i c
    | Channel c \<Rightarrow> receive_channel error_kind_of i c
    | Access a \<Rightarrow> (case a of AccessRequestOk \<Rightarrow> receive_access_request_ok i | _ \<Rightarrow> unexpected_method i m)
    | Exchange e \<Rightarrow> receive_exchange i e
    | Queue q \<Rightarrow> receive_queue i q
    | Tx t \<Rightarrow> receive_tx i t
    | Confirm c \<Rightarrow> (case c of ConfirmSelectOk \<Rightarrow> receive_confirm_select_ok i | _ \<Rightarrow> unexpected_method i m))"

section \<open>Calls that wrap the generated ones\<close>

definition channel_close :: "nat \<Rightarrow> reply_code \<Rightarrow> short_string \<Rightarrow> 'a world_scheme \<Rightarrow> call_outcome \<times> 'a world_scheme" where
  "channel_close i code text = do_channel_close i code text 0 0"

definition basic_consume ::
  "nat \<Rightarrow> short_string \<Rightarrow> short_string \<Rightarrow> basic_consume_options \<Rightarrow> field_table
    \<Rightarrow> 'a world_scheme \<Rightarrow> call_outcome \<times> 'a world_scheme" where
  "basic_consume i queue_name tag opts args = do_basic_consume i queue_name tag opts args None"

definition basic_get ::
  "nat \<Rightarrow> short_string \<Rightarrow> basic_get_options \<Rightarrow> 'a world_scheme \<Rightarrow> call_outcome \<times> 'a world_scheme" where
  "basic_get i queue_name opts = do_basic_get i queue_name opts None"

definition exchange_declare ::
  "nat \<Rightarrow> short_string \<Rightarrow> exchange_kind \<Rightarrow> exchange_declare_options \<Rightarrow> field_table
    \<Rightarrow> 'a world_scheme \<Rightarrow> call_outcome \<times> 'a world_scheme" where
  "exchange_declare i exchange kd opts args = do_exchange_declare i exchange (exchange_kind_name kd) opts args kd"

text \<open>The wait for the last pending confirm, if there is one, and what is returned after it.\<close>

definition wait_for_confirms :: "nat \<Rightarrow> 'a world_scheme \<Rightarrow> nat option \<times> 'a world_scheme" where
  "wait_for_confirms i w =
    (let (p, a) = get_last_pending (ch_acks (chan i w)) in (p, update_chan i (\<lambda>c. c\<lparr>ch_acks := a\<rparr>) w))"

definition returned_after_confirms :: "nat \<Rightarrow> 'a world_scheme \<Rightarrow> basic_return_message list \<times> 'a world_scheme" where
  "returned_after_confirms i w =
    (let (ms, s, w1) = rm_drain (ch_returned (chan i w)) w
     in (ms, update_chan i (\<lambda>c. c\<lparr>ch_returned := s\<rparr>) w1))"

section \<open>Requests and their replies\<close>

lemma chan_frames [simp]:
  "chan i (w\<lparr>promises := ps\<rparr>) = chan i w"
  "chan i (w\<lparr>switches := ks\<rparr>) = chan i w"
  "chan i (w\<lparr>notifiers := ns\<rparr>) = chan i w"
  "chan i (w\<lparr>rpc := cs\<rparr>) = chan i w"
  "chan i (w\<lparr>socket_events := es\<rparr>) = chan i w"
  "chan i (w\<lparr>frames_queue := xs\<rparr>) = chan i w"
  "chan i (w\<lparr>expected_replies := rs\<rparr>) = chan i w"
  "chan i (w\<lparr>channels_poison := m\<rparr>) = chan i w"
  "chan i (w\<lparr>consumer_objs := os\<rparr>) = chan i w"
  "chan i (promise_complete p r w) = chan i w"
  "chan i (rpc_send cmd w) = chan i w"
  by (simp_all add: chan_def promise_complete_def rpc_send_def wake_def)

lemma chan_update_chan [simp]:
  "i < length (chan_objs w) \<Longrightarrow> chan j (update_chan i f w) = (if j = i then f (chan i w) else chan j w)"
  by (auto simp: chan_def update_chan_def)

lemma check_poison_frames [simp]:
  "check_poison c (w\<lparr>promises := ps\<rparr>) = check_poison c w"
  "check_poison c (w\<lparr>frames_queue := xs\<rparr>) = check_poison c w"
  "check_poison c (w\<lparr>expected_replies := rs\<rparr>) = check_poison c w"
  "check_poison c (w\<lparr>socket_events := es\<rparr>) = check_poison c w"
  "check_poison c (promise_complete p r w) = check_poison c w"
  "check_poison c (rpc_send cmd w) = check_poison c w"
  by (simp_all add: check_poison_def split: option.split)

lemma replies_of_frames [simp]:
  "replies_of c (w\<lparr>promises := ps\<rparr>) = replies_of c w"
  "replies_of c (w\<lparr>frames_queue := xs\<rparr>) = replies_of c w"
  "replies_of c (w\<lparr>socket_events := es\<rparr>) = replies_of c w"
  "replies_of c (w\<lparr>expected_replies := AList.update c ys rs\<rparr>) = ys"
  "replies_of c (promise_complete p r w) = replies_of c w"
  "replies_of c (rpc_send cmd w) = replies_of c w"
  by (simp_all add: replies_of_def update_conv')

text \<open>A request on a channel that is not poisoned: a new promise, a frame and an expected reply.\<close>

lemma request_effect:
  assumes "check_poison (ch_id (chan i w)) w = None"
  shows "request i m reply w =
    (length (promises w),
     w\<lparr>promises := promises w @ [None],
       frames_queue := frames_queue w @
         [\<lparr>fe_frame = Method (ch_id (chan i w)) m,
           fe_sending = \<lparr>fs_canceler = Some (length (promises w)), fs_resolver = None\<rparr>\<rparr>],
       expected_replies := AList.update (ch_id (chan i w))
         (replies_of (ch_id (chan i w)) w @ [ExpectedReply (reply (length (promises w))) (length (promises w))])
         (expected_replies w),
       socket_events := socket_events w @ [SocketWake]\<rparr>)"
  using assms
  by (simp add: request_def promise_new_def promise_build_def send_method_frame_def send_frame_def push_def
      wake_def frame_entry_new_def frame_sending_new_def Let_def)

lemma take_first_hit:
  "\<forall>x\<in>set xs. \<not> P x \<Longrightarrow> P y \<Longrightarrow> take_first P (xs @ y # ys) = Some (y, xs @ ys)"
  by (induction xs) auto

lemma take_first_miss: "\<forall>x\<in>set xs. \<not> P x \<Longrightarrow> take_first P xs = None"
  by (induction xs) auto

lemma replies_ofD: "replies_of c w \<noteq> [] \<Longrightarrow> map_of (expected_replies w) c = Some (replies_of c w)"
  by (auto simp: replies_of_def split: option.splits)

text \<open>
  The oldest reply of the kind that arrives is taken, and the others stay.
\<close>

lemma match_reply_hit:
  assumes "replies_of (ch_id (chan i w)) w = xs @ x # ys" "pat (reply_of x) = Some v"
    and "\<forall>y\<in>set xs. pat (reply_of y) = None"
  shows "match_reply cn mn m pat i f w =
    f v (w\<lparr>expected_replies := AList.update (ch_id (chan i w)) (xs @ ys) (expected_replies w)\<rparr>)"
  using assms replies_ofD[of "ch_id (chan i w)" w]
    take_first_hit[of xs "\<lambda>x. pat (reply_of x) \<noteq> None" x ys]
  by (auto simp: match_reply_def expect_reply_def find_expected_reply_def split: option.splits)

lemma match_reply_miss:
  assumes "\<forall>x\<in>set (replies_of (ch_id (chan i w)) w). pat (reply_of x) = None"
  shows "match_reply cn mn m pat i f w =
    handle_invalid_contents i
      (''unexpected '' @ cn @ '' '' @ mn @ '' received on channel '' @ show_word (ch_id (chan i w))
        @ '', was awaiting for None'') (get_amqp_class_id m) (get_amqp_method_id m) w"
  using assms take_first_miss[of "replies_of (ch_id (chan i w)) w" "\<lambda>x. pat (reply_of x) \<noteq> None"]
  by (auto simp: match_reply_def expect_reply_def find_expected_reply_def replies_of_def split: option.splits)

section \<open>Methods that a channel does not accept\<close>

text \<open>The methods that a client receives, and those of them that answer a request.\<close>

fun from_server :: "amqp_class \<Rightarrow> bool" where
  "from_server (Basic m) = (case m of
      BasicQosOk \<Rightarrow> True | BasicConsumeOk _ \<Rightarrow> True | BasicCancel _ _ \<Rightarrow> True | BasicCancelOk _ \<Rightarrow> True
    | BasicReturn _ _ _ _ \<Rightarrow> True | BasicDeliver _ _ _ _ _ \<Rightarrow> True | BasicGetOk _ _ _ _ _ \<Rightarrow> True
    | BasicGetEmpty \<Rightarrow> True | BasicAck _ _ \<Rightarrow> True | BasicRecoverOk \<Rightarrow> True | BasicNack _ _ _ \<Rightarrow> True
    | _ \<Rightarrow> False)"
| "from_server (Connection m) = (case m of
      ConnectionStart _ _ \<Rightarrow> True | ConnectionSecure _ \<Rightarrow> True | ConnectionTune _ _ _ \<Rightarrow> True
    | ConnectionOpenOk \<Rightarrow> True | ConnectionClose _ _ _ _ \<Rightarrow> True | ConnectionCloseOk \<Rightarrow> True
    | ConnectionBlocked _ \<Rightarrow> True | ConnectionUnblocked \<Rightarrow> True | ConnectionUpdateSecretOk \<Rightarrow> True | _ \<Rightarrow> False)"
| "from_server (Channel m) = (m \<noteq> ChannelOpen)"
| "from_server (Access m) = (m = AccessRequestOk)"
| "from_server (Exchange m) = (m \<in> {ExchangeDeclareOk, ExchangeDeleteOk, ExchangeBindOk, ExchangeUnbindOk})"
| "from_server (Queue m) = (case m of
      QueueDeclareOk _ _ _ \<Rightarrow> True | QueueBindOk \<Rightarrow> True | QueuePurgeOk _ \<Rightarrow> True | QueueDeleteOk _ \<Rightarrow> True
    | QueueUnbindOk \<Rightarrow> True | _ \<Rightarrow> False)"
| "from_server (Tx m) = (m \<in> {TxSelectOk, TxCommitOk, TxRollbackOk})"
| "from_server (Confirm m) = (m = ConfirmSelectOk)"

fun answers_request :: "amqp_class \<Rightarrow> bool" where
  "answers_request (Basic m) = (case m of
      BasicQosOk \<Rightarrow> True | BasicConsumeOk _ \<Rightarrow> True | BasicCancelOk _ \<Rightarrow> True | BasicGetOk _ _ _ _ _ \<Rightarrow> True
    | BasicGetEmpty \<Rightarrow> True | BasicRecoverOk \<Rightarrow> True | _ \<Rightarrow> False)"
| "answers_request (Connection m) = (m \<in> {ConnectionOpenOk, ConnectionCloseOk, ConnectionUpdateSecretOk})"
| "answers_request (Channel m) = (case m of ChannelFlowOk _ \<Rightarrow> True | ChannelCloseOk \<Rightarrow> True | _ \<Rightarrow> False)"
| "answers_request (Access m) = (m = AccessRequestOk)"
| "answers_request (Exchange m) = (m \<in> {ExchangeDeclareOk, ExchangeDeleteOk, ExchangeBindOk, ExchangeUnbindOk})"
| "answers_request (Queue m) = (case m of
      QueueDeclareOk _ _ _ \<Rightarrow> True | QueueBindOk \<Rightarrow> True | QueuePurgeOk _ \<Rightarrow> True | QueueDeleteOk _ \<Rightarrow> True
    | QueueUnbindOk \<Rightarrow> True | _ \<Rightarrow> False)"
| "answers_request (Tx m) = (m \<in> {TxSelectOk, TxCommitOk, TxRollbackOk})"
| "answers_request (Confirm m) = (m = ConfirmSelectOk)"

fun is_connection_method :: "amqp_class \<Rightarrow> bool" where
  "is_connection_method (Connection _) = True"
| "is_connection_method _ = False"

definition refused :: "channel_id \<Rightarrow> amqp_class \<Rightarrow> bool" where
  "refused c m \<longleftrightarrow> \<not> from_server m \<or> answers_request m \<or> (is_connection_method m \<and> c \<noteq> 0)"

text \<open>The effect of a refusal: an error, and the command that closes the connection with its code.\<close>

definition closes_connection ::
  "amqp_class \<Rightarrow> (error + unit) \<times> 'a world_scheme \<Rightarrow> 'a world_scheme \<Rightarrow> bool" where
  "closes_connection m x w \<longleftrightarrow>
    (\<exists>k msg cmds es.
       fst x = Inl (error_of (ProtocolError \<lparr>ae_kind = Hard k, ae_message = msg\<rparr>))
     \<and> set cmds \<subseteq> {Some (CmdSetConnectionError (error_of (ProtocolError \<lparr>ae_kind = Hard k, ae_message = msg\<rparr>)))}
     \<and> snd x = w\<lparr>rpc := rpc w @ [Some CmdSetConnectionClosing,
           Some (CmdCloseConnection k msg (get_amqp_class_id m) (get_amqp_method_id m) None)] @ cmds,
         socket_events := es\<rparr>)"

lemma closes_connection_invalid:
  "closes_connection m (handle_invalid_contents i msg (get_amqp_class_id m) (get_amqp_method_id m) w) w"
  unfolding closes_connection_def
  by (intro exI[of _ 505] exI[of _ msg]
      exI[of _ "[Some (CmdSetConnectionError (error_of (ProtocolError \<lparr>ae_kind = Hard 505, ae_message = msg\<rparr>)))]"]
      exI[of _ "socket_events w @ [SocketWake, SocketWake, SocketWake]"])
    (simp add: handle_invalid_contents_def report_protocol_violation_def rpc_close_connection_def
      rpc_send_def wake_def get_id_def Let_def)

lemma closes_connection_unexpected: "closes_connection m (unexpected_method i m w) w"
  unfolding unexpected_method_def by (rule closes_connection_invalid)

lemma closes_connection_match:
  "replies_of (ch_id (chan i w)) w = [] \<Longrightarrow> closes_connection m (match_reply cn mn m pat i f w) w"
  by (simp only: match_reply_miss list.set ball_empty closes_connection_invalid)

lemma closes_connection_reply:
  "replies_of (ch_id (chan i w)) w = [] \<Longrightarrow> can_receive_messages (chan_status i w)
    \<Longrightarrow> closes_connection m (receive_reply cn mn m pat i f w) w"
  by (simp add: receive_reply_def receiving_def closes_connection_match)

lemma closes_connection_channel0:
  assumes "ch_id (chan i w) \<noteq> 0"
  shows "closes_connection m (on_channel0 m i f w) w"
proof -
  define msg where "msg = ''connection frame received on channel '' @ show_word (ch_id (chan i w))"
  have "on_channel0 m i f w =
      (Inl (error_of (ProtocolError \<lparr>ae_kind = Hard 503, ae_message = msg\<rparr>)),
       rpc_close_connection 503 msg (get_amqp_class_id m) (get_amqp_method_id m) w)"
    using assms by (simp add: on_channel0_def assert_channel0_def get_id_def msg_def)
  then show ?thesis unfolding closes_connection_def
    by (intro exI[of _ 503] exI[of _ msg] exI[of _ "[]"] exI[of _ "socket_events w @ [SocketWake, SocketWake]"])
      (simp add: rpc_close_connection_def rpc_send_def wake_def)
qed

text \<open>The definitions of the functions that receive a method.\<close>

lemmas receive_defs = receive_basic_qos_ok_def receive_basic_consume_ok_def receive_basic_cancel_ok_def
  receive_basic_get_ok_def receive_basic_recover_ok_def receive_connection_open_ok_def
  receive_connection_close_ok_def receive_connection_update_secret_ok_def receive_channel_flow_ok_def
  receive_access_request_ok_def receive_exchange_declare_ok_def receive_exchange_delete_ok_def
  receive_exchange_bind_ok_def receive_exchange_unbind_ok_def receive_queue_declare_ok_def
  receive_queue_bind_ok_def receive_queue_purge_ok_def receive_queue_delete_ok_def
  receive_queue_unbind_ok_def receive_tx_select_ok_def receive_tx_commit_ok_def receive_tx_rollback_ok_def
  receive_confirm_select_ok_def

lemma closes_connection_get_empty:
  assumes "replies_of (ch_id (chan i w)) w = []" "can_receive_messages (chan_status i w)"
  shows "closes_connection (Basic BasicGetEmpty) (receive_basic_get_empty i w) w"
proof -
  have "find_expected_reply (ch_id (chan i w)) P w = (None, w)" for P
    using assms(1) by (auto simp: find_expected_reply_def replies_of_def split: option.splits)
  then show ?thesis using assms(2)
    by (simp add: receive_basic_get_empty_def receiving_def on_basic_get_empty_received_def
        closes_connection_invalid del: get_amqp_class_id.simps get_amqp_method_id.simps)
qed

lemma closes_connection_close_ok:
  assumes "map_of (expected_replies w) (ch_id (chan i w)) = None" "can_receive_messages (chan_status i w)"
  shows "closes_connection (Channel ChannelCloseOk) (receive_channel_close_ok i w) w"
proof -
  from assms(1) have "channel_next_expected_close_ok_reply i w = (None, w)"
    by (simp add: channel_next_expected_close_ok_reply_def next_expected_close_ok_reply_def)
  then show ?thesis using assms(2)
    by (simp add: receive_channel_close_ok_def receiving_def closes_connection_invalid
        del: get_amqp_class_id.simps get_amqp_method_id.simps)
qed

lemma on_channel0_zero: "ch_id (chan i w) = 0 \<Longrightarrow> on_channel0 m i f w = f w"
  by (simp add: on_channel0_def assert_channel0_def)

lemma closes_connection_connection:
  assumes "replies_of (ch_id (chan i w)) w = []" "can_receive_messages (chan_status i w)"
    "refused (ch_id (chan i w)) (Connection m)"
  shows "closes_connection (Connection m) (receive_connection error_kind_of i m w) w"
proof (cases "ch_id (chan i w) = 0")
  case True
  with assms show ?thesis
    by (cases m) (simp_all add: refused_def receive_connection_def on_channel0_zero receive_defs
        closes_connection_reply closes_connection_unexpected)
next
  case False
  then show ?thesis
    by (cases m) (simp_all only: receive_connection_def connection_method.case receive_connection_start_def
        receive_connection_secure_def receive_connection_tune_def receive_connection_close_def
        receive_connection_blocked_def receive_connection_unblocked_def receive_defs
        closes_connection_channel0[OF False] closes_connection_unexpected)
qed

lemma closes_connection_basic:
  assumes "replies_of (ch_id (chan i w)) w = []" "can_receive_messages (chan_status i w)"
    "refused (ch_id (chan i w)) (Basic m)"
  shows "closes_connection (Basic m) (receive_basic i m w) w"
  using assms
  by (cases m) (simp_all add: refused_def receive_basic_def receive_defs closes_connection_reply
      closes_connection_unexpected closes_connection_get_empty)


text \<open>A connection with one open channel, for the examples.\<close>

definition world_empty :: world where
  "world_empty = heap.extend heap_empty \<lparr>publish_frames = [], retry_frames = [], frames_queue = [],
     low_prio_frames = [], expected_replies = [], poison = None, channels_poison = [], consumer_objs = [],
     chan_objs = [], w_conn_status = connection_status_default\<lparr>cn_state := CsConnected\<rparr>,
     w_negotiated = \<lparr>nc_channel_max = 10, nc_frame_max = 4096, nc_heartbeat = 60\<rparr>,
     w_events = \<lparr>ev_listening = True, ev_queue = []\<rparr>\<rparr>"

definition one_channel :: world where
  "one_channel = channel_set_state 0 ChConnected (snd (channel_new 1 True world_empty))"

lemma one_channel_simps [simp]:
  "length (chan_objs one_channel) = 1" "ch_id (chan 0 one_channel) = 1"
  "chan_status 0 one_channel = \<lparr>st_id = 1, st_confirm = False, st_send_flow = True, st_state = ChConnected,
     st_receiver_state = [], st_recovery_context = None, st_killswitch = 0\<rparr>"
  "expected_replies one_channel = []" "replies_of c one_channel = []" "promises one_channel = []"
  "check_poison c one_channel = None" "ch_registry (chan 0 one_channel) = registry_default"
  "frames_queue one_channel = []" "ch_consumers (chan 0 one_channel) = []"
  "rpc one_channel = [Some (CmdSetChannelStatus 1 0)]"
  by (simp_all add: one_channel_def world_empty_def channel_new_def channel_status_new_def switch_new_def
      update_rpc_status_def rpc_send_def wake_def channel_set_state_def set_state_def update_status_def
      update_chan_def chan_def Let_def heap.defs heap_empty_def replies_of_def check_poison_def)


section \<open>Calls that do not wait for the server\<close>

lemma connected_when [simp]: "st_connected (chan_status i w) \<Longrightarrow> when_state st_connected ctx i f w = f w"
  by (simp add: when_state_def)

lemma connected_can_receive: "st_connected s \<Longrightarrow> can_receive_messages s"
  by (simp add: st_connected_def can_receive_messages_def)

lemma receiving_ok [simp]: "can_receive_messages (chan_status i w) \<Longrightarrow> receiving ctx i f w = f w"
  by (simp add: receiving_def)

text \<open>A pending declaration of a queue.\<close>

definition declares_queue :: "expected_reply \<Rightarrow> bool" where
  "declares_queue x = (case reply_of x of ReplyQueueDeclareOk _ _ _ \<Rightarrow> True | _ \<Rightarrow> False)"

lemma queue_declare_waits:
  assumes "st_connected (chan_status i w)" "check_poison (ch_id (chan i w)) w = None" "\<not> queue_nowait opts"
  shows "queue_declare i name opts args w =
    (Await (length (promises w)), snd (request i (Queue (QueueDeclare name (queue_passive opts)
      (queue_durable opts) (queue_exclusive opts) (queue_auto_delete opts) False args))
      (\<lambda>p. ReplyQueueDeclareOk p opts args) w))"
  using assms by (simp add: queue_declare_def with_nowait_def awaiting_def request_effect)

text \<open>
  C34: a declaration with the \<^verbatim>\<open>nowait\<close> flag made while another declaration still waits for the server answers
  that other one: its promise is resolved with the wrong queue, the new queue is recorded with the
  options and arguments of the other one, and the call with the flag is left waiting for the server.
\<close>

theorem nowait_declare_answers_pending_declare:
  assumes "i < length (chan_objs w)" "st_connected (chan_status i w)"
    and "check_poison (ch_id (chan i w)) w = None"
    and "\<forall>x\<in>set (replies_of (ch_id (chan i w)) w). \<not> declares_queue x"
    and "\<not> queue_nowait opts" "queue_nowait opts2"
    and "queue_declare i name opts args w = (Await p, w1)"
    and "queue_declare i name2 opts2 args2 w1 = (Await p2, w2)"
  shows "promise_get p w2 = Some (Inr (VQueue
      \<lparr>queue_info_name = name2, queue_info_message_count = 0, queue_info_consumer_count = 0\<rparr>))
    \<and> promise_get p2 w2 = None
    \<and> ch_registry (chan i w2) = register_queue name2 opts args (ch_registry (chan i w))"
proof -
  let ?c = "ch_id (chan i w)" and ?n = "length (promises w)"
  note [simp] = assms(1-3,5,6) connected_can_receive[OF assms(2)]
  have w1: "p = ?n" "w1 = snd (request i (Queue (QueueDeclare name (queue_passive opts)
      (queue_durable opts) (queue_exclusive opts) (queue_auto_delete opts) False args))
      (\<lambda>p. ReplyQueueDeclareOk p opts args) w)"
    using assms(7) queue_declare_waits[OF assms(2,3,5), of name args] by auto
  then have [simp]: "chan i w1 = chan i w" "check_poison ?c w1 = None" "promises w1 = promises w @ [None]"
    "replies_of ?c w1 = replies_of ?c w @ [ExpectedReply (ReplyQueueDeclareOk ?n opts args) ?n]"
    "chan_objs w1 = chan_objs w"
    by (simp_all add: request_effect)
  have miss: "\<forall>x\<in>set (replies_of ?c w).
      (case reply_of x of ReplyQueueDeclareOk p opts args \<Rightarrow> Some (p, opts, args) | _ \<Rightarrow> None) = None"
    using assms(4) by (auto simp: declares_queue_def split: reply.splits)
  obtain q w' where req: "request i (Queue (QueueDeclare name2 (queue_passive opts2) (queue_durable opts2)
      (queue_exclusive opts2) (queue_auto_delete opts2) True args2))
      (\<lambda>p. ReplyQueueDeclareOk p opts2 args2) w1 = (q, w')" by fastforce
  then have q: "q = Suc ?n" and [simp]: "chan i w' = chan i w" "promises w' = promises w @ [None, None]"
    "replies_of ?c w' = replies_of ?c w @ ExpectedReply (ReplyQueueDeclareOk ?n opts args) ?n
      # [ExpectedReply (ReplyQueueDeclareOk (Suc ?n) opts2 args2) (Suc ?n)]" "chan_objs w' = chan_objs w"
    by (auto simp: request_effect)
  have ok: "receive_queue_declare_ok i name2 0 0 w' =
    on_queue_declare_ok_received i name2 0 0 ?n opts args
      (w'\<lparr>expected_replies := AList.update ?c (replies_of ?c w @
        [ExpectedReply (ReplyQueueDeclareOk (Suc ?n) opts2 args2) (Suc ?n)]) (expected_replies w')\<rparr>)"
    using match_reply_hit[of i w' "replies_of ?c w" _ _ _ "(?n, opts, args)"] miss
    by (simp add: receive_queue_declare_ok_def receive_reply_def)
  have "queue_declare i name2 opts2 args2 w1 = (Await q, snd (receive_queue_declare_ok i name2 0 0 w'))"
    by (simp add: queue_declare_def with_nowait_def req ok on_queue_declare_ok_received_def)
  with assms(8) q w1(1) show ?thesis
    by (auto simp: ok on_queue_declare_ok_received_def update_registry_def promise_resolve_def
        promise_complete_def promise_get_def update_chan_def chan_def nth_append)
qed

theorem nowait_declare_answers_pending_declare_witness:
  "let opts = QueueDeclareOptions False True False False False; opts2 = QueueDeclareOptions False False False False True;
       (r, w1) = queue_declare 0 ''orders'' opts [] one_channel;
       (r2, w2) = queue_declare 0 ''temp'' opts2 [] w1
   in r = Await 0 \<and> r2 = Await 1
     \<and> promise_get 0 w2 = Some (Inr (VQueue
         \<lparr>queue_info_name = ''temp'', queue_info_message_count = 0, queue_info_consumer_count = 0\<rparr>))
     \<and> promise_get 1 w2 = None"
proof -
  let ?opts = "QueueDeclareOptions False True False False False"
    and ?opts2 = "QueueDeclareOptions False False False False True"
  obtain r w1 where one: "queue_declare 0 ''orders'' ?opts [] one_channel = (r, w1)" by fastforce
  moreover obtain r2 w2 where two: "queue_declare 0 ''temp'' ?opts2 [] w1 = (r2, w2)" by fastforce
  moreover have "r = Await 0 \<and> r2 = Await 1" using one two
    by (auto simp: queue_declare_def with_nowait_def awaiting_def request_effect st_connected_def
        receive_queue_declare_ok_def receive_reply_def can_receive_messages_def match_reply_def
        expect_reply_def find_expected_reply_def replies_of_def on_queue_declare_ok_received_def)
  ultimately show ?thesis
    using nowait_declare_answers_pending_declare[of 0 one_channel ?opts ?opts2 "''orders''" "[]" 0 w1 "''temp''" "[]" 1 w2]
    unfolding Let_def by (simp add: st_connected_def)
qed

end
