(* ===== verification/Channels_Model.thy ===== *)
theory Channels_Model
  imports Channel_Methods Id_Sequence
begin

text \<open>
  Model of \<^verbatim>\<open>src/channels.rs\<close>: the open channels of a connection by their ids, the channel 0 that carries the
  connection's own methods, and what the arrival of a frame or a change of the connection's state
  means for them.  The state extends the world of the channels.  A loop over the values of the map
  runs over the list in its order.
\<close>

record channels_state = world +
  cs_channels :: "(channel_id \<times> nat) list"
  cs_ids :: "16 id_sequence"
  cs_channel0 :: nat
  cs_killswitch :: nat
  cs_auto_recover :: bool

definition channels_new :: "bool \<Rightarrow> 'a channels_state_scheme \<Rightarrow> 'a channels_state_scheme" where
  "channels_new auto_recover w =
    (let (i, w1) = channel_new 0 auto_recover w;
         w2 = channel_set_state i ChConnected w1;
         (k, w3) = switch_new w2
     in w3\<lparr>cs_channels := [], cs_ids := id_sequence_new False, cs_channel0 := i, cs_killswitch := k,
           cs_auto_recover := auto_recover\<rparr>)"

section \<open>Allocation of ids\<close>

text \<open>
  The loop of \<^verbatim>\<open>create\<close>: the first id that is not used, or none once the id it started with is met again.
\<close>

partial_function (option) create_loop ::
  "channel_id list \<Rightarrow> channel_id \<Rightarrow> channel_id \<Rightarrow> bool \<Rightarrow> 16 id_sequence \<Rightarrow> (channel_id option \<times> 16 id_sequence) option" where
  "create_loop used first c met s =
    (if c = first \<and> met then Some (None, s)
     else if c \<notin> set used then Some (Some c, s)
     else create_loop used first (fst (next_id s)) (met \<or> c = first) (snd (next_id s)))"

definition channels_create ::
  "'a channels_state_scheme \<Rightarrow> ((error + nat) \<times> 'a channels_state_scheme) option" where
  "channels_create w =
    (let channel_max = nc_channel_max (w_negotiated w);
         s = set_max channel_max (cs_ids w);
         used = keys (cs_channels w)
     in if length (cs_channels w) \<ge> unat channel_max
        then Some (Inl (error_of ChannelsLimitReached), w\<lparr>cs_ids := s\<rparr>)
        else let (first, s1) = next_id s
             in map_option (\<lambda>(r, s2).
                  let w1 = w\<lparr>cs_ids := s2\<rparr>
                  in (case r of
                        None \<Rightarrow> (Inl (error_of ChannelsLimitReached), w1)
                      | Some c \<Rightarrow>
                          let (i, w2) = channel_new c (cs_auto_recover w1) w1
                          in (Inr i, w2\<lparr>cs_channels := AList.update c i (cs_channels w2)\<rparr>)))
                (create_loop used first first False s1))"

section \<open>Access\<close>

definition channels_get :: "channel_id \<Rightarrow> 'a channels_state_scheme \<Rightarrow> nat option" where
  "channels_get c w = (if c = 0 then Some (cs_channel0 w) else map_of (cs_channels w) c)"

definition channels_remove ::
  "channel_id \<Rightarrow> error \<Rightarrow> 'a channels_state_scheme \<Rightarrow> (error + unit) \<times> 'a channels_state_scheme" where
  "channels_remove c e w =
    (let w1 = clear_expected_replies c e w
     in if c = 0 then (Inr (), w1)
        else if c \<in> set (keys (cs_channels w1))
             then (Inr (), w1\<lparr>cs_channels := AList.delete c (cs_channels w1)\<rparr>)
             else (Inl (error_of (InvalidChannel c)), w1))"

definition channels_can_recover :: "error \<Rightarrow> 'a channels_state_scheme \<Rightarrow> bool" where
  "channels_can_recover e w = can_recover (cs_auto_recover w) e"

definition channels_flow :: "'a channels_state_scheme \<Rightarrow> bool" where
  "channels_flow w = list_all (\<lambda>(_, i). st_send_flow (chan_status i w)) (cs_channels w)"

definition with_channel ::
  "channel_id \<Rightarrow> (nat \<Rightarrow> 'a channels_state_scheme \<Rightarrow> (error + unit) \<times> 'a channels_state_scheme)
    \<Rightarrow> 'a channels_state_scheme \<Rightarrow> (error + unit) \<times> 'a channels_state_scheme" where
  "with_channel c f w =
    (case channels_get c w of Some i \<Rightarrow> f i w | None \<Rightarrow> (Inl (error_of (InvalidChannel c)), w))"

definition channels_receive_method ::
  "(reply_code \<Rightarrow> amqp_error_kind option) \<Rightarrow> channel_id \<Rightarrow> amqp_class \<Rightarrow> 'a channels_state_scheme
    \<Rightarrow> (error + unit) \<times> 'a channels_state_scheme" where
  "channels_receive_method error_kind_of c m w =
    (if c = 0 then receive_method error_kind_of (cs_channel0 w) m w
     else with_channel c (\<lambda>i. receive_method error_kind_of i m) w)"

definition channels_handle_content_header_frame ::
  "channel_id \<Rightarrow> 16 word \<Rightarrow> payload_size \<Rightarrow> basic_properties \<Rightarrow> 'a channels_state_scheme
    \<Rightarrow> (error + unit) \<times> 'a channels_state_scheme" where
  "channels_handle_content_header_frame c class_id sz props =
    with_channel c (\<lambda>i. handle_content_header_frame i class_id sz props)"

definition channels_handle_body_frame ::
  "channel_id \<Rightarrow> byte list \<Rightarrow> 'a channels_state_scheme \<Rightarrow> (error + unit) \<times> 'a channels_state_scheme" where
  "channels_handle_body_frame c payload = with_channel c (\<lambda>i. handle_body_frame i payload)"

section \<open>Frames from the server\<close>

definition handle_frame ::
  "(reply_code \<Rightarrow> amqp_error_kind option) \<Rightarrow> amqp_frame \<Rightarrow> 'a channels_state_scheme
    \<Rightarrow> (error + unit) \<times> 'a channels_state_scheme" where
  "handle_frame error_kind_of f w = (case f of
      ProtocolHeader v \<Rightarrow>
        let e = error_of (InvalidProtocolVersion v);
            (r, w1) = connection_resolver 0 w
        in (Inl e, case r of Some p \<Rightarrow> promise_reject p e w1 | None \<Rightarrow> w1)
    | Method c m \<Rightarrow> channels_receive_method error_kind_of c m w
    | Heartbeat \<Rightarrow> (Inr (), w)
    | InvalidHeartbeat c \<Rightarrow>
        report_protocol_violation (cs_channel0 w)
          \<lparr>ae_kind = frame_error, ae_message = ''heartbeat frame received on channel '' @ show_word c\<rparr> 0 0 w
    | Header c h \<Rightarrow>
        if c = 0
        then report_protocol_violation (cs_channel0 w)
          \<lparr>ae_kind = channel_error,
           ae_message = ''content header frame received on channel '' @ show_word c\<rparr> (header_class_id h) 0 w
        else channels_handle_content_header_frame c (header_class_id h) (header_body_size h) (header_properties h) w
    | Body c payload \<Rightarrow> channels_handle_body_frame c payload w)"

section \<open>Changes of the connection's state\<close>

definition each_channel ::
  "(nat \<Rightarrow> 'a channels_state_scheme \<Rightarrow> 'a channels_state_scheme) \<Rightarrow> 'a channels_state_scheme \<Rightarrow> 'a channels_state_scheme" where
  "each_channel f w = fold (\<lambda>(_, i). f i) (cs_channels w) w"

definition set_conn_state :: "connection_state \<Rightarrow> 'a world_scheme \<Rightarrow> connection_state \<times> 'a world_scheme" where
  "set_conn_state x w =
    (let (old, s) = cn_set_state x (w_conn_status w) in (old, w\<lparr>w_conn_status := s\<rparr>))"

definition set_connection_closing :: "'a channels_state_scheme \<Rightarrow> 'a channels_state_scheme" where
  "set_connection_closing w =
    each_channel (\<lambda>i. channel_set_closing i None) (snd (set_conn_state CsClosing w))"

definition set_connection_closed :: "error \<Rightarrow> 'a channels_state_scheme \<Rightarrow> 'a channels_state_scheme" where
  "set_connection_closed e w =
    each_channel (\<lambda>i. channel_set_closed i e) (snd (set_conn_state CsClosed w))"

definition should_init_connection_recovery :: "'a channels_state_scheme \<Rightarrow> bool \<times> 'a channels_state_scheme" where
  "should_init_connection_recovery w =
    (if cn_connected (w_conn_status w) then (True, snd (switch_kill (cs_killswitch w) w)) else (False, w))"

definition set_connection_error :: "error \<Rightarrow> 'a channels_state_scheme \<Rightarrow> 'a channels_state_scheme" where
  "set_connection_error e w =
    (let (old, w1) = set_conn_state CsError w in
     if old = CsError then w1
     else let (r, w2) = connection_resolver 0 w1;
              w3 = (case r of Some p \<Rightarrow> promise_reject p e w2 | None \<Rightarrow> w2);
              w4 = send_event (EventError e) (frames_drop_pending e w3)
          in each_channel (\<lambda>i. channel_set_connection_error i e) w4)"

definition init_connection_recovery :: "error \<Rightarrow> 'a channels_state_scheme \<Rightarrow> error \<times> 'a channels_state_scheme" where
  "init_connection_recovery e w =
    (let w1 = clear_connection_steps e (w\<lparr>w_conn_status := cn_set_reconnecting (w_conn_status w)\<rparr>);
         (e1, w2) = fold (\<lambda>(_, i) (e, w). init_recovery i e w) (cs_channels w1) (e, w1)
     in init_recovery (cs_channel0 w2) e1 w2)"

definition init_connection_shutdown :: "error \<Rightarrow> nat option \<Rightarrow> 'a channels_state_scheme \<Rightarrow> 'a channels_state_scheme" where
  "init_connection_shutdown e resolver w =
    (let w1 = frames_drop_pending e w
     in (case resolver of Some p \<Rightarrow> promise_reject p e w1 | None \<Rightarrow> w1))"

definition finish_connection_shutdown :: "'a channels_state_scheme \<Rightarrow> 'a channels_state_scheme" where
  "finish_connection_shutdown w = snd (switch_kill (cs_killswitch w) w)"

section \<open>A free id is found\<close>

text \<open>The id at a position of the cycle of the allocator.\<close>

definition cycle_id :: "channel_id \<Rightarrow> nat \<Rightarrow> channel_id" where
  "cycle_id m k = of_nat (k mod unat m + 1)"

lemma cycle_id_inj:
  assumes "m \<noteq> 0" "cycle_id m a = cycle_id m b"
  shows "a mod unat m = b mod unat m"
proof -
  have "0 < unat m" using assms(1) by (simp add: unat_gt_0)
  then show ?thesis
    using inj_onD[OF inj_on_of_nat_Suc[of m], of "a mod unat m" "b mod unat m"] assms(2)
    by (simp add: cycle_id_def)
qed

lemma cycle_id_range: "m \<noteq> 0 \<Longrightarrow> cycle_id m k \<in> {1..m}"
  using image_of_nat_Suc[of m] by (auto simp: cycle_id_def unat_gt_0)

lemma next_id_cycle:
  assumes "cycling m s" "cycle_pos s = k mod unat m"
  shows "fst (next_id s) = cycle_id m k" "cycling m (snd (next_id s))"
    "cycle_pos (snd (next_id s)) = Suc k mod unat m"
  using next_id_cycling[OF assms(1)] assms(2) by (simp_all add: cycle_id_def mod_Suc_eq)

lemma create_loop_finds:
  assumes "cycling m s" "cycle_pos s = Suc (p + k) mod unat m" "k + d < unat m"
    and "cycle_id m (p + k + d) \<notin> set used"
  shows "\<exists>c s'. create_loop used (cycle_id m p) (cycle_id m (p + k)) (0 < k) s = Some (Some c, s')
    \<and> c \<notin> set used \<and> c \<in> {1..m} \<and> cycling m s'"
  using assms
proof (induction d arbitrary: k s)
  case 0
  have m: "m \<noteq> 0" using "0.prems" by (simp add: cycling_def)
  have "\<not> (cycle_id m (p + k) = cycle_id m p \<and> 0 < k)"
    using cycle_id_inj[OF m, of "p + k" p] "0.prems"(3) add_mod_cancel[of p k "unat m" 0] by auto
  then show ?case using "0.prems" cycle_id_range[OF m]
    by (subst create_loop.simps) auto
next
  case (Suc d)
  have m: "m \<noteq> 0" using Suc.prems by (simp add: cycling_def)
  have ne: "\<not> (cycle_id m (p + k) = cycle_id m p \<and> 0 < k)"
    using cycle_id_inj[OF m, of "p + k" p] Suc.prems(3) add_mod_cancel[of p k "unat m" 0] by auto
  show ?case
  proof (cases "cycle_id m (p + k) \<in> set used")
    case False
    then show ?thesis using ne Suc.prems(1) cycle_id_range[OF m] by (subst create_loop.simps) auto
  next
    case True
    note nx = next_id_cycle[OF Suc.prems(1,2)]
    have met: "(0 < k \<or> cycle_id m (p + k) = cycle_id m p) = (0 < Suc k)" by (cases k) auto
    from Suc.IH[of "snd (next_id s)" "Suc k"] nx Suc.prems(3,4)
    show ?thesis using True ne by (subst create_loop.simps) (auto simp: met)
  qed
qed

lemma free_cycle_id:
  assumes "length used < unat m"
  shows "\<exists>d < unat m. cycle_id m (p + d) \<notin> set used"
proof -
  have m: "m \<noteq> 0" using assms by auto
  have "card (set used) < card {1..m}"
    using assms card_length[of used] image_of_nat_Suc[of m] card_image[OF inj_on_of_nat_Suc[of m]]
    by simp
  then have "\<not> {1..m} \<subseteq> set used" by (meson card_mono finite_set leD)
  then obtain c where c: "c \<in> {1..m}" "c \<notin> set used" by blast
  then have "c \<in> (\<lambda>k. of_nat (k + 1)) ` {0..<unat m}" by (simp only: image_of_nat_Suc)
  then obtain f where f: "f < unat m" "c = of_nat (f + 1)" by auto
  from f(1) have "f \<in> (\<lambda>d. (p + d) mod unat m) ` {0..<unat m}" by (simp only: image_add_mod) simp
  then obtain d where "d < unat m" "f = (p + d) mod unat m" by auto
  with c f show ?thesis by (auto simp: cycle_id_def)
qed

lemma channel_new_fields:
  assumes "channel_new c auto_recover w = (i, w')"
  shows "i = length (chan_objs w)" "ch_id (chan i w') = c" "st_state (chan_status i w') = ChInitial"
    "cs_channels w' = cs_channels w" "cs_ids w' = cs_ids w" "w_negotiated w' = w_negotiated w"
    "cs_channel0 w' = cs_channel0 w" "channels_poison w' = channels_poison w" "poison w' = poison w"
    "length (chan_objs w') = Suc (length (chan_objs w))"
  using assms
  by (auto simp: channel_new_def channel_status_new_def switch_new_def update_rpc_status_def
      rpc_send_def wake_def chan_def Let_def)

text \<open>
  C35: as long as fewer channels are open than were negotiated, creating a channel ends with a new
  channel whose id is in 1, ..., channel_max and used by no open channel, and the next creation finds the
  allocator in the same condition; at the limit it fails and opens nothing.  The condition is that the
  next id of the allocator does not exceed the negotiated maximum.
\<close>

theorem create_allocates_free_id:
  assumes "\<not> ids_allow_zero (cs_ids w)" "ids_id (cs_ids w) \<le> nc_channel_max (w_negotiated w)"
  shows "if unat (nc_channel_max (w_negotiated w)) \<le> length (cs_channels w)
     then map_option (\<lambda>(r, w'). (r, cs_channels w')) (channels_create w)
       = Some (Inl (error_of ChannelsLimitReached), cs_channels w)
     else \<exists>i c w'. channels_create w = Some (Inr i, w')
       \<and> c \<in> {1..nc_channel_max (w_negotiated w)} \<and> c \<notin> set (keys (cs_channels w))
       \<and> ch_id (chan i w') = c \<and> i = length (chan_objs w)
       \<and> map_of (cs_channels w') = (map_of (cs_channels w))(c \<mapsto> i)
       \<and> \<not> ids_allow_zero (cs_ids w') \<and> ids_id (cs_ids w') \<le> nc_channel_max (w_negotiated w')"
proof (cases "unat (nc_channel_max (w_negotiated w)) \<le> length (cs_channels w)")
  case True
  then show ?thesis by (simp add: channels_create_def Let_def)
next
  case False
  let ?m = "nc_channel_max (w_negotiated w)" and ?used = "keys (cs_channels w)"
  let ?s = "set_max ?m (cs_ids w)"
  from False have "?m \<noteq> 0" by auto
  with assms have cyc: "cycling ?m ?s" by (simp add: cycling_set_max)
  have "cycle_pos ?s = cycle_pos ?s mod unat ?m" using cycle_pos_less[OF cyc] by simp
  note nx = next_id_cycle[OF cyc this]
  from False obtain d where d: "d < unat ?m" "cycle_id ?m (cycle_pos ?s + d) \<notin> set ?used"
    using free_cycle_id[of ?used ?m "cycle_pos ?s"] by auto
  from create_loop_finds[of ?m "snd (next_id ?s)" "cycle_pos ?s" 0 d ?used] nx d
  obtain c s' where loop: "create_loop ?used (fst (next_id ?s)) (fst (next_id ?s)) False (snd (next_id ?s))
      = Some (Some c, s')" and c: "c \<notin> set ?used" "c \<in> {1..?m}" "cycling ?m s'"
    by auto
  obtain i w' where new: "channel_new c (cs_auto_recover w) (w\<lparr>cs_ids := s'\<rparr>) = (i, w')" by fastforce
  note fields = channel_new_fields[OF new]
  have "channels_create w = Some (Inr i, w'\<lparr>cs_channels := AList.update c i (cs_channels w')\<rparr>)"
    using False loop new by (simp add: channels_create_def Let_def split_beta)
  then show ?thesis using False c fields
    by (simp add: chan_def update_conv' cycling_def)
qed

definition channels_empty :: channels_state where
  "channels_empty = channels_new False
    (heap.extend heap_empty \<lparr>publish_frames = [], retry_frames = [], frames_queue = [], low_prio_frames = [],
       expected_replies = [], poison = None, channels_poison = [], consumer_objs = [], chan_objs = [],
       w_conn_status = connection_status_default,
       w_negotiated = \<lparr>nc_channel_max = 2, nc_frame_max = 4096, nc_heartbeat = 60\<rparr>,
       w_events = \<lparr>ev_listening = True, ev_queue = []\<rparr>, cs_channels = [], cs_ids = id_sequence_new False,
       cs_channel0 = 0, cs_killswitch = 0, cs_auto_recover = False\<rparr>)"

lemma channels_empty_simps [simp]:
  "cs_ids channels_empty = id_sequence_new False" "cs_channels channels_empty = []"
  "w_negotiated channels_empty = \<lparr>nc_channel_max = 2, nc_frame_max = 4096, nc_heartbeat = 60\<rparr>"
  "length (chan_objs channels_empty) = 1"
  by (simp_all add: channels_empty_def channels_new_def channel_new_def channel_status_new_def switch_new_def
      update_rpc_status_def rpc_send_def wake_def channel_set_state_def update_status_def update_chan_def
      Let_def heap.defs heap_empty_def)

theorem create_allocates_free_id_witness:
  "\<exists>i w'. channels_create channels_empty = Some (Inr i, w') \<and> i = 1 \<and> ch_id (chan i w') \<in> {1..2}"
  using create_allocates_free_id[of channels_empty] by (auto simp: id_sequence_new_def)

text \<open>
  C36: when a reconnection negotiates a smaller maximum than the ids handed out so far, the next channel
  still gets the next id of the old range, beyond the maximum that the server accepts.
\<close>

theorem lowered_channel_max_ignored:
  assumes "\<not> ids_allow_zero (cs_ids w)" "nc_channel_max (w_negotiated w) < ids_id (cs_ids w)"
    and "ids_id (cs_ids w) \<notin> set (keys (cs_channels w))"
    and "length (cs_channels w) < unat (nc_channel_max (w_negotiated w))"
  shows "\<exists>i w'. channels_create w = Some (Inr i, w') \<and> ch_id (chan i w') = ids_id (cs_ids w)
    \<and> nc_channel_max (w_negotiated w') < ch_id (chan i w')"
proof -
  let ?s = "set_max (nc_channel_max (w_negotiated w)) (cs_ids w)"
  have nz: "ids_id (cs_ids w) \<noteq> 0" using assms(2) by auto
  with assms(1) have first: "fst (next_id ?s) = ids_id (cs_ids w)"
    by (simp add: next_id_def set_max_def Let_def)
  obtain i w' where new: "channel_new (ids_id (cs_ids w)) (cs_auto_recover w)
      (w\<lparr>cs_ids := snd (next_id ?s)\<rparr>) = (i, w')" by fastforce
  have "channels_create w = Some (Inr i, w'\<lparr>cs_channels := AList.update (ids_id (cs_ids w)) i (cs_channels w')\<rparr>)"
    using assms first new
    by (simp add: channels_create_def Let_def split_beta create_loop.simps[of _ _ "ids_id (cs_ids w)"])
  then show ?thesis using channel_new_fields[OF new] assms(2) by (simp add: chan_def)
qed

theorem lowered_channel_max_ignored_witness:
  "\<exists>i w'. channels_create (channels_empty\<lparr>cs_ids := \<lparr>ids_allow_zero = False, ids_max = Some 5, ids_id = 4\<rparr>\<rparr>)
      = Some (Inr i, w') \<and> ch_id (chan i w') = 4 \<and> nc_channel_max (w_negotiated w') < 4"
  using lowered_channel_max_ignored[of "channels_empty\<lparr>cs_ids := \<lparr>ids_allow_zero = False, ids_max = Some 5, ids_id = 4\<rparr>\<rparr>"]
  by auto

end
