(* ===== verification/Recovery_Model.thy ===== *)
theory Recovery_Model
  imports Channel_Methods
begin

text \<open>
  Model of \<^verbatim>\<open>Channel::start_recovery\<close> of \<^verbatim>\<open>src/channel.rs\<close>: after a reconnection the channel is opened again and
  its topology is declared again, each call waiting for the server's answer to the one before.  The
  calls that remain are the state of the suspended function.
\<close>

section \<open>The calls of a recovery\<close>

datatype recovery_step =
    RecoverOpen
  | RecoverConfirm
  | RecoverExchange exchange_definition
  | RecoverExchangeBinding short_string binding_definition
  | RecoverQueue queue_definition
  | RecoverQueueBinding short_string binding_definition
  | RecoverConsumer nat

definition recovery_steps :: "channel_definition \<Rightarrow> recovery_step list" where
  "recovery_steps t =
    [RecoverOpen, RecoverConfirm]
    @ map RecoverExchange (filter ed_is_declared (cd_exchanges t))
    @ concat (map (\<lambda>x. map (RecoverExchangeBinding (ed_name x)) (ed_bindings x)) (cd_exchanges t))
    @ map RecoverQueue (filter qd_is_declared (cd_queues t))
    @ concat (map (\<lambda>q. map (RecoverQueueBinding (qd_name q)) (qd_bindings q)) (cd_queues t))
    @ map RecoverConsumer (cd_consumers t)"

text \<open>The \<^verbatim>\<open>Default\<close> of the exchange's kind and of the options.\<close>

definition exchange_kind_or_default :: "exchange_kind option \<Rightarrow> exchange_kind" where
  "exchange_kind_or_default k = (case k of Some x \<Rightarrow> x | None \<Rightarrow> Direct)"

definition exchange_options_or_default :: "exchange_declare_options option \<Rightarrow> exchange_declare_options" where
  "exchange_options_or_default x =
    (case x of Some x \<Rightarrow> x | None \<Rightarrow> ExchangeDeclareOptions False False False False False)"

definition queue_options_or_default :: "queue_declare_options option \<Rightarrow> queue_declare_options" where
  "queue_options_or_default x =
    (case x of Some x \<Rightarrow> x | None \<Rightarrow> QueueDeclareOptions False False False False False)"

definition table_or_default :: "field_table option \<Rightarrow> field_table" where
  "table_or_default x = (case x of Some x \<Rightarrow> x | None \<Rightarrow> [])"

text \<open>One call; the confirm mode is only asked for when the channel had it.\<close>

definition recovery_call ::
  "nat \<Rightarrow> recovery_step \<Rightarrow> 'a world_scheme \<Rightarrow> call_outcome option \<times> 'a world_scheme" where
  "recovery_call i s w = (case s of
      RecoverOpen \<Rightarrow> map_prod Some (\<lambda>w. w) (channel_open i i w)
    | RecoverConfirm \<Rightarrow>
        if st_confirm (chan_status i w)
        then map_prod Some (\<lambda>w. w) (confirm_select i (ConfirmSelectOptions False) w) else (None, w)
    | RecoverExchange x \<Rightarrow>
        map_prod Some (\<lambda>w. w)
          (exchange_declare i (ed_name x) (exchange_kind_or_default (ed_kind x))
            (exchange_options_or_default (ed_options x)) (table_or_default (ed_arguments x)) w)
    | RecoverExchangeBinding name b \<Rightarrow>
        map_prod Some (\<lambda>w. w)
          (exchange_bind i name (bd_source b) (bd_routing_key b) (ExchangeBindOptions False) (bd_arguments b) w)
    | RecoverQueue q \<Rightarrow>
        map_prod Some (\<lambda>w. w)
          (queue_declare i (qd_name q) (queue_options_or_default (qd_options q))
            (table_or_default (qd_arguments q)) w)
    | RecoverQueueBinding name b \<Rightarrow>
        map_prod Some (\<lambda>w. w)
          (queue_bind i name (bd_source b) (bd_routing_key b) (QueueBindOptions False) (bd_arguments b) w)
    | RecoverConsumer x \<Rightarrow>
        let w1 = consumer_reset x w; c = consumer_at x w1
        in map_prod Some (\<lambda>w. w)
             (do_basic_consume i (con_queue c) (con_tag c) (con_options c) (con_arguments c) (Some x) w1))"

text \<open>The function runs until it is done or has to wait for a promise.\<close>

datatype recovery_state = RecoveryDone "error + unit" | RecoveryAwait nat "recovery_step list"

fun recovery_run ::
  "nat \<Rightarrow> recovery_step list \<Rightarrow> 'a world_scheme \<Rightarrow> recovery_state \<times> 'a world_scheme" where
  "recovery_run i [] w = (RecoveryDone (Inr ()), w)"
| "recovery_run i (s # ss) w =
    (case recovery_call i s w of
       (None, w1) \<Rightarrow> recovery_run i ss w1
     | (Some (Failed e), w1) \<Rightarrow> (RecoveryDone (Inl e), w1)
     | (Some (Await p), w1) \<Rightarrow> (RecoveryAwait p ss, w1))"

definition start_recovery :: "nat \<Rightarrow> 'a world_scheme \<Rightarrow> recovery_state \<times> 'a world_scheme" where
  "start_recovery i w =
    (case update_recovery i w of
       (None, w1) \<Rightarrow> (RecoveryDone (Inl (state_error ''start_recovery'' (chan_status i w1))), w1)
     | (Some t, w1) \<Rightarrow> recovery_run i (recovery_steps t) w1)"

definition recovery_poll ::
  "nat \<Rightarrow> recovery_state \<Rightarrow> 'a world_scheme \<Rightarrow> recovery_state \<times> 'a world_scheme" where
  "recovery_poll i s w =
    (case s of
       RecoveryDone r \<Rightarrow> (RecoveryDone r, w)
     | RecoveryAwait p ss \<Rightarrow>
         (case promise_poll p w of
            (Pending, w1) \<Rightarrow> (RecoveryAwait p ss, w1)
          | (Ready (Inl e), w1) \<Rightarrow> (RecoveryDone (Inl e), w1)
          | (Ready (Inr _), w1) \<Rightarrow> recovery_run i ss w1))"

section \<open>A recovery with a server that answers\<close>

text \<open>
  The server answers the last method that was queued, unless the method asks it not to; a queue keeps the
  name it was declared with.
\<close>

fun server_answer :: "amqp_class \<Rightarrow> amqp_class option" where
  "server_answer (Channel ChannelOpen) = Some (Channel ChannelOpenOk)"
| "server_answer (Confirm (ConfirmSelect nowait)) = (if nowait then None else Some (Confirm ConfirmSelectOk))"
| "server_answer (Exchange (ExchangeDeclare _ _ _ _ _ _ nowait _)) =
    (if nowait then None else Some (Exchange ExchangeDeclareOk))"
| "server_answer (Exchange (ExchangeBind _ _ _ nowait _)) =
    (if nowait then None else Some (Exchange ExchangeBindOk))"
| "server_answer (Queue (QueueDeclare name _ _ _ _ nowait _)) =
    (if nowait then None else Some (Queue (QueueDeclareOk name 0 0)))"
| "server_answer (Queue (QueueBind _ _ _ nowait _)) = (if nowait then None else Some (Queue QueueBindOk))"
| "server_answer (Basic (BasicConsume _ tag _ _ _ nowait _)) =
    (if nowait then None else Some (Basic (BasicConsumeOk tag)))"
| "server_answer _ = None"

definition server_reply :: "(reply_code \<Rightarrow> amqp_error_kind option) \<Rightarrow> nat \<Rightarrow> 'a world_scheme \<Rightarrow> 'a world_scheme" where
  "server_reply error_kind_of i w =
    (case fe_frame (last (frames_queue w)) of
       Method _ m \<Rightarrow>
         (case server_answer m of Some a \<Rightarrow> snd (receive_method error_kind_of i a w) | None \<Rightarrow> w)
     | _ \<Rightarrow> w)"

primrec recovery_rounds ::
  "(reply_code \<Rightarrow> amqp_error_kind option) \<Rightarrow> nat \<Rightarrow> nat \<Rightarrow> recovery_state \<times> 'a world_scheme
    \<Rightarrow> recovery_state \<times> 'a world_scheme" where
  "recovery_rounds error_kind_of i 0 x = x"
| "recovery_rounds error_kind_of i (Suc n) x =
    recovery_rounds error_kind_of i n (recovery_poll i (fst x) (server_reply error_kind_of i (snd x)))"

text \<open>The method that a step sends, and what the server's answer records in the channel.\<close>

definition recovery_method :: "recovery_step \<Rightarrow> 'a consumers_state_scheme \<Rightarrow> amqp_class" where
  "recovery_method s w = (case s of
      RecoverOpen \<Rightarrow> Channel ChannelOpen
    | RecoverConfirm \<Rightarrow> Confirm (ConfirmSelect False)
    | RecoverExchange x \<Rightarrow>
        (let opts = exchange_options_or_default (ed_options x)
         in Exchange (ExchangeDeclare (ed_name x) (exchange_kind_name (exchange_kind_or_default (ed_kind x)))
              (exchange_passive opts) (exchange_durable opts) (exchange_auto_delete opts)
              (exchange_internal opts) (exchange_nowait opts) (table_or_default (ed_arguments x))))
    | RecoverExchangeBinding name b \<Rightarrow>
        Exchange (ExchangeBind name (bd_source b) (bd_routing_key b) False (bd_arguments b))
    | RecoverQueue q \<Rightarrow>
        (let opts = queue_options_or_default (qd_options q)
         in Queue (QueueDeclare (qd_name q) (queue_passive opts) (queue_durable opts) (queue_exclusive opts)
              (queue_auto_delete opts) (queue_nowait opts) (table_or_default (qd_arguments q))))
    | RecoverQueueBinding name b \<Rightarrow>
        Queue (QueueBind name (bd_source b) (bd_routing_key b) False (bd_arguments b))
    | RecoverConsumer x \<Rightarrow>
        (let c = consumer_at x w; opts = con_options c
         in Basic (BasicConsume (con_queue c) (con_tag c) (consume_no_local opts) (consume_no_ack opts)
              (consume_exclusive opts) (consume_nowait opts) (con_arguments c))))"

fun recovery_registry :: "recovery_step \<Rightarrow> registry \<Rightarrow> registry" where
  "recovery_registry (RecoverExchange x) g =
    register_exchange (ed_name x) (exchange_kind_or_default (ed_kind x))
      (exchange_options_or_default (ed_options x)) (table_or_default (ed_arguments x)) g"
| "recovery_registry (RecoverExchangeBinding name b) g =
    register_exchange_binding name (bd_source b) (bd_routing_key b) (bd_arguments b) g"
| "recovery_registry (RecoverQueue q) g =
    register_queue (qd_name q) (queue_options_or_default (qd_options q)) (table_or_default (qd_arguments q)) g"
| "recovery_registry (RecoverQueueBinding name b) g =
    register_queue_binding name (bd_source b) (bd_routing_key b) (bd_arguments b) g"
| "recovery_registry _ g = g"

text \<open>A channel with nothing pending on a connection that works.\<close>

definition quiet :: "nat \<Rightarrow> 'a world_scheme \<Rightarrow> bool" where
  "quiet i w \<longleftrightarrow> i < length (chan_objs w) \<and> check_poison (ch_id (chan i w)) w = None
    \<and> replies_of (ch_id (chan i w)) w = []"

lemma update_chan_frames [simp]:
  "promises (update_chan i f w) = promises w"
  "frames_queue (update_chan i f w) = frames_queue w"
  "expected_replies (update_chan i f w) = expected_replies w"
  "consumer_objs (update_chan i f w) = consumer_objs w"
  "length (chan_objs (update_chan i f w)) = length (chan_objs w)"
  "replies_of c (update_chan i f w) = replies_of c w"
  "check_poison c (update_chan i f w) = check_poison c w"
  by (simp_all add: update_chan_def replies_of_def check_poison_def split: option.split)

lemma match_only_reply:
  assumes "replies_of (ch_id (chan i w)) w = [x]" "pat (reply_of x) = Some v"
  shows "match_reply cn mn m pat i f w =
    f v (w\<lparr>expected_replies := AList.update (ch_id (chan i w)) [] (expected_replies w)\<rparr>)"
  using match_reply_hit[of i w "[]" x "[]"] assms by simp

lemma chan_objs_frames [simp]:
  "chan_objs (promise_complete p r w) = chan_objs w"
  "consumer_objs (promise_complete p r w) = consumer_objs w"
  by (simp_all add: promise_complete_def)

text \<open>The part of a consumer that is set when it is created.\<close>

definition con_static :: "consumer \<Rightarrow> short_string \<times> short_string \<times> basic_consume_options \<times> field_table" where
  "con_static c = (con_tag c, con_queue c, con_options c, con_arguments c)"

text \<open>
  The effect of a step with its answer on what the recovery is about: the channel stays quiet, one
  method was sent, and the registry has the declaration.
\<close>

definition recovered :: "nat \<Rightarrow> recovery_step \<Rightarrow> 'a world_scheme \<Rightarrow> 'a world_scheme \<Rightarrow> bool" where
  "recovered i s w w' \<longleftrightarrow> quiet i w' \<and> ch_id (chan i w') = ch_id (chan i w)
    \<and> map fe_frame (frames_queue w')
        = map fe_frame (frames_queue w) @ [Method (ch_id (chan i w)) (recovery_method s w)]
    \<and> ch_registry (chan i w') = recovery_registry s (ch_registry (chan i w))
    \<and> map con_static (consumer_objs w') = map con_static (consumer_objs w)"

lemma promise_poll_ready:
  "promise_get p w = Some r \<Longrightarrow> promise_poll p w = (Ready r, w\<lparr>promises := (promises w)[p := None]\<rparr>)"
  by (simp add: promise_poll_def promise_try_wait_def)

lemma quiet_promises [simp]: "quiet i (w\<lparr>promises := ps\<rparr>) = quiet i w"
  by (simp add: quiet_def)

lemma recovered_promises [simp]: "recovered i s w (w'\<lparr>promises := ps\<rparr>) = recovered i s w w'"
  by (simp add: recovered_def)

text \<open>What the steps have in common: one request, whose answer updates the channel.\<close>

definition answered ::
  "(reply_code \<Rightarrow> amqp_error_kind option) \<Rightarrow> nat \<Rightarrow> amqp_class \<Rightarrow> (channel \<Rightarrow> channel) \<Rightarrow> 'a world_scheme
    \<Rightarrow> call_outcome \<times> 'a world_scheme \<Rightarrow> bool" where
  "answered error_kind_of i m u w x \<longleftrightarrow> (\<exists>p w1 v. x = (Await p, w1)
    \<and> promise_get p (server_reply error_kind_of i w1) = Some (Inr v)
    \<and> quiet i (server_reply error_kind_of i w1) \<and> chan i (server_reply error_kind_of i w1) = u (chan i w)
    \<and> map fe_frame (frames_queue (server_reply error_kind_of i w1))
        = map fe_frame (frames_queue w) @ [Method (ch_id (chan i w)) m]
    \<and> consumer_objs (server_reply error_kind_of i w1) = consumer_objs w)"

lemma declaration_round:
  assumes "quiet i w" "st_connected (chan_status i w)"
    and pat: "\<And>p. pat (reply p) = Some (g p)"
    and f: "\<And>p w. f (g p) w = (Inr (), promise_complete p (Inr v) (update_chan i u w))"
    and "server_answer m = (if nowait then None else Some a)"
    and "receive_method error_kind_of i a = receive_reply cn mn a pat i f"
    and "\<And>c. ch_id (u c) = ch_id c"
  shows "answered error_kind_of i m u w
    (with_nowait nowait (receive_reply cn mn a pat i f) (request i m reply w))"
  using assms unfolding answered_def
  by (cases nowait) (simp_all add: quiet_def request_effect with_nowait_def awaiting_def receive_reply_def
      match_only_reply server_reply_def promise_get_def promise_complete_def nth_append connected_can_receive)

lemma exchange_declare_answered:
  assumes "quiet i w" "st_connected (chan_status i w)"
  shows "answered error_kind_of i
    (Exchange (ExchangeDeclare name (exchange_kind_name kd) (exchange_passive opts) (exchange_durable opts)
      (exchange_auto_delete opts) (exchange_internal opts) (exchange_nowait opts) args))
    (\<lambda>c. c\<lparr>ch_registry := register_exchange name kd opts args (ch_registry c)\<rparr>) w
    (exchange_declare i name kd opts args w)"
  unfolding exchange_declare_def do_exchange_declare_def connected_when[OF assms(2)] receive_exchange_declare_ok_def
  by (rule declaration_round[OF assms, where g = "\<lambda>p. (p, name, kd, opts, args)"
      and v = "VUnit"])
    (simp_all add: on_exchange_declare_ok_received_def update_registry_def promise_resolve_def
      receive_method_def receive_exchange_def receive_exchange_declare_ok_def)

lemma exchange_bind_answered:
  assumes "quiet i w" "st_connected (chan_status i w)"
  shows "answered error_kind_of i
    (Exchange (ExchangeBind dest src key (exchange_bind_nowait opts) args))
    (\<lambda>c. c\<lparr>ch_registry := register_exchange_binding dest src key args (ch_registry c)\<rparr>) w
    (exchange_bind i dest src key opts args w)"
  unfolding exchange_bind_def connected_when[OF assms(2)] receive_exchange_bind_ok_def
  by (rule declaration_round[OF assms, where g = "\<lambda>p. (p, dest, src, key, args)"
      and v = "VUnit"])
    (simp_all add: on_exchange_bind_ok_received_def update_registry_def completing_def
      receive_method_def receive_exchange_def receive_exchange_bind_ok_def)

lemma queue_declare_answered:
  assumes "quiet i w" "st_connected (chan_status i w)"
  shows "answered error_kind_of i
    (Queue (QueueDeclare name (queue_passive opts) (queue_durable opts) (queue_exclusive opts)
      (queue_auto_delete opts) (queue_nowait opts) args))
    (\<lambda>c. c\<lparr>ch_registry := register_queue name opts args (ch_registry c)\<rparr>) w
    (queue_declare i name opts args w)"
  unfolding queue_declare_def connected_when[OF assms(2)] receive_queue_declare_ok_def
  by (rule declaration_round[OF assms, where g = "\<lambda>p. (p, opts, args)"
      and v = "VQueue \<lparr>queue_info_name = name, queue_info_message_count = 0, queue_info_consumer_count = 0\<rparr>"])
    (simp_all add: on_queue_declare_ok_received_def update_registry_def promise_resolve_def
      receive_method_def receive_queue_def receive_queue_declare_ok_def)

lemma queue_bind_answered:
  assumes "quiet i w" "st_connected (chan_status i w)"
  shows "answered error_kind_of i (Queue (QueueBind name exchange key (queue_bind_nowait opts) args))
    (\<lambda>c. c\<lparr>ch_registry := register_queue_binding name exchange key args (ch_registry c)\<rparr>) w
    (queue_bind i name exchange key opts args w)"
  unfolding queue_bind_def connected_when[OF assms(2)] receive_queue_bind_ok_def
  by (rule declaration_round[OF assms, where g = "\<lambda>p. (p, name, exchange, key, args)"
      and v = "VUnit"])
    (simp_all add: on_queue_bind_ok_received_def update_registry_def completing_def
      receive_method_def receive_queue_def receive_queue_bind_ok_def)

lemma consume_answered:
  assumes "quiet i w" "st_connected (chan_status i w)"
  shows "answered error_kind_of i
    (Basic (BasicConsume queue_name tag (consume_no_local opts) (consume_no_ack opts)
      (consume_exclusive opts) (consume_nowait opts) args))
    (\<lambda>c. c\<lparr>ch_consumers := consumers_register tag x (ch_consumers c)\<rparr>) w
    (do_basic_consume i queue_name tag opts args (Some x) w)"
  unfolding do_basic_consume_def connected_when[OF assms(2)] receive_basic_consume_ok_def
  by (rule declaration_round[OF assms, where g = "\<lambda>p. (p, queue_name, opts, args, Some x)"
      and v = "VConsumer x"])
    (simp_all add: on_basic_consume_ok_received_def set_consumers_def promise_resolve_def update_chan_def
      receive_method_def receive_basic_def receive_basic_consume_ok_def)

subsection \<open>Operations on the shared cells only\<close>

lemma cells_update:
  "heap.more w' = heap.more w \<Longrightarrow> w' = w\<lparr>promises := promises w', switches := switches w',
    notifiers := notifiers w', holders := holders w', rpc := rpc w', socket_events := socket_events w'\<rparr>"
  by (cases w, cases w') simp

lemma cells_only:
  assumes "heap.more w' = heap.more w"
  shows "frames_queue w' = frames_queue w" "check_poison c w' = check_poison c w"
    "replies_of c w' = replies_of c w" "expected_replies w' = expected_replies w"
    "consumer_objs w' = consumer_objs w" "chan_objs w' = chan_objs w" "chan i w' = chan i w"
  by (subst cells_update[OF assms], simp add: check_poison_def replies_of_def chan_def cong: option.case_cong)+

lemma cells_promise [simp]:
  "heap.more (promise_complete p r h) = heap.more h" "heap.more (rpc_send c h) = heap.more h"
  "heap.more (notify_all n h) = heap.more h" "heap.more (invalidate a h) = heap.more h"
  by (simp_all add: promise_complete_def rpc_send_def wake_def notify_all_def invalidate_def switch_kill_def)

lemma cells_fold: "(\<And>x h. heap.more (f x h) = heap.more h) \<Longrightarrow> heap.more (fold f xs h) = heap.more h"
  by (induction xs arbitrary: h) auto

lemma cells_cancel [simp]: "heap.more (cancel_expected_replies xs e h) = heap.more h"
  unfolding cancel_expected_replies_def
  by (rule cells_fold) (simp add: cancel_expected_reply_def promise_resolve_def promise_reject_def
      split: expected_reply.split reply.split)

lemma cells_invalidate [simp]: "heap.more (fold invalidate_delivery ds h) = heap.more h"
  by (rule cells_fold) (simp add: invalidate_delivery_def split: sum.split option.split)

lemma cells_acks_reset: "acks_reset e a s h = (a', s', h') \<Longrightarrow> heap.more h' = heap.more h"
  unfolding acks_reset_def acks_on_channel_error_def
  by (auto simp: promise_reject_def Let_def split: prod.split intro!: cells_fold)

lemma cells_finalize: "finalize_connection s h = (s', h') \<Longrightarrow> heap.more h' = heap.more h"
  by (auto simp: finalize_connection_def finalize_recovery_def update_rpc_status_def Let_def split: option.splits)

text \<open>The promises that a cancelled reply completes exist already.\<close>

definition reply_below :: "nat \<Rightarrow> expected_reply \<Rightarrow> bool" where
  "reply_below n x = (case x of ExpectedReply r c \<Rightarrow> (case r of ReplyBasicCancelOk p \<Rightarrow> p < n | _ \<Rightarrow> c < n))"

definition context_below :: "nat \<Rightarrow> channel_status \<Rightarrow> bool" where
  "context_below n s = (case st_recovery_context s of
      Some ctx \<Rightarrow> (case rc_expected_replies ctx of Some xs \<Rightarrow> list_all (reply_below n) xs | None \<Rightarrow> True)
    | None \<Rightarrow> True)"

lemma cancel_keeps_promise:
  "list_all (reply_below n) xs \<Longrightarrow> n \<le> p
    \<Longrightarrow> length (promises (cancel_expected_replies xs e h)) = length (promises h)
      \<and> promises (cancel_expected_replies xs e h) ! p = promises h ! p"
  unfolding cancel_expected_replies_def
  by (induction xs arbitrary: h)
    (auto simp: reply_below_def cancel_expected_reply_def promise_resolve_def promise_reject_def
      promise_complete_def split: expected_reply.splits reply.splits)

lemma finalize_keeps_promise:
  assumes "finalize_connection s h = (s', h')" "context_below n s" "n \<le> p"
  shows "promise_get p h' = promise_get p h" "length (promises h') = length (promises h)"
  using assms(1,2)
  by (auto simp: cancel_keeps_promise[OF _ assms(3)] finalize_connection_def finalize_recovery_def update_rpc_status_def context_below_def
      promise_get_def rpc_send_def wake_def notify_all_def split: option.splits if_split)

text \<open>Resetting a consumer changes only its deliveries and the shared cells.\<close>

definition same_recovery_view :: "nat \<Rightarrow> 'a world_scheme \<Rightarrow> 'a world_scheme \<Rightarrow> bool" where
  "same_recovery_view i w w' \<longleftrightarrow> quiet i w' = quiet i w \<and> chan i w' = chan i w \<and> frames_queue w' = frames_queue w
    \<and> map con_static (consumer_objs w') = map con_static (consumer_objs w)"

lemma same_view_cells:
  assumes "heap.more w' = heap.more w"
  shows "same_recovery_view i w w'"
  by (simp add: same_recovery_view_def quiet_def cells_only[OF assms])

lemma same_view_consumer:
  "(\<And>c. con_static (f c) = con_static c) \<Longrightarrow> same_recovery_view i w (update_consumer x f w)"
  by (auto simp: same_recovery_view_def quiet_def update_consumer_def check_poison_def replies_of_def chan_def
      map_update list_update_same_conv cong: option.case_cong)

lemma same_view_trans: "same_recovery_view i w w1 \<Longrightarrow> same_recovery_view i w1 w2 \<Longrightarrow> same_recovery_view i w w2"
  by (simp add: same_recovery_view_def)

lemma same_view_reset: "same_recovery_view i w (consumer_reset x w)"
proof -
  have drop: "same_recovery_view i w (drop_prefetched_messages x w)"
    unfolding drop_prefetched_messages_def Let_def
    by (rule same_view_trans[OF same_view_cells same_view_consumer])
      (simp_all add: con_static_def spawn_infallible_def rpc_spawn_def split: option.split)
  have "same_recovery_view i w (if \<not> consume_no_ack (con_options (consumer_at x w)) then drop_prefetched_messages x w else w)"
    using drop by (simp add: same_recovery_view_def)
  then show ?thesis
    unfolding consumer_reset_def Let_def by (rule same_view_trans[OF _ same_view_consumer]) (simp add: con_static_def)
qed

lemma recovery_method_static:
  assumes "map con_static (consumer_objs w') = map con_static (consumer_objs w)"
    and "\<And>x. s = RecoverConsumer x \<Longrightarrow> x < length (consumer_objs w)"
  shows "recovery_method s w' = recovery_method s w"
proof (cases s)
  case (RecoverConsumer x)
  then have "con_static (consumer_at x w') = con_static (consumer_at x w)"
    using assms by (metis consumer_at_def length_map nth_map)
  then show ?thesis
    using RecoverConsumer by (simp add: recovery_method_def con_static_def Let_def)
qed (simp_all add: recovery_method_def)

lemma recovery_method_binding:
  "recovery_method (RecoverExchangeBinding name b) w = Exchange (ExchangeBind name (bd_source b) (bd_routing_key b)
    (exchange_bind_nowait (ExchangeBindOptions False)) (bd_arguments b))"
  "recovery_method (RecoverQueueBinding name b) w = Queue (QueueBind name (bd_source b) (bd_routing_key b)
    (queue_bind_nowait (QueueBindOptions False)) (bd_arguments b))"
  by (simp_all add: recovery_method_def)

text \<open>One step of the declarations.\<close>

lemma answered_step:
  assumes "answered error_kind_of i (recovery_method s w) u w x"
    and "recovery_call i s w = map_prod Some (\<lambda>w. w) x"
    and "\<And>c. ch_id (u c) = ch_id c" "\<And>c. ch_status (u c) = ch_status c"
    and "\<And>c. ch_registry (u c) = recovery_registry s (ch_registry c)"
  shows "\<exists>p w1 v. recovery_call i s w = (Some (Await p), w1)
    \<and> promise_get p (server_reply error_kind_of i w1) = Some (Inr v)
    \<and> recovered i s w (server_reply error_kind_of i w1)
    \<and> chan_status i (server_reply error_kind_of i w1) = chan_status i w"
  using assms by (auto simp: answered_def recovered_def)

lemma answered_view:
  assumes "same_recovery_view i w w'" "answered error_kind_of i m u w' x"
    "map con_static (consumer_objs w') = map con_static (consumer_objs w)"
  shows "\<exists>p w1 v. x = (Await p, w1) \<and> promise_get p (server_reply error_kind_of i w1) = Some (Inr v)
    \<and> quiet i (server_reply error_kind_of i w1) \<and> chan i (server_reply error_kind_of i w1) = u (chan i w)
    \<and> map fe_frame (frames_queue (server_reply error_kind_of i w1))
        = map fe_frame (frames_queue w) @ [Method (ch_id (chan i w)) m]
    \<and> map con_static (consumer_objs (server_reply error_kind_of i w1)) = map con_static (consumer_objs w)"
  using assms by (auto simp: answered_def same_recovery_view_def)

lemma consume_step:
  assumes "quiet i w" "st_connected (chan_status i w)" "x < length (consumer_objs w)"
  shows "\<exists>p w1 v. recovery_call i (RecoverConsumer x) w = (Some (Await p), w1)
    \<and> promise_get p (server_reply error_kind_of i w1) = Some (Inr v)
    \<and> recovered i (RecoverConsumer x) w (server_reply error_kind_of i w1)
    \<and> chan_status i (server_reply error_kind_of i w1) = chan_status i w"
proof -
  let ?w = "consumer_reset x w" and ?c = "consumer_at x (consumer_reset x w)"
  note view = same_view_reset[of i w x]
  then have "quiet i ?w" "st_connected (chan_status i ?w)" and static: "map con_static (consumer_objs ?w) = map con_static (consumer_objs w)"
    using assms by (simp_all add: same_recovery_view_def)
  have "recovery_method (RecoverConsumer x) ?w = recovery_method (RecoverConsumer x) w"
    by (rule recovery_method_static[OF static]) (use assms(3) in simp)
  then have m: "recovery_method (RecoverConsumer x) w = Basic (BasicConsume (con_queue ?c) (con_tag ?c)
      (consume_no_local (con_options ?c)) (consume_no_ack (con_options ?c)) (consume_exclusive (con_options ?c))
      (consume_nowait (con_options ?c)) (con_arguments ?c))"
    by (simp add: recovery_method_def Let_def)
  from answered_view[OF view consume_answered[OF \<open>quiet i ?w\<close> \<open>st_connected (chan_status i ?w)\<close>,
      of error_kind_of "con_queue ?c" "con_tag ?c" "con_options ?c" "con_arguments ?c" x] static]
  show ?thesis by (auto simp: recovery_call_def recovered_def m Let_def)
qed

lemma declaration_step:
  assumes "quiet i w" "st_connected (chan_status i w)" "s \<noteq> RecoverOpen" "s \<noteq> RecoverConfirm"
    and "\<And>x. s = RecoverConsumer x \<Longrightarrow> x < length (consumer_objs w)"
  shows "\<exists>p w1 v. recovery_call i s w = (Some (Await p), w1)
    \<and> promise_get p (server_reply error_kind_of i w1) = Some (Inr v)
    \<and> recovered i s w (server_reply error_kind_of i w1)
    \<and> chan_status i (server_reply error_kind_of i w1) = chan_status i w"
proof (cases s)
  case (RecoverExchange x)
  show ?thesis unfolding RecoverExchange
    by (rule answered_step, simp only: recovery_method_def recovery_step.case Let_def,
        rule exchange_declare_answered[OF assms(1,2)]) (simp_all add: recovery_call_def)
next
  case (RecoverExchangeBinding name b)
  show ?thesis unfolding RecoverExchangeBinding
    by (rule answered_step, simp only: recovery_method_binding, rule exchange_bind_answered[OF assms(1,2)])
      (simp_all add: recovery_call_def)
next
  case (RecoverQueue q)
  show ?thesis unfolding RecoverQueue
    by (rule answered_step, simp only: recovery_method_def recovery_step.case Let_def,
        rule queue_declare_answered[OF assms(1,2)]) (simp_all add: recovery_call_def)
next
  case (RecoverQueueBinding name b)
  show ?thesis unfolding RecoverQueueBinding
    by (rule answered_step, simp only: recovery_method_binding, rule queue_bind_answered[OF assms(1,2)])
      (simp_all add: recovery_call_def)
qed (use assms consume_step in simp_all)

text \<open>The first two steps; the one that makes the channel usable again releases what waited for it.\<close>

lemma finalize_status:
  "finalize_connection s h = (s', h') \<Longrightarrow> s' = s\<lparr>st_state := ChConnected, st_recovery_context := None\<rparr>"
  by (auto simp: finalize_connection_def Let_def split: option.splits)

lemma finalize_effect:
  assumes "finalize_connection s w = (s', w1)" "context_below n s" "n \<le> p" "i < length (chan_objs w)"
  defines "w' \<equiv> update_status i (\<lambda>_. s') w1"
  shows "promise_get p w' = promise_get p w" "length (promises w') = length (promises w)"
    "quiet i w' = quiet i w" "frames_queue w' = frames_queue w" "consumer_objs w' = consumer_objs w"
    "chan i w' = (chan i w)\<lparr>ch_status := s\<lparr>st_state := ChConnected, st_recovery_context := None\<rparr>\<rparr>"
  using finalize_keeps_promise[OF assms(1-3)] finalize_status[OF assms(1)] assms(4)
  by (simp_all add: w'_def update_status_def cells_only[OF cells_finalize[OF assms(1)]] quiet_def promise_get_def
      split: if_splits)

lemma completed_step:
  assumes "promise_get p w' = None" "p < length (promises w')" "quiet i w'" "ch_id (chan i w') = ch_id (chan i w)"
    and "map fe_frame (frames_queue w') = map fe_frame (frames_queue w) @ [Method (ch_id (chan i w)) (recovery_method s w)]"
    and "ch_registry (chan i w') = recovery_registry s (ch_registry (chan i w))" "consumer_objs w' = consumer_objs w"
  shows "promise_get p (promise_complete p r w') = Some r" "recovered i s w (promise_complete p r w')"
    "length (promises (promise_complete p r w')) = length (promises w')"
    "chan i (promise_complete p r w') = chan i w'"
  using assms by (simp_all add: recovered_def quiet_def promise_complete_def promise_get_def)

lemma open_step:
  assumes "quiet i w" "st_reconnecting (chan_status i w)" "context_below (length (promises w)) (chan_status i w)"
  shows "\<exists>p w1 v. recovery_call i RecoverOpen w = (Some (Await p), w1)
    \<and> promise_get p (server_reply error_kind_of i w1) = Some (Inr v)
    \<and> recovered i RecoverOpen w (server_reply error_kind_of i w1)
    \<and> length (promises (server_reply error_kind_of i w1)) = Suc (length (promises w))
    \<and> chan_status i (server_reply error_kind_of i w1) =
        (if st_confirm (chan_status i w) then chan_status i w
         else (chan_status i w)\<lparr>st_state := ChConnected, st_recovery_context := None\<rparr>)"
proof -
  let ?p = "length (promises w)"
  obtain w1 where w1: "request i (Channel ChannelOpen) (\<lambda>p. ReplyChannelOpenOk p i) w = (?p, w1)"
    and [simp]: "chan i w1 = chan i w" "promises w1 = promises w @ [None]"
      "replies_of (ch_id (chan i w)) w1 = [ExpectedReply (ReplyChannelOpenOk ?p i) ?p]"
      "fe_frame (last (frames_queue w1)) = Method (ch_id (chan i w)) (Channel ChannelOpen)"
      "map fe_frame (frames_queue w1) = map fe_frame (frames_queue w) @ [Method (ch_id (chan i w)) (Channel ChannelOpen)]"
      "consumer_objs w1 = consumer_objs w" "chan_objs w1 = chan_objs w"
      "check_poison (ch_id (chan i w)) w1 = None"
    using assms(1) by (simp add: request_effect quiet_def)
  define w2 where "w2 = w1\<lparr>expected_replies := AList.update (ch_id (chan i w)) [] (expected_replies w1)\<rparr>"
  have [simp]: "chan i w2 = chan i w" "promises w2 = promises w @ [None]"
      "replies_of (ch_id (chan i w)) w2 = []" "frames_queue w2 = frames_queue w1" "chan_objs w2 = chan_objs w"
      "consumer_objs w2 = consumer_objs w" "check_poison (ch_id (chan i w)) w2 = None"
    by (simp_all add: w2_def)
  have reply: "server_reply error_kind_of i w1 = snd (on_channel_open_ok_received i ?p i w2)"
    using assms(2) by (simp add: server_reply_def receive_method_def receive_channel_def receive_channel_open_ok_def
        st_initializing_def st_reconnecting_def match_only_reply w2_def)
  define w3 where "w3 = (if \<not> st_confirm (chan_status i w) then channel_finalize_connection i w2 else w2)"
  obtain s w4 where fin: "finalize_connection (chan_status i w) w2 = (s, w4)" by fastforce
  have "i < length (chan_objs w2)" using assms(1) by (simp add: quiet_def)
  note eff = finalize_effect[OF fin assms(3) order_refl this]
  have q: "quiet i w2" using assms(1) by (simp add: quiet_def)
  have chan3: "chan i w3 = (if st_confirm (chan_status i w) then chan i w else
      (chan i w)\<lparr>ch_status := (chan_status i w)\<lparr>st_state := ChConnected, st_recovery_context := None\<rparr>\<rparr>)"
    and "promise_get ?p w3 = None" "length (promises w3) = Suc ?p" "quiet i w3" "frames_queue w3 = frames_queue w1"
      "consumer_objs w3 = consumer_objs w"
    using eff q by (simp_all add: w3_def channel_finalize_connection_def fin promise_get_def nth_append)
  then have "promise_get ?p w3 = None" "?p < length (promises w3)" "quiet i w3" "ch_id (chan i w3) = ch_id (chan i w)"
      "map fe_frame (frames_queue w3) = map fe_frame (frames_queue w) @ [Method (ch_id (chan i w)) (recovery_method RecoverOpen w)]"
      "ch_registry (chan i w3) = recovery_registry RecoverOpen (ch_registry (chan i w))" "consumer_objs w3 = consumer_objs w"
    by (simp_all add: recovery_method_def)
  note completed = completed_step[OF this, of "Inr (VChannel i)"]
  have "recovery_call i RecoverOpen w = (Some (Await ?p), w1)"
    using assms(2) by (simp add: recovery_call_def channel_open_def when_state_def st_initializing_def
        st_reconnecting_def awaiting_def w1)
  moreover have "server_reply error_kind_of i w1 = promise_complete ?p (Inr (VChannel i)) w3"
    by (simp add: reply on_channel_open_ok_received_def w3_def promise_resolve_def)
  ultimately show ?thesis using completed \<open>length (promises w3) = Suc ?p\<close> by (simp add: chan3)
qed

lemma confirm_step:
  assumes "quiet i w" "st_reconnecting (chan_status i w)" "st_confirm (chan_status i w)"
    and "context_below (length (promises w)) (chan_status i w)"
  shows "\<exists>p w1 v. recovery_call i RecoverConfirm w = (Some (Await p), w1)
    \<and> promise_get p (server_reply error_kind_of i w1) = Some (Inr v)
    \<and> recovered i RecoverConfirm w (server_reply error_kind_of i w1)
    \<and> chan_status i (server_reply error_kind_of i w1) =
        (chan_status i w)\<lparr>st_confirm := True, st_state := ChConnected, st_recovery_context := None\<rparr>"
proof -
  let ?p = "length (promises w)"
  obtain w1 where w1: "request i (Confirm (ConfirmSelect False)) ReplyConfirmSelectOk w = (?p, w1)"
    and [simp]: "chan i w1 = chan i w" "promises w1 = promises w @ [None]"
      "replies_of (ch_id (chan i w)) w1 = [ExpectedReply (ReplyConfirmSelectOk ?p) ?p]"
      "fe_frame (last (frames_queue w1)) = Method (ch_id (chan i w)) (Confirm (ConfirmSelect False))"
      "map fe_frame (frames_queue w1) = map fe_frame (frames_queue w) @ [Method (ch_id (chan i w)) (Confirm (ConfirmSelect False))]"
      "consumer_objs w1 = consumer_objs w" "chan_objs w1 = chan_objs w"
      "check_poison (ch_id (chan i w)) w1 = None"
    using assms(1) by (simp add: request_effect quiet_def)
  define w2 where "w2 = w1\<lparr>expected_replies := AList.update (ch_id (chan i w)) [] (expected_replies w1)\<rparr>"
  have [simp]: "chan i w2 = chan i w" "promises w2 = promises w @ [None]"
      "replies_of (ch_id (chan i w)) w2 = []" "frames_queue w2 = frames_queue w1" "chan_objs w2 = chan_objs w"
      "consumer_objs w2 = consumer_objs w" "check_poison (ch_id (chan i w)) w2 = None"
    by (simp_all add: w2_def)
  obtain s w4 where fin: "finalize_connection ((chan_status i w)\<lparr>st_confirm := True\<rparr>) w2 = (s, w4)" by fastforce
  define w3 where "w3 = update_status i (\<lambda>_. s) w4"
  have q: "quiet i w2" "i < length (chan_objs w2)" using assms(1) by (simp_all add: quiet_def)
  have below: "context_below ?p ((chan_status i w)\<lparr>st_confirm := True\<rparr>)"
    using assms(4) by (simp add: context_below_def)
  note eff = finalize_effect[OF fin below order_refl q(2), folded w3_def]
  then have "promise_get ?p w3 = None" "?p < length (promises w3)" "quiet i w3" "ch_id (chan i w3) = ch_id (chan i w)"
      "map fe_frame (frames_queue w3) = map fe_frame (frames_queue w) @ [Method (ch_id (chan i w)) (recovery_method RecoverConfirm w)]"
      "ch_registry (chan i w3) = recovery_registry RecoverConfirm (ch_registry (chan i w))" "consumer_objs w3 = consumer_objs w"
    using q by (simp_all add: recovery_method_def promise_get_def nth_append)
  note completed = completed_step[OF this, of "Inr VUnit"]
  have "recovery_call i RecoverConfirm w = (Some (Await ?p), w1)"
    using assms(2,3) by (simp add: recovery_call_def confirm_select_def when_state_def connected_or_recovering_def
        st_reconnecting_def awaiting_def w1)
  moreover have "server_reply error_kind_of i w1 = promise_complete ?p (Inr VUnit) w3"
    using assms(2) by (simp add: server_reply_def receive_method_def receive_confirm_select_ok_def
        can_receive_messages_def receive_reply_def st_reconnecting_def match_only_reply w2_def[symmetric]
        on_confirm_select_ok_received_def set_confirm_def fin completing_def w3_def)
  ultimately show ?thesis using completed eff(6) by simp
qed

text \<open>A round: the answer arrives and the function runs to its next call.\<close>

lemma recovery_round:
  assumes "recovery_call i s w = (Some (Await p), w1)" "w2 = server_reply error_kind_of i w1"
    and "promise_get p w2 = Some (Inr v)"
  shows "recovery_run i (s # ss) w = (RecoveryAwait p ss, w1)"
    and "recovery_poll i (RecoveryAwait p ss) w2 = recovery_run i ss (w2\<lparr>promises := (promises w2)[p := None]\<rparr>)"
  using assms by (simp_all add: recovery_poll_def promise_poll_ready)

lemma recovery_rounds_Suc:
  assumes "recovery_call i s w = (Some (Await p), w1)"
    and "promise_get p (server_reply error_kind_of i w1) = Some (Inr v)"
    and "w2 = (server_reply error_kind_of i w1)\<lparr>promises := (promises (server_reply error_kind_of i w1))[p := None]\<rparr>"
  shows "recovery_rounds error_kind_of i (Suc n) (recovery_run i (s # ss) w)
    = recovery_rounds error_kind_of i n (recovery_run i ss w2)"
  using recovery_round[OF assms(1) refl assms(2)] assms(3) by simp

text \<open>What a list of steps does, each answered.\<close>

definition replayed :: "nat \<Rightarrow> recovery_step list \<Rightarrow> 'a world_scheme \<Rightarrow> 'a world_scheme \<Rightarrow> bool" where
  "replayed i ss w w' \<longleftrightarrow> quiet i w' \<and> ch_id (chan i w') = ch_id (chan i w)
    \<and> map fe_frame (frames_queue w')
        = map fe_frame (frames_queue w) @ map (\<lambda>s. Method (ch_id (chan i w)) (recovery_method s w)) ss
    \<and> ch_registry (chan i w') = fold recovery_registry ss (ch_registry (chan i w))
    \<and> map con_static (consumer_objs w') = map con_static (consumer_objs w)"

definition consumers_exist :: "recovery_step list \<Rightarrow> 'a world_scheme \<Rightarrow> bool" where
  "consumers_exist ss w \<longleftrightarrow> list_all (\<lambda>s. case s of RecoverConsumer x \<Rightarrow> x < length (consumer_objs w) | _ \<Rightarrow> True) ss"

lemma consumers_exist_static:
  "map con_static (consumer_objs w') = map con_static (consumer_objs w) \<Longrightarrow> consumers_exist ss w' = consumers_exist ss w"
  using map_eq_imp_length_eq[of con_static "consumer_objs w'" con_static "consumer_objs w"]
  by (simp add: consumers_exist_def cong: recovery_step.case_cong)

lemma replayed_Nil: "quiet i w \<Longrightarrow> replayed i [] w w"
  by (simp add: replayed_def)

lemma replayed_Cons:
  assumes "recovered i s w w1" "replayed i ss w1 w'" "consumers_exist ss w"
  shows "replayed i (s # ss) w w'"
proof -
  have "recovery_method x w1 = recovery_method x w" if "x \<in> set ss" for x
    using assms(1,3) that
    by (intro recovery_method_static) (auto simp: recovered_def consumers_exist_def list_all_iff)
  then show ?thesis using assms(1,2) by (auto simp: replayed_def recovered_def)
qed

lemma declarations_replayed:
  assumes "quiet i w" "st_connected (chan_status i w)" "RecoverOpen \<notin> set ss" "RecoverConfirm \<notin> set ss"
    and "consumers_exist ss w"
  shows "\<exists>w'. recovery_rounds error_kind_of i (length ss) (recovery_run i ss w) = (RecoveryDone (Inr ()), w')
    \<and> replayed i ss w w' \<and> chan_status i w' = chan_status i w"
  using assms
proof (induction ss arbitrary: w)
  case Nil
  then show ?case by (simp add: replayed_Nil)
next
  case (Cons s ss)
  then have "\<exists>p w1 v. recovery_call i s w = (Some (Await p), w1)
    \<and> promise_get p (server_reply error_kind_of i w1) = Some (Inr v)
    \<and> recovered i s w (server_reply error_kind_of i w1)
    \<and> chan_status i (server_reply error_kind_of i w1) = chan_status i w"
    by (intro declaration_step) (auto simp: consumers_exist_def)
  then obtain p w1 v where step: "recovery_call i s w = (Some (Await p), w1)"
    "promise_get p (server_reply error_kind_of i w1) = Some (Inr v)"
    and rec: "recovered i s w (server_reply error_kind_of i w1)"
    and st: "chan_status i (server_reply error_kind_of i w1) = chan_status i w"
    by blast
  define w2 where "w2 = (server_reply error_kind_of i w1)\<lparr>promises := (promises (server_reply error_kind_of i w1))[p := None]\<rparr>"
  have w2: "recovered i s w w2" "chan_status i w2 = chan_status i w"
    using rec st by (simp_all add: w2_def)
  have tail: "consumers_exist ss w" using Cons.prems(5) by (simp add: consumers_exist_def)
  then have "quiet i w2" "consumers_exist ss w2"
    using w2(1) consumers_exist_static[of w2 w ss] by (simp_all add: recovered_def)
  then obtain w' where "recovery_rounds error_kind_of i (length ss) (recovery_run i ss w2) = (RecoveryDone (Inr ()), w')"
    "replayed i ss w2 w'" "chan_status i w' = chan_status i w2"
    using Cons.IH[of w2] Cons.prems w2(2) by auto
  then show ?case
    using recovery_rounds_Suc[OF step w2_def, of "length ss" ss] replayed_Cons[OF w2(1) _ tail] w2(2)
    by (intro exI[of _ w']) (simp del: recovery_rounds.simps)
qed

lemma reply_below_mono: "reply_below n x \<Longrightarrow> n \<le> m \<Longrightarrow> reply_below m x"
  by (cases x; cases "reply_of x") (simp_all add: reply_below_def)

lemma context_below_mono: "context_below n s \<Longrightarrow> n \<le> m \<Longrightarrow> context_below m s"
  by (auto simp: context_below_def list_all_iff dest: reply_below_mono split: option.splits)

lemma opened_replayed:
  assumes "quiet i w" "st_reconnecting (chan_status i w)" "context_below (length (promises w)) (chan_status i w)"
    and "RecoverOpen \<notin> set ds" "RecoverConfirm \<notin> set ds" "consumers_exist ds w"
    and "ss = (if st_confirm (chan_status i w) then [RecoverOpen, RecoverConfirm] else [RecoverOpen]) @ ds"
  shows "\<exists>w'. recovery_rounds error_kind_of i (length ss) (recovery_run i (RecoverOpen # RecoverConfirm # ds) w)
      = (RecoveryDone (Inr ()), w') \<and> replayed i ss w w' \<and> st_connected (chan_status i w')"
proof -
  let ?reply = "\<lambda>w p. (server_reply error_kind_of i w)\<lparr>promises := (promises (server_reply error_kind_of i w))[p := None]\<rparr>"
  obtain p w1 v where opened: "recovery_call i RecoverOpen w = (Some (Await p), w1)"
      "promise_get p (server_reply error_kind_of i w1) = Some (Inr v)" "recovered i RecoverOpen w (?reply w1 p)"
    and len: "length (promises (?reply w1 p)) = Suc (length (promises w))"
    and st: "chan_status i (?reply w1 p) = (if st_confirm (chan_status i w) then chan_status i w
         else (chan_status i w)\<lparr>st_state := ChConnected, st_recovery_context := None\<rparr>)"
    using open_step[OF assms(1-3), of error_kind_of] by auto
  define w2 where "w2 = ?reply w1 p"
  note round = recovery_rounds_Suc[OF opened(1,2) w2_def]
  note w2 = opened(3)[folded w2_def] st[folded w2_def] len[folded w2_def]
  then have ex2: "quiet i w2" "consumers_exist ds w2"
    using assms(6) consumers_exist_static[of w2 w ds] by (simp_all add: recovered_def)
  show ?thesis
  proof (cases "st_confirm (chan_status i w)")
    case False
    then have "recovery_run i (RecoverConfirm # ds) w2 = recovery_run i ds w2" "st_connected (chan_status i w2)"
      using w2(2) by (simp_all add: recovery_call_def st_connected_def)
    then show ?thesis
      using declarations_replayed[OF ex2(1) _ assms(4,5) ex2(2), of error_kind_of] False
        round[of "length ds" "RecoverConfirm # ds"] replayed_Cons[OF w2(1) _ assms(6)] assms(7)
      by (auto simp del: recovery_rounds.simps)
  next
    case True
    then have "st_reconnecting (chan_status i w2)" "st_confirm (chan_status i w2)"
      "context_below (length (promises w2)) (chan_status i w2)"
      using w2 assms(2,3) context_below_mono by auto
    then obtain q w3 u where conf: "recovery_call i RecoverConfirm w2 = (Some (Await q), w3)"
      "promise_get q (server_reply error_kind_of i w3) = Some (Inr u)" "recovered i RecoverConfirm w2 (?reply w3 q)"
      "st_connected (chan_status i (?reply w3 q))"
      using confirm_step[OF ex2(1), of error_kind_of] by (auto simp: st_connected_def)
    define w4 where "w4 = ?reply w3 q"
    note w4 = conf(3,4)[folded w4_def]
    then have ex4: "quiet i w4" "consumers_exist ds w4"
      using ex2 consumers_exist_static[of w4 w2 ds] by (simp_all add: recovered_def)
    obtain w' where "recovery_rounds error_kind_of i (length ds) (recovery_run i ds w4) = (RecoveryDone (Inr ()), w')"
      "replayed i ds w4 w'" "st_connected (chan_status i w')"
      using declarations_replayed[OF ex4(1) w4(2) assms(4,5) ex4(2), of error_kind_of] w4(2) by auto
    moreover have "consumers_exist (RecoverConfirm # ds) w" using assms(6) by (simp add: consumers_exist_def)
    ultimately show ?thesis
      using round[of "Suc (length ds)" "RecoverConfirm # ds"] True assms(7)
        recovery_rounds_Suc[OF conf(1,2) w4_def, of "length ds" ds]
        replayed_Cons[OF w2(1) replayed_Cons[OF w4(1) _ ex2(2)]]
      by (auto simp del: recovery_rounds.simps)
  qed
qed

section \<open>A recovery declares everything again\<close>

lemma length_promises_fold:
  "(\<And>x h. length (promises (f x h)) = length (promises h)) \<Longrightarrow> length (promises (fold f xs h)) = length (promises h)"
  by (induction xs arbitrary: h) auto

lemma acks_reset_length: "acks_reset e a s h = (a', s', h') \<Longrightarrow> length (promises h') = length (promises h)"
  unfolding acks_reset_def acks_on_channel_error_def
  by (auto simp: promise_reject_def promise_complete_def Let_def intro!: length_promises_fold split: prod.split)

lemma update_recovery_effect:
  assumes "i < length (chan_objs w)" "st_recovery_context (chan_status i w) = Some ctx" "poison w = None"
    and "list_all (reply_below (length (promises w))) (replies_of (ch_id (chan i w)) w)"
  obtains w1 where "update_recovery i w = (Some (rc_topology ctx), w1)" "quiet i w1"
    "context_below (length (promises w1)) (chan_status i w1)"
    "st_state (chan_status i w1) = st_state (chan_status i w)"
    "st_confirm (chan_status i w1) = st_confirm (chan_status i w)"
    "ch_id (chan i w1) = ch_id (chan i w)" "ch_registry (chan i w1) = ch_registry (chan i w)"
    "frames_queue w1 = frames_queue w" "consumer_objs w1 = consumer_objs w"
proof -
  let ?c = "ch_id (chan i w)" and ?ctx = "ctx\<lparr>rc_expected_replies := map_of (expected_replies w) (ch_id (chan i w))\<rparr>"
  define w2 where "w2 = w\<lparr>expected_replies := AList.delete ?c (expected_replies w)\<rparr>"
  have chan2: "chan i w2 = chan i w" by (simp add: w2_def)
  obtain a s w3 where reset: "acks_reset (rc_cause ctx) (ch_acks (chan i w)) (ch_returned (chan i w)) w2 = (a, s, w3)"
    using prod_cases3 by blast
  note upd = cells_update[OF cells_acks_reset[OF reset]]
  have w3: "chan i w3 = chan i w" "chan_objs w3 = chan_objs w" "frames_queue w3 = frames_queue w"
      "consumer_objs w3 = consumer_objs w" "poison w3 = None"
      "expected_replies w3 = AList.delete ?c (expected_replies w)"
    by (subst upd, simp add: w2_def chan_def assms(3))+
  define w1 where "w1 = update_status i (\<lambda>st. st\<lparr>st_recovery_context := Some ?ctx\<rparr>)
    (drop_channel_poison ?c (set_acks i a s w3))"
  have chan1: "chan i w1 = (chan i w)\<lparr>ch_acks := a, ch_returned := s,
      ch_status := (chan_status i w)\<lparr>st_recovery_context := Some ?ctx\<rparr>\<rparr>"
    using assms(1) by (simp add: w1_def update_status_def update_chan_def drop_channel_poison_def set_acks_def chan_def w3(2))
  have others: "promises w1 = promises w3" "frames_queue w1 = frames_queue w3" "consumer_objs w1 = consumer_objs w3"
      "length (chan_objs w1) = length (chan_objs w3)" "expected_replies w1 = expected_replies w3"
      "poison w1 = poison w3" "map_of (channels_poison w1) ?c = None"
    by (simp_all add: w1_def update_status_def update_chan_def drop_channel_poison_def set_acks_def delete_conv')
  show thesis
  proof (rule that)
    show "update_recovery i w = (Some (rc_topology ctx), w1)"
      using assms(2) reset chan2
      by (simp add: update_recovery_def take_expected_replies_def w2_def w1_def set_expected_replies_def Let_def)
    show "quiet i w1"
      using assms(1) by (simp add: quiet_def chan1 others w3 check_poison_def replies_of_def delete_conv')
    show "context_below (length (promises w1)) (chan_status i w1)"
      using assms(4) acks_reset_length[OF reset]
      by (simp add: context_below_def chan1 others replies_of_def w2_def split: option.splits)
  qed (simp_all add: chan1 others w3)
qed

lemma recovery_steps_parts:
  obtains ds where "recovery_steps t = RecoverOpen # RecoverConfirm # ds" "RecoverOpen \<notin> set ds" "RecoverConfirm \<notin> set ds"
    "\<And>c. filter (\<lambda>s. s = RecoverConfirm \<longrightarrow> c) ds = ds"
proof -
  let ?ds = "drop 2 (recovery_steps t)"
  have no: "RecoverOpen \<notin> set ?ds" "RecoverConfirm \<notin> set ?ds" by (auto simp: recovery_steps_def)
  then have "filter (\<lambda>s. s = RecoverConfirm \<longrightarrow> c) ?ds = ?ds" for c by (intro filter_True) auto
  then show thesis using that[of ?ds] no by (simp add: recovery_steps_def)
qed

lemma recovery_replayed:
  assumes "i < length (chan_objs w)" "st_reconnecting (chan_status i w)"
    and "st_recovery_context (chan_status i w) = Some ctx" "poison w = None"
    and "list_all (reply_below (length (promises w))) (replies_of (ch_id (chan i w)) w)"
    and "consumers_exist (recovery_steps (rc_topology ctx)) w"
  defines "ss \<equiv> filter (\<lambda>s. s = RecoverConfirm \<longrightarrow> st_confirm (chan_status i w)) (recovery_steps (rc_topology ctx))"
  shows "\<exists>w'. recovery_rounds error_kind_of i (length ss) (start_recovery i w) = (RecoveryDone (Inr ()), w')
    \<and> replayed i ss w w' \<and> st_connected (chan_status i w')"
proof -
  obtain w1 where w1: "update_recovery i w = (Some (rc_topology ctx), w1)" "quiet i w1"
    "context_below (length (promises w1)) (chan_status i w1)"
    "st_state (chan_status i w1) = st_state (chan_status i w)"
    "st_confirm (chan_status i w1) = st_confirm (chan_status i w)"
    "ch_id (chan i w1) = ch_id (chan i w)" "ch_registry (chan i w1) = ch_registry (chan i w)"
    "frames_queue w1 = frames_queue w" "consumer_objs w1 = consumer_objs w"
    by (rule update_recovery_effect[OF assms(1,3-5)])
  obtain ds where ds: "recovery_steps (rc_topology ctx) = RecoverOpen # RecoverConfirm # ds"
    "RecoverOpen \<notin> set ds" "RecoverConfirm \<notin> set ds"
    "\<And>c. filter (\<lambda>s. s = RecoverConfirm \<longrightarrow> c) ds = ds"
    using recovery_steps_parts[of "rc_topology ctx"] by metis
  have "st_reconnecting (chan_status i w1)" "consumers_exist ds w1"
    using assms(2,6) w1(4,9) consumers_exist_static[of w1 w ds]
    by (simp_all add: st_reconnecting_def ds(1)) (simp add: consumers_exist_def)
  moreover have ss: "ss = (if st_confirm (chan_status i w1) then [RecoverOpen, RecoverConfirm] else [RecoverOpen]) @ ds"
    using ds(4)[of False] unfolding ss_def ds(1) by (simp add: w1(5))
  ultimately obtain w' where run: "recovery_rounds error_kind_of i (length ss)
      (recovery_run i (RecoverOpen # RecoverConfirm # ds) w1) = (RecoveryDone (Inr ()), w')"
    and rep: "replayed i ss w1 w'" "st_connected (chan_status i w')"
    using opened_replayed[OF w1(2) _ w1(3) ds(2,3)] by blast
  have "recovery_method s w1 = recovery_method s w" for s
    by (simp add: recovery_method_def consumer_at_def w1(9) split: recovery_step.split)
  then have "replayed i ss w w'"
    using rep(1) w1(6-9) by (simp add: replayed_def)
  moreover have "start_recovery i w = recovery_run i (RecoverOpen # RecoverConfirm # ds) w1"
    by (simp add: start_recovery_def w1(1) ds(1))
  ultimately show ?thesis using run rep(2) by auto
qed


section \<open>What a recovery does to the bindings\<close>

definition queue_bindings :: "short_string \<Rightarrow> registry \<Rightarrow> binding_definition list" where
  "queue_bindings name g = (case map_of (reg_queues g) name of Some d \<Rightarrow> qd_bindings d | None \<Rightarrow> [])"

definition step_bindings :: "short_string \<Rightarrow> recovery_step \<Rightarrow> binding_definition list" where
  "step_bindings name s = (case s of RecoverQueueBinding n b \<Rightarrow> if n = name then [b] else [] | _ \<Rightarrow> [])"

lemma queue_bindings_step:
  "queue_bindings name (recovery_registry s g) = queue_bindings name g @ step_bindings name s"
  by (cases s) (auto simp: queue_bindings_def step_bindings_def register_exchange_def register_exchange_binding_def
      register_queue_def register_queue_binding_def queue_set_declared_def queue_declared_def
      queue_register_binding_def queue_undeclared_def update_conv' Let_def split: option.splits)

lemma queue_bindings_fold:
  "queue_bindings name (fold recovery_registry ss g) = queue_bindings name g @ concat (map (step_bindings name) ss)"
  by (induction ss arbitrary: g) (simp_all add: queue_bindings_step)

lemma step_bindings_queue:
  "concat (map (step_bindings name) (map (RecoverQueueBinding n) bs)) = (if n = name then bs else [])"
  by (induction bs) (simp_all add: step_bindings_def)

lemma bindings_of_table:
  assumes "distinct (map fst m)" "\<And>n d. (n, d) \<in> set m \<Longrightarrow> qd_name d = n"
  shows "concat (map (\<lambda>q. if qd_name q = name then qd_bindings q else []) (map snd m))
    = (case map_of m name of Some d \<Rightarrow> qd_bindings d | None \<Rightarrow> [])"
  using assms
proof (induction m)
  case (Cons x m)
  obtain n d where x: "x = (n, d)" by (cases x)
  have "qd_name d = n" using Cons.prems(2)[of n d] x by simp
  moreover have "concat (map (\<lambda>q. if qd_name q = name then qd_bindings q else []) (map snd m))
      = (case map_of m name of Some d \<Rightarrow> qd_bindings d | None \<Rightarrow> [])"
    using Cons.prems by (intro Cons.IH) auto
  moreover have "map_of m n = None" using Cons.prems(1) x by (simp add: map_of_eq_None_iff)
  ultimately show ?case by (simp add: x)
qed simp

lemma concat_map_Nil [simp]: "concat (map (\<lambda>_. []) ys) = []"
  by (induction ys) simp_all

lemma bindings_of_topology:
  assumes "wf_registry g"
  shows "concat (map (step_bindings name)
      (filter (\<lambda>s. s = RecoverConfirm \<longrightarrow> c) (recovery_steps \<lparr>cd_exchanges = xs, cd_queues = queues_topology g, cd_consumers = cs\<rparr>)))
    = queue_bindings name g"
proof -
  have wf: "distinct (map fst (reg_queues g))" "\<And>n d. (n, d) \<in> set (reg_queues g) \<Longrightarrow> qd_name d = n"
    using assms wf_registryD(3)[OF assms] by (auto simp: wf_registry_def wf_map_def)
  have skip: "concat (map (step_bindings name) (filter (\<lambda>s. s = RecoverConfirm \<longrightarrow> c) ss))
      = concat (map (step_bindings name) ss)" for ss
    by (cases c; induction ss) (auto simp: step_bindings_def)
  have flat: "concat (map (step_bindings name) (concat xss))
      = concat (map (\<lambda>xs. concat (map (step_bindings name) xs)) xss)" for xss
    by (induction xss) simp_all
  show ?thesis
    unfolding skip using bindings_of_table[OF wf, of name]
    by (simp only: recovery_steps_def map_append concat_append flat map_map comp_def step_bindings_queue[unfolded map_map comp_def])
      (simp add: step_bindings_def queue_bindings_def queues_topology_def comp_def)
qed

text \<open>
  C37: every recovery doubles the bindings that a channel has on record.  The bindings are made again and
  recorded again while the old ones are kept, so a queue with one binding is bound twice by the second
  recovery, four times by the third.
\<close>

theorem recovery_duplicates_bindings:
  assumes "i < length (chan_objs w)" "st_reconnecting (chan_status i w)"
    and "st_recovery_context (chan_status i w) = Some ctx" "poison w = None"
    and "list_all (reply_below (length (promises w))) (replies_of (ch_id (chan i w)) w)"
    and "consumers_exist (recovery_steps (rc_topology ctx)) w"
    and "rc_topology ctx = topology i w" "wf_registry (ch_registry (chan i w))"
  shows "\<exists>n w'. recovery_rounds error_kind_of i n (start_recovery i w) = (RecoveryDone (Inr ()), w')
    \<and> queue_bindings name (ch_registry (chan i w'))
        = queue_bindings name (ch_registry (chan i w)) @ queue_bindings name (ch_registry (chan i w))"
  using recovery_replayed[OF assms(1-6), of error_kind_of] bindings_of_topology[OF assms(8)]
  by (fastforce simp: replayed_def queue_bindings_fold assms(7) topology_def)

text \<open>A channel with one bound queue whose connection was lost.\<close>

definition lost_channel :: world where
  "lost_channel = snd (init_recovery 0 (error_of FutureCompleted)
    (update_registry 0 (register_queue_binding ''orders'' ''amq.topic'' ''k'' []) one_channel))"

lemma lost_channel_simps [simp]:
  "length (chan_objs lost_channel) = 1" "ch_id (chan 0 lost_channel) = 1" "poison lost_channel = None"
  "st_state (chan_status 0 lost_channel) = ChReconnecting" "replies_of c lost_channel = []"
  "\<not> st_confirm (chan_status 0 lost_channel)"
  "ch_registry (chan 0 lost_channel) = register_queue_binding ''orders'' ''amq.topic'' ''k'' [] registry_default"
  "frames_queue lost_channel = []" "consumer_objs lost_channel = []"
  "\<exists>ctx. st_recovery_context (chan_status 0 lost_channel) = Some ctx \<and> rc_topology ctx = topology 0 lost_channel"
  by (simp_all add: lost_channel_def init_recovery_def one_channel_def world_empty_def channel_new_def
      channel_status_new_def switch_new_def update_rpc_status_def rpc_send_def wake_def channel_set_state_def
      set_state_def update_status_def update_chan_def chan_def Let_def heap.defs heap_empty_def replies_of_def
      set_reconnecting_def drop_frames_for_channel_def channel_poison_def poison_channel_def update_registry_def
      recovery_context_new_def switch_kill_def topology_def notifier_new_def)

lemma lost_channel_topology:
  "topology 0 lost_channel = \<lparr>cd_exchanges = [],
    cd_queues = [\<lparr>qd_name = ''orders'', qd_options = None, qd_arguments = None,
      qd_bindings = [\<lparr>bd_source = ''amq.topic'', bd_routing_key = ''k'', bd_arguments = []\<rparr>], qd_is_declared = False\<rparr>],
    cd_consumers = consumers_topology (ch_consumers (chan 0 lost_channel))\<rparr>"
  by (simp add: topology_def exchanges_topology_def queues_topology_def register_queue_binding_def registry_default_def
      queue_undeclared_def queue_register_binding_def)

lemma lost_channel_consumers: "consumers_topology (ch_consumers (chan 0 lost_channel)) = []"
  by (simp add: lost_channel_def init_recovery_def one_channel_def world_empty_def channel_new_def
      channel_status_new_def switch_new_def update_rpc_status_def rpc_send_def wake_def channel_set_state_def
      set_state_def update_status_def update_chan_def chan_def Let_def heap.defs heap_empty_def consumers_topology_def
      set_reconnecting_def drop_frames_for_channel_def channel_poison_def poison_channel_def update_registry_def
      recovery_context_new_def switch_kill_def topology_def notifier_new_def)


theorem recovery_duplicates_bindings_witness:
  "\<exists>n w'. recovery_rounds (\<lambda>_. None) 0 n (start_recovery 0 lost_channel) = (RecoveryDone (Inr ()), w')
    \<and> queue_bindings ''orders'' (ch_registry (chan 0 w')) =
        [\<lparr>bd_source = ''amq.topic'', bd_routing_key = ''k'', bd_arguments = []\<rparr>,
         \<lparr>bd_source = ''amq.topic'', bd_routing_key = ''k'', bd_arguments = []\<rparr>]"
proof -
  obtain ctx where ctx: "st_recovery_context (chan_status 0 lost_channel) = Some ctx"
    "rc_topology ctx = topology 0 lost_channel" using lost_channel_simps by blast
  then have "consumers_exist (recovery_steps (rc_topology ctx)) lost_channel"
    by (simp add: recovery_steps_def lost_channel_topology lost_channel_consumers consumers_exist_def)
  moreover have "queue_bindings ''orders'' (ch_registry (chan 0 lost_channel))
      = [\<lparr>bd_source = ''amq.topic'', bd_routing_key = ''k'', bd_arguments = []\<rparr>]"
    by (simp add: queue_bindings_def register_queue_binding_def registry_default_def queue_undeclared_def
        queue_register_binding_def)
  ultimately show ?thesis
    using recovery_duplicates_bindings[OF _ _ ctx(1) _ _ _ ctx(2), where name = "''orders''" and error_kind_of = "\<lambda>_. None"]
    by (auto simp: st_reconnecting_def wf_register_queue_binding)
qed

end
