(* ===== verification/Rpc_Model.thy ===== *)
theory Rpc_Model
  imports Recovery_Model Channels_Model Heartbeat_Model
begin

text \<open>
  Model of the command loop of \<^verbatim>\<open>src/internal_rpc.rs\<close>, of the start of a connection in \<^verbatim>\<open>src/connection.rs\<close> and
  of \<^verbatim>\<open>src/connection_closer.rs\<close> and \<^verbatim>\<open>src/channel_closer.rs\<close>.  A future that the loop spawns is a task: the
  job it has not begun yet, or the promise it waits for with what it does afterwards.  The runtime
  polls the tasks in any order.
\<close>

section \<open>Tasks\<close>

text \<open>One constructor for each future that the loop registers.\<close>

datatype job =
    JobBasicAck "error + nat" delivery_tag basic_ack_options "nat option"
  | JobBasicNack "error + nat" delivery_tag basic_nack_options "nat option"
  | JobBasicReject "error + nat" delivery_tag basic_reject_options "nat option"
  | JobCancelConsumer "error + nat" short_string nat
  | JobCloseChannel "error + nat" reply_code short_string
  | JobCloseConnection nat reply_code short_string "16 word" "16 word"
  | JobOpenChannel nat
  | JobRemoveChannel channel_id error
  | JobConnectionCloseOk nat error
  | JobPromise nat
  | JobFuture internal_future
  | JobRecovery
  | JobUpdateSecret string short_string

text \<open>
  What is left after a wait: to return the result, to open the virtual host, to recover the given
  channels, or to go on with the recovery of a channel and then of the others.
\<close>

datatype continuation =
    ContReturn
  | ContOpen nat connection nat
  | ContChannels "nat list"
  | ContRecovery nat "recovery_step list" "nat list"

datatype progress = Finished "error + pvalue" | Blocked nat continuation

datatype task_state = TaskReady job | TaskWaiting nat continuation | TaskDone

record task =
  task_state :: task_state
  task_resolver :: "nat option"

record rpc_state = channels_state +
  rpc_status :: "(channel_id \<times> nat) list"
  rpc_heartbeat :: heartbeat
  rpc_secret :: nat
  rpc_tasks :: "task list"
  rpc_heartbeat_tasks :: "nat list"
  rpc_secret_tasks :: "nat list"
  rpc_delegated :: "internal_future list"
  rpc_connection :: connection

definition channel_ok :: "channel_id \<Rightarrow> 'a rpc_state_scheme \<Rightarrow> bool" where
  "channel_ok c w = (case map_of (rpc_status w) c of Some k \<Rightarrow> \<not> killed k w | None \<Rightarrow> False)"

definition get_channel :: "channel_id \<Rightarrow> 'a rpc_state_scheme \<Rightarrow> error + nat" where
  "get_channel c w = (case channels_get c w of Some i \<Rightarrow> Inr i | None \<Rightarrow> Inl (error_of (InvalidChannel c)))"

definition register_internal_future :: "job \<Rightarrow> 'a rpc_state_scheme \<Rightarrow> 'a rpc_state_scheme" where
  "register_internal_future j w =
    w\<lparr>rpc_tasks := rpc_tasks w @ [\<lparr>task_state = TaskReady j, task_resolver = None\<rparr>]\<rparr>"

definition register_internal_future_with_resolver ::
  "job \<Rightarrow> nat \<Rightarrow> 'a rpc_state_scheme \<Rightarrow> 'a rpc_state_scheme" where
  "register_internal_future_with_resolver j r w =
    w\<lparr>rpc_tasks := rpc_tasks w @ [\<lparr>task_state = TaskReady j, task_resolver = Some r\<rparr>]\<rparr>"

section \<open>The start of a connection\<close>

definition connection_closer_drop :: "bool \<Rightarrow> 'a world_scheme \<Rightarrow> 'a world_scheme" where
  "connection_closer_drop noop w =
    (if noop then w
     else if cn_auto_close (w_conn_status w) then rpc_close_connection 200 ''OK'' 0 0 w else w)"

definition channel_closer_drop :: "nat \<Rightarrow> 'a world_scheme \<Rightarrow> 'a world_scheme" where
  "channel_closer_drop i w =
    (if auto_close (ch_id (chan i w)) (chan_status i w)
     then rpc_send (CmdCloseChannel (ch_id (chan i w)) 200 ''OK'') w else w)"

text \<open>
  The connection that is started is owned by the reply that is expected; when the start fails it is
  dropped, and its closer with it unless it is the one of a reconnection.
\<close>

definition connection_start ::
  "bool \<Rightarrow> connection \<Rightarrow> nat \<Rightarrow> 'a world_scheme \<Rightarrow> call_outcome \<times> 'a world_scheme" where
  "connection_start noop con i w =
    (let (p, w1) = promise_new w;
         (r, s) = cn_set_connecting (w_conn_status w1);
         w2 = w1\<lparr>w_conn_status := s\<rparr>
     in (case r of
           Inl e \<Rightarrow> (Failed e, connection_closer_drop noop w2)
         | Inr _ \<Rightarrow>
             (Await p,
              send_frame i (ProtocolHeader amqp_0_9_1) p
                (Some (ExpectedReply (ReplyConnectionStep (StepProtocolHeader p con)) p)) None w2)))"

text \<open>The calls of the application on a connection.\<close>

definition connection_create_channel :: "'a world_scheme \<Rightarrow> call_outcome \<times> 'a world_scheme" where
  "connection_create_channel w =
    (case ensure_connected (w_conn_status w) of
       Inl e \<Rightarrow> (Failed e, w)
     | Inr _ \<Rightarrow> let (p, w1) = rpc_create_channel w in (Await p, w1))"

definition close_application_connection ::
  "reply_code \<Rightarrow> short_string \<Rightarrow> 'a world_scheme \<Rightarrow> call_outcome \<times> 'a world_scheme" where
  "close_application_connection code text w =
    (case ensure_connected (w_conn_status w) of
       Inl e \<Rightarrow> (Failed e, w)
     | Inr _ \<Rightarrow> let (p, w1) = rpc_close_connection_checked code text 0 0 w in (Await p, w1))"

definition connection_update_application_secret ::
  "string \<Rightarrow> short_string \<Rightarrow> 'a world_scheme \<Rightarrow> call_outcome \<times> 'a world_scheme" where
  "connection_update_application_secret secret reason w =
    (case ensure_connected (w_conn_status w) of
       Inl e \<Rightarrow> (Failed e, w)
     | Inr _ \<Rightarrow> let (p, w1) = rpc_update_secret secret reason w in (Await p, w1))"

section \<open>What the tasks do\<close>

definition of_call :: "continuation \<Rightarrow> call_outcome \<times> 'a rpc_state_scheme \<Rightarrow> progress \<times> 'a rpc_state_scheme" where
  "of_call k x = (case x of (Failed e, w) \<Rightarrow> (Finished (Inl e), w) | (Await p, w) \<Rightarrow> (Blocked p k, w))"

fun recover_channels :: "nat list \<Rightarrow> 'a rpc_state_scheme \<Rightarrow> progress \<times> 'a rpc_state_scheme" where
  "recover_channels [] w = (Finished (Inr VUnit), w)"
| "recover_channels (i # is) w =
    (case start_recovery i w of
       (RecoveryDone (Inl e), w1) \<Rightarrow> (Finished (Inl e), w1)
     | (RecoveryDone (Inr _), w1) \<Rightarrow> recover_channels is w1
     | (RecoveryAwait p ss, w1) \<Rightarrow> (Blocked p (ContRecovery i ss is), w1))"

definition channels_start_recovery :: "'a rpc_state_scheme \<Rightarrow> progress \<times> 'a rpc_state_scheme" where
  "channels_start_recovery w =
    (let is = map snd (cs_channels w);
         w1 = drop_poison (switch_reset (cs_killswitch w) w);
         (_, w2) = update_recovery (cs_channel0 w1) w1;
         w3 = channel_finalize_connection (cs_channel0 w2) w2
     in of_call (ContChannels is) (connection_start True (rpc_connection w3) (cs_channel0 w3) w3))"

definition run_future :: "internal_future \<Rightarrow> 'a rpc_state_scheme \<Rightarrow> progress \<times> 'a rpc_state_scheme" where
  "run_future f w = (case f of
      FutChannelClose i code text class_id method_id \<Rightarrow>
        of_call ContReturn (do_channel_close i code text class_id method_id w)
    | FutConnectionStartOk i props mechanism response locale_name resolver con auth \<Rightarrow>
        of_call ContReturn (connection_start_ok i props mechanism response locale_name resolver con auth w)
    | FutConnectionSecureOk i response resolver con auth \<Rightarrow>
        of_call ContReturn (connection_secure_ok i response resolver con auth w)
    | FutConnectionTuneOk i resolver con \<Rightarrow>
        of_call (ContOpen i con resolver)
          (connection_tune_ok i (nc_channel_max (w_negotiated w)) (nc_frame_max (w_negotiated w))
            (nc_heartbeat (w_negotiated w)) w)
    | FutChannelFlowOk i active \<Rightarrow> of_call ContReturn (channel_flow_ok i (ChannelFlowOkOptions active) w)
    | FutChannelCloseOk i e \<Rightarrow> of_call ContReturn (channel_close_ok i e w)
    | FutBasicCancelOk i tag \<Rightarrow> of_call ContReturn (basic_cancel_ok i tag w)
    | FutDelegateDelivery _ _ \<Rightarrow> (Finished (Inr VUnit), w\<lparr>rpc_delegated := rpc_delegated w @ [f]\<rparr>)
    | FutDelegateDropPrefetched _ \<Rightarrow> (Finished (Inr VUnit), w\<lparr>rpc_delegated := rpc_delegated w @ [f]\<rparr>))"

definition run_on_channel ::
  "error + nat \<Rightarrow> (nat \<Rightarrow> 'a rpc_state_scheme \<Rightarrow> progress \<times> 'a rpc_state_scheme)
    \<Rightarrow> 'a rpc_state_scheme \<Rightarrow> progress \<times> 'a rpc_state_scheme" where
  "run_on_channel c f w = (case c of Inl e \<Rightarrow> (Finished (Inl e), w) | Inr i \<Rightarrow> f i w)"

text \<open>An acknowledgement is not sent when the consumer it belongs to has failed.\<close>

definition unless_failed ::
  "nat option \<Rightarrow> ('a rpc_state_scheme \<Rightarrow> progress \<times> 'a rpc_state_scheme)
    \<Rightarrow> 'a rpc_state_scheme \<Rightarrow> progress \<times> 'a rpc_state_scheme" where
  "unless_failed holder f w =
    (case holder of
       None \<Rightarrow> f w
     | Some n \<Rightarrow> (case holder_check n w of Inl e \<Rightarrow> (Finished (Inl e), w) | Inr _ \<Rightarrow> f w))"

definition run_job :: "job \<Rightarrow> 'a rpc_state_scheme \<Rightarrow> progress \<times> 'a rpc_state_scheme" where
  "run_job j w = (case j of
      JobBasicAck c t opts holder \<Rightarrow>
        unless_failed holder (run_on_channel c (\<lambda>i w. of_call ContReturn (basic_ack i t opts w))) w
    | JobBasicNack c t opts holder \<Rightarrow>
        unless_failed holder (run_on_channel c (\<lambda>i w. of_call ContReturn (basic_nack i t opts w))) w
    | JobBasicReject c t opts holder \<Rightarrow>
        unless_failed holder (run_on_channel c (\<lambda>i w. of_call ContReturn (basic_reject i t opts w))) w
    | JobCancelConsumer c tag x \<Rightarrow>
        run_on_channel c (\<lambda>i w.
          if st_connected (chan_status i w) \<and> is_active (cs_state (con_status (consumer_at x w)))
          then of_call ContReturn (basic_cancel i tag (BasicCancelOptions False) w)
          else (Finished (Inr VUnit), w)) w
    | JobCloseChannel c code text \<Rightarrow>
        run_on_channel c (\<lambda>i w. of_call ContReturn (channel_close i code text w)) w
    | JobCloseConnection i code text class_id method_id \<Rightarrow>
        of_call ContReturn (connection_close i code text class_id method_id w)
    | JobOpenChannel i \<Rightarrow> of_call ContReturn (channel_open i i w)
    | JobRemoveChannel c e \<Rightarrow> (let (r, w1) = channels_remove c e w in (Finished (map_sum id (\<lambda>_. VUnit) r), w1))
    | JobConnectionCloseOk i e \<Rightarrow> of_call ContReturn (connection_close_ok i e w)
    | JobPromise p \<Rightarrow> (Blocked p ContReturn, w)
    | JobFuture f \<Rightarrow> run_future f w
    | JobRecovery \<Rightarrow> channels_start_recovery w
    | JobUpdateSecret secret reason \<Rightarrow>
        of_call ContReturn (connection_update_secret (cs_channel0 w) secret reason w))"

definition resume :: "continuation \<Rightarrow> pvalue \<Rightarrow> 'a rpc_state_scheme \<Rightarrow> progress \<times> 'a rpc_state_scheme" where
  "resume k v w = (case k of
      ContReturn \<Rightarrow> (Finished (Inr v), w)
    | ContOpen i con resolver \<Rightarrow>
        of_call ContReturn (connection_open i (cn_vhost (w_conn_status w)) con resolver w)
    | ContChannels is \<Rightarrow> recover_channels is w
    | ContRecovery i ss is \<Rightarrow>
        (case recovery_run i ss w of
           (RecoveryDone (Inl e), w1) \<Rightarrow> (Finished (Inl e), w1)
         | (RecoveryDone (Inr _), w1) \<Rightarrow> recover_channels is w1
         | (RecoveryAwait p ss1, w1) \<Rightarrow> (Blocked p (ContRecovery i ss1 is), w1)))"

text \<open>
  A task that ends hands its result to its resolver, or reports its error as an error of the
  connection when it has none.
\<close>

definition set_task :: "nat \<Rightarrow> task_state \<Rightarrow> 'a rpc_state_scheme \<Rightarrow> 'a rpc_state_scheme" where
  "set_task n s w = w\<lparr>rpc_tasks := (rpc_tasks w)[n := (rpc_tasks w ! n)\<lparr>task_state := s\<rparr>]\<rparr>"

definition settle_task :: "nat \<Rightarrow> progress \<times> 'a rpc_state_scheme \<Rightarrow> 'a rpc_state_scheme" where
  "settle_task n x = (case x of
      (Blocked p k, w) \<Rightarrow> set_task n (TaskWaiting p k) w
    | (Finished r, w) \<Rightarrow>
        let w1 = set_task n TaskDone w
        in (case task_resolver (rpc_tasks w ! n) of
              Some q \<Rightarrow> promise_complete q r w1
            | None \<Rightarrow> (case r of Inl e \<Rightarrow> rpc_send (CmdSetConnectionError e) w1 | Inr _ \<Rightarrow> w1)))"

definition poll_task :: "nat \<Rightarrow> 'a rpc_state_scheme \<Rightarrow> 'a rpc_state_scheme" where
  "poll_task n w =
    (if n < length (rpc_tasks w)
     then (case task_state (rpc_tasks w ! n) of
             TaskReady j \<Rightarrow> settle_task n (run_job j w)
           | TaskWaiting p k \<Rightarrow>
               (case promise_poll p w of
                  (Pending, w1) \<Rightarrow> w1
                | (Ready (Inl e), w1) \<Rightarrow> settle_task n (Finished (Inl e), w1)
                | (Ready (Inr v), w1) \<Rightarrow> settle_task n (resume k v w1))
           | TaskDone \<Rightarrow> w)
     else w)"

section \<open>The commands\<close>

text \<open>
  One turn of the loop; \<^term>\<open>None\<close> when allocating an id does not end.  The commands that are skipped for a
  channel that is gone also skip the wake-up at the end of the turn.
\<close>

definition when_channel_ok ::
  "channel_id \<Rightarrow> ('a rpc_state_scheme \<Rightarrow> 'a rpc_state_scheme) \<Rightarrow> 'a rpc_state_scheme \<Rightarrow> 'a rpc_state_scheme option" where
  "when_channel_ok c f w = Some (if channel_ok c w then wake (f w) else w)"

definition run_command :: "nat \<Rightarrow> internal_command \<Rightarrow> 'a rpc_state_scheme \<Rightarrow> 'a rpc_state_scheme option" where
  "run_command now cmd w = (case cmd of
      CmdBasicAck c t opts r holder \<Rightarrow> when_channel_ok c (\<lambda>w.
        register_internal_future_with_resolver (JobBasicAck (get_channel c w) t opts holder) r w) w
    | CmdBasicNack c t opts r holder \<Rightarrow> when_channel_ok c (\<lambda>w.
        register_internal_future_with_resolver (JobBasicNack (get_channel c w) t opts holder) r w) w
    | CmdBasicReject c t opts r holder \<Rightarrow> when_channel_ok c (\<lambda>w.
        register_internal_future_with_resolver (JobBasicReject (get_channel c w) t opts holder) r w) w
    | CmdCancelConsumer c tag x \<Rightarrow> when_channel_ok c (\<lambda>w.
        register_internal_future (JobCancelConsumer (get_channel c w) tag x) w) w
    | CmdCloseChannel c code text \<Rightarrow> when_channel_ok c (\<lambda>w.
        register_internal_future (JobCloseChannel (get_channel c w) code text) w) w
    | CmdCloseConnection code text class_id method_id resolver \<Rightarrow>
        let j = JobCloseConnection (cs_channel0 w) code text class_id method_id
        in Some (wake (case resolver of
             Some r \<Rightarrow> register_internal_future_with_resolver j r w
           | None \<Rightarrow> register_internal_future j w))
    | CmdCreateChannel r \<Rightarrow>
        map_option (\<lambda>(x, w1). wake (case x of
            Inr i \<Rightarrow> register_internal_future_with_resolver (JobOpenChannel i) r w1
          | Inl e \<Rightarrow> promise_reject r e w1)) (channels_create w)
    | CmdDeregisterConsumer c tag \<Rightarrow>
        Some (wake (case get_channel c w of Inr i \<Rightarrow> deregister_consumer i tag w | Inl _ \<Rightarrow> w))
    | CmdFinishConnectionShutdown \<Rightarrow> Some (wake (finish_connection_shutdown w))
    | CmdInitConnectionRecovery e \<Rightarrow>
        let (b, w1) = hb_reset now (rpc_heartbeat w) w;
            (k, w2) = su_reset (rpc_secret w1) (w1\<lparr>rpc_heartbeat := b\<rparr>)
        in Some (wake (snd (init_connection_recovery e (w2\<lparr>rpc_secret := k\<rparr>))))
    | CmdInitConnectionShutdown e resolver \<Rightarrow> Some (wake (init_connection_shutdown e resolver w))
    | CmdRemoveChannel c e \<Rightarrow> when_channel_ok c (register_internal_future (JobRemoveChannel c e)) w
    | CmdSendConnectionCloseOk e \<Rightarrow>
        Some (wake (register_internal_future (JobConnectionCloseOk (cs_channel0 w) e) w))
    | CmdSendHeartbeat \<Rightarrow>
        let (p, w1) = promise_new w;
            w2 = send_frame (cs_channel0 w1) Heartbeat p None (Some p) w1
        in Some (wake (register_internal_future (JobPromise p) w2))
    | CmdSetChannelStatus c k \<Rightarrow> Some (wake (w\<lparr>rpc_status := AList.update c k (rpc_status w)\<rparr>))
    | CmdSetConnectionClosing \<Rightarrow>
        let (b, w1) = hb_cancel (rpc_heartbeat w) w;
            w2 = su_cancel (rpc_secret w1) (w1\<lparr>rpc_heartbeat := b\<rparr>)
        in Some (wake (set_connection_closing w2))
    | CmdSetConnectionClosed e \<Rightarrow>
        Some (wake (set_connection_closed e (clear_all_expected_replies e w)))
    | CmdSetConnectionError e \<Rightarrow>
        Some (wake (if channels_can_recover e w
          then let (b, w1) = should_init_connection_recovery w
               in if b then rpc_send (CmdInitConnectionRecovery e) w1 else w1
          else set_connection_error e w))
    | CmdSpawn f \<Rightarrow> Some (wake (register_internal_future (JobFuture f) w))
    | CmdStartChannelsRecovery \<Rightarrow> Some (wake (register_internal_future JobRecovery w))
    | CmdStartHeartbeat t \<Rightarrow>
        let b = hb_set_timeout t (rpc_heartbeat w)
        in Some (wake (w\<lparr>rpc_heartbeat := b, rpc_heartbeat_tasks := rpc_heartbeat_tasks w @ [hb_poison b],
             rpc_secret_tasks := rpc_secret_tasks w @ [rpc_secret w]\<rparr>))
    | CmdUpdateSecret secret reason r \<Rightarrow>
        Some (wake (register_internal_future_with_resolver (JobUpdateSecret secret reason) r w)))"

text \<open>The loop takes the next command; it ends at the marker that stops it.\<close>

definition rpc_turn :: "nat \<Rightarrow> 'a rpc_state_scheme \<Rightarrow> 'a rpc_state_scheme option" where
  "rpc_turn now w =
    (case rpc w of
       Some cmd # cs \<Rightarrow> run_command now cmd (w\<lparr>rpc := cs\<rparr>)
     | _ \<Rightarrow> Some w)"

section \<open>The state of a new client\<close>

definition connection_of :: "configuration \<Rightarrow> connection" where
  "connection_of cfg = \<lparr>conn_client_properties = cfg_client_properties cfg, conn_locale = cfg_locale cfg,
     conn_auth_provider = cfg_auth_provider cfg\<rparr>"

text \<open>
  What \<^verbatim>\<open>connector\<close> builds before it starts the threads: the heartbeat and the secret update with their
  switches, and the channels.
\<close>

definition client_new :: "nat \<Rightarrow> configuration \<Rightarrow> connection_status \<Rightarrow> rpc_state" where
  "client_new now cfg status =
    (let (b, h) = heartbeat_new now heap_empty;
         (k, h) = switch_new h;
         con = connection_of cfg
     in channels_new (cfg_auto_recover cfg)
          (heap.extend h
             \<lparr>publish_frames = [], retry_frames = [], frames_queue = [], low_prio_frames = [], expected_replies = [],
              poison = None, channels_poison = [], consumer_objs = [], chan_objs = [], w_conn_status = status,
              w_negotiated = cfg_negotiated cfg, w_events = \<lparr>ev_listening = False, ev_queue = []\<rparr>,
              cs_channels = [], cs_ids = id_sequence_new False, cs_channel0 = 0, cs_killswitch = 0,
              cs_auto_recover = False, rpc_status = [], rpc_heartbeat = b, rpc_secret = k, rpc_tasks = [],
              rpc_heartbeat_tasks = [], rpc_secret_tasks = [], rpc_delegated = [], rpc_connection = con\<rparr>))"

lemma client_new_simps [simp]:
  "cs_channel0 (client_new now cfg status) = 0" "length (chan_objs (client_new now cfg status)) = 1"
  "ch_id (chan 0 (client_new now cfg status)) = 0" "st_state (chan_status 0 (client_new now cfg status)) = ChConnected"
  "ch_auto_recover (chan 0 (client_new now cfg status)) = cfg_auto_recover cfg"
  "cs_channels (client_new now cfg status) = []" "cs_auto_recover (client_new now cfg status) = cfg_auto_recover cfg"
  "rpc_tasks (client_new now cfg status) = []" "expected_replies (client_new now cfg status) = []"
  "frames_queue (client_new now cfg status) = []" "retry_frames (client_new now cfg status) = []"
  "publish_frames (client_new now cfg status) = []" "low_prio_frames (client_new now cfg status) = []"
  "poison (client_new now cfg status) = None" "channels_poison (client_new now cfg status) = []"
  "promises (client_new now cfg status) = []" "w_conn_status (client_new now cfg status) = status"
  "w_negotiated (client_new now cfg status) = cfg_negotiated cfg"
  "rpc (client_new now cfg status) = [Some (CmdSetChannelStatus 0 3)]"
  "rpc_connection (client_new now cfg status) = connection_of cfg"
  by (simp_all add: client_new_def heartbeat_new_def channels_new_def channel_new_def channel_status_new_def switch_new_def
      update_rpc_status_def rpc_send_def wake_def channel_set_state_def set_state_def update_status_def update_chan_def
      chan_def Let_def heap.defs heap_empty_def)

section \<open>When the server closes the connection\<close>

text \<open>
  What the closing of the channels leaves alone: the tasks, channel 0 and the commands that wait already.
\<close>

definition keeps :: "'a rpc_state_scheme \<Rightarrow> 'a rpc_state_scheme \<Rightarrow> bool" where
  "keeps w w' \<longleftrightarrow> rpc_tasks w' = rpc_tasks w \<and> cs_channel0 w' = cs_channel0 w \<and> (\<exists>cs. rpc w' = rpc w @ cs)
    \<and> map (\<lambda>c. (ch_id c, ch_auto_recover c)) (chan_objs w') = map (\<lambda>c. (ch_id c, ch_auto_recover c)) (chan_objs w)"

lemma keeps_refl [simp]: "keeps w w"
  by (simp add: keeps_def)

lemma keeps_trans: "keeps u v \<Longrightarrow> keeps v w \<Longrightarrow> keeps u w"
  by (auto simp: keeps_def)

lemma keeps_fold: "(\<And>x w. keeps w (f x w)) \<Longrightarrow> keeps w (fold f xs w)"
proof (induction xs arbitrary: w)
  case (Cons x xs)
  then show ?case using keeps_trans[of w "f x w" "fold f xs (f x w)"] by simp
qed simp

lemma keeps_updates [simp]:
  "keeps w (wake w)" "keeps w (rpc_send c w)" "keeps w (promise_complete p r w)"
  "keeps w (w\<lparr>w_conn_status := s\<rparr>)" "keeps w (w\<lparr>rpc_heartbeat := b\<rparr>)" "keeps w (w\<lparr>switches := ks\<rparr>)"
  "keeps w (w\<lparr>retry_frames := fs\<rparr>)" "keeps w (w\<lparr>publish_frames := fs\<rparr>)" "keeps w (w\<lparr>frames_queue := fs\<rparr>)"
  "keeps w (w\<lparr>low_prio_frames := fs\<rparr>)" "keeps w (w\<lparr>expected_replies := rs\<rparr>)" "keeps w (w\<lparr>poison := e\<rparr>)"
  "keeps w (w\<lparr>consumer_objs := xs\<rparr>)"
  by (simp_all add: keeps_def wake_def rpc_send_def promise_complete_def)

lemma keeps_update_status: "keeps w (update_status i f w)"
  by (cases "i < length (chan_objs w)")
     (auto simp: keeps_def update_status_def update_chan_def chan_def map_update list_update_same_conv
       list_update_beyond)

lemma keeps_set_connection_closing: "keeps w (set_connection_closing w)"
proof -
  have start: "keeps w (start_cancel x w)" for x :: nat and w :: "'a rpc_state_scheme"
    by (simp add: start_cancel_def update_consumer_def)
  have "keeps w (channel_set_closing i None w)" for i and w :: "'a rpc_state_scheme"
    unfolding channel_set_closing_def Let_def option.case consumers_start_cancel_def channel_set_state_def
    by (rule keeps_trans[OF keeps_update_status keeps_fold]) (auto intro: start)
  then show ?thesis
    unfolding set_connection_closing_def each_channel_def
    by (intro keeps_trans[OF _ keeps_fold]) (auto simp: set_conn_state_def Let_def cn_set_state_def)
qed

lemma drop_pending_frame_other:
  "\<nexists>c tag nowait. fe_frame x = Method c (Basic (BasicCancel tag nowait)) \<Longrightarrow>
    drop_pending_frame e x h = entry_reject x e h"
  by (auto simp: drop_pending_frame_def split: amqp_frame.splits amqp_class.splits basic_method.splits)

lemma keeps_drop_pending: "keeps w (frames_drop_pending e w)"
proof -
  have reject: "keeps w (sending_reject x e w)" "keeps w (sending_resolve x w)" for x and w :: "'a rpc_state_scheme"
    by (auto simp: sending_reject_def sending_resolve_def promise_reject_def promise_resolve_def split: option.split)
  have frame: "keeps w (drop_pending_frame e x w)" for x and w :: "'a rpc_state_scheme"
  proof (cases "\<exists>c tag nowait. fe_frame x = Method c (Basic (BasicCancel tag nowait))")
    case True
    then show ?thesis
      using keeps_trans[OF keeps_updates(2) reject(2)] by (auto simp: drop_pending_frame_def)
  next
    case False
    then have "drop_pending_frame e x w = entry_reject x e w"
      by (simp add: drop_pending_frame_other)
    then show ?thesis by (simp add: entry_reject_def reject)
  qed
  have frames: "keeps w (drop_pending_frames e xs w)" for xs and w :: "'a rpc_state_scheme"
    unfolding drop_pending_frames_def by (rule keeps_fold) (rule frame)
  have reply: "keeps w (cancel_expected_replies xs e w)" for xs and w :: "'a rpc_state_scheme"
    unfolding cancel_expected_replies_def
    by (rule keeps_fold) (auto simp: cancel_expected_reply_def promise_reject_def promise_resolve_def
        split: expected_reply.split reply.split)
  have clear: "keeps w (clear_all_expected_replies e w)" for w :: "'a rpc_state_scheme"
    unfolding clear_all_expected_replies_def
    by (rule keeps_trans[OF keeps_updates(11) keeps_fold]) (auto intro: reply)
  show ?thesis
    unfolding frames_drop_pending_def Let_def
    by (intro keeps_trans[OF _ keeps_updates(12)] keeps_trans[OF _ clear] keeps_trans[OF _ frames]
        keeps_trans[OF _ keeps_updates(7)] keeps_trans[OF _ keeps_updates(8)] keeps_trans[OF _ keeps_updates(9)]
        keeps_trans[OF _ keeps_updates(10)] keeps_refl)
qed

lemma connection_resolver_replies:
  obtains rs where "snd (connection_resolver c w) = w\<lparr>expected_replies := rs\<rparr>"
proof -
  have "\<exists>rs. snd (find_expected_reply c P w) = w\<lparr>expected_replies := rs\<rparr>" for P
    by (auto simp: find_expected_reply_def Let_def split: option.split prod.split
        intro: exI[of _ "expected_replies w"])
  then have "\<exists>rs. w' = w\<lparr>expected_replies := rs\<rparr>" if "find_expected_reply c P w = (r, w')" for P r w'
    using that by (metis snd_conv)
  then have "\<exists>rs. snd (find_connection_step c w) = w\<lparr>expected_replies := rs\<rparr>"
    by (auto simp: find_connection_step_def Let_def split: prod.splits option.splits reply.splits)
  then show thesis
    using that by (auto simp: connection_resolver_def Let_def split_beta)
qed

lemma drop_pending_leaves_nothing:
  "\<not> has_pending (frames_drop_pending e w)" "check_poison c (frames_drop_pending e w) \<noteq> None"
  by (simp_all add: frames_drop_pending_def Let_def has_pending_def check_poison_def split: option.split)

lemma wake_frames [simp]: "has_pending (wake w) = has_pending w" "check_poison c (wake w) = check_poison c w"
  by (simp_all add: wake_def has_pending_def check_poison_def split: option.split)

lemma promise_complete_frames [simp]: "has_pending (promise_complete p r w) = has_pending w"
  by (simp add: promise_complete_def has_pending_def)

lemma set_task_fields [simp]:
  "has_pending (set_task n s w) = has_pending w" "promise_get p (set_task n s w) = promise_get p w"
  "n < length (rpc_tasks w) \<Longrightarrow> task_state (rpc_tasks (set_task n s w) ! n) = s"
  by (simp_all add: set_task_def has_pending_def promise_get_def)

text \<open>What is sent on a poisoned channel is rejected at once and not queued.\<close>

lemma notice_poisoned:
  fixes w :: "'a rpc_state_scheme"
  assumes "check_poison (ch_id (chan i w)) w = Some e"
  obtains p w' where "notice i m w = (p, w')" "has_pending w' = has_pending w" "promise_get p w' = Some (Inl e)"
    "rpc_tasks w' = rpc_tasks w"
proof -
  let ?w = "w\<lparr>promises := promises w @ [None]\<rparr>"
  have p: "check_poison (ch_id (chan i w)) ?w = Some e" "chan i ?w = chan i w"
    using assms by (simp_all add: check_poison_def chan_def split: option.splits)
  show thesis
    by (rule that[of "length (promises w)" "wake (promise_reject (length (promises w)) e ?w)"])
       (simp_all add: notice_def send_method_frame_def send_frame_def push_def Let_def assms p promise_defs frame_sending_new_def
         sending_reject_def wake_def has_pending_def)
qed

lemma close_ok_poisoned:
  fixes w :: "'a rpc_state_scheme"
  assumes "check_poison (ch_id (chan i w)) w \<noteq> None" "n < length (rpc_tasks w)"
    "task_state (rpc_tasks w ! n) = TaskReady (JobConnectionCloseOk i e)"
  shows "has_pending (poll_task n w) = has_pending w
    \<and> (\<exists>p e'. task_state (rpc_tasks (poll_task n w) ! n) = TaskWaiting p ContReturn
         \<and> promise_get p (poll_task n w) = Some (Inl e'))"
proof -
  obtain e' where "check_poison (ch_id (chan i w)) w = Some e'" using assms(1) by blast
  then obtain p w' where n: "notice i (Connection ConnectionCloseOk) w = (p, w')" "has_pending w' = has_pending w"
    "promise_get p w' = Some (Inl e')" "rpc_tasks w' = rpc_tasks w"
    by (rule notice_poisoned)
  define v where "v = on_connection_close_ok_sent i e w'"
  have v: "has_pending v = has_pending w'" "promise_get p v = promise_get p w'" "rpc_tasks v = rpc_tasks w'"
    by (simp_all add: v_def on_connection_close_ok_sent_def Let_def rpc_send_def wake_def has_pending_def promise_get_def)
  have "poll_task n w = set_task n (TaskWaiting p ContReturn) v"
    using assms by (simp add: poll_task_def run_job_def of_call_def connection_close_ok_def n settle_task_def v_def)
  then show ?thesis
    using assms(2) by (auto simp: n v)
qed

text \<open>What the closing of a connection by the server sends to the command loop.\<close>

definition server_close_error :: "(reply_code \<Rightarrow> amqp_error_kind option) \<Rightarrow> reply_code \<Rightarrow> short_string \<Rightarrow> error" where
  "server_close_error error_kind_of code text =
    (case close_error error_kind_of code text of Some e \<Rightarrow> e | None \<Rightarrow> error_of (InvalidConnectionState CsClosed))"

lemma server_close_commands:
  fixes w :: "'a rpc_state_scheme"
  assumes "ch_id (chan (cs_channel0 w) w) = 0" "can_receive_messages (chan_status (cs_channel0 w) w)"
    "\<not> can_recover (ch_auto_recover (chan (cs_channel0 w) w)) (server_close_error ek code text)"
  obtains r w1 where
    "channels_receive_method ek 0 (Connection (ConnectionClose code text cls mth)) w = (Inr (), w1)" "keeps w w1"
    "rpc w1 = rpc w @ [Some CmdSetConnectionClosing,
      Some (CmdInitConnectionShutdown (server_close_error ek code text) r),
      Some (CmdSendConnectionCloseOk (server_close_error ek code text))]"
proof -
  define e where "e = server_close_error ek code text"
  obtain rs where "snd (connection_resolver 0 w) = w\<lparr>expected_replies := rs\<rparr>"
    by (rule connection_resolver_replies)
  then obtain r w0 where r: "connection_resolver 0 w = (r, w0)" and w0: "w0 = w\<lparr>expected_replies := rs\<rparr>"
    by (metis prod.collapse)
  define w1 where "w1 = rpc_send (CmdSendConnectionCloseOk e) (rpc_init_connection_shutdown e r w0)"
  have "channels_receive_method ek 0 (Connection (ConnectionClose code text cls mth)) w = (Inr (), w1)"
    using assms by (simp add: channels_receive_method_def receive_method_def receive_connection_def receive_connection_close_def on_channel0_def
        assert_channel0_def receiving_def on_connection_close_received_def r w1_def e_def server_close_error_def Let_def)
  moreover have "keeps w w1"
    by (simp add: w0 w1_def rpc_init_connection_shutdown_def keeps_def rpc_send_def wake_def)
  moreover have "rpc w1 = rpc w @ [Some CmdSetConnectionClosing, Some (CmdInitConnectionShutdown e r),
      Some (CmdSendConnectionCloseOk e)]"
    by (simp add: w0 w1_def rpc_init_connection_shutdown_def rpc_send_def wake_def)
  ultimately show thesis using that by (simp add: e_def r)
qed

lemma keeps_closing_command:
  obtains w' where "run_command now CmdSetConnectionClosing w = Some w'" "keeps w w'"
proof -
  define b where "b = fst (hb_cancel (rpc_heartbeat w) w)"
  define v where "v = su_cancel (rpc_secret w) ((snd (hb_cancel (rpc_heartbeat w) w))\<lparr>rpc_heartbeat := b\<rparr>)"
  have "keeps w v"
    by (simp add: v_def su_cancel_def hb_cancel_def switch_kill_def keeps_def)
  then have "keeps w (wake (set_connection_closing v))"
    using keeps_trans keeps_set_connection_closing keeps_updates(1) by blast
  moreover have "run_command now CmdSetConnectionClosing w = Some (wake (set_connection_closing v))"
    by (simp add: run_command_def v_def b_def hb_cancel_def switch_kill_def)
  ultimately show thesis using that by blast
qed

lemma keeps_shutdown_command:
  obtains w' where "run_command now (CmdInitConnectionShutdown e r) w = Some w'" "keeps w w'" "\<not> has_pending w'"
    "check_poison c w' \<noteq> None"
proof -
  define v where "v = init_connection_shutdown e r w"
  have "keeps w v"
    unfolding v_def init_connection_shutdown_def Let_def promise_reject_def
    by (cases r) (simp_all add: keeps_drop_pending keeps_trans[OF keeps_drop_pending keeps_updates(3)])
  then have "keeps w (wake v)" using keeps_trans keeps_updates(1) by blast
  moreover have "\<not> has_pending (wake v)" "check_poison c (wake v) \<noteq> None"
    using drop_pending_leaves_nothing(1)[of e w] drop_pending_leaves_nothing(2)[of c e w]
    by (cases r; simp add: v_def init_connection_shutdown_def promise_reject_def Let_def)+
  ultimately show thesis using that by (simp add: run_command_def v_def)
qed

lemma keeps_channel:
  assumes "keeps w w'" "i < length (chan_objs w)"
  shows "ch_id (chan i w') = ch_id (chan i w)" "i < length (chan_objs w')"
proof -
  have m: "map (\<lambda>c. (ch_id c, ch_auto_recover c)) (chan_objs w') = map (\<lambda>c. (ch_id c, ch_auto_recover c)) (chan_objs w)"
    using assms(1) by (simp add: keeps_def)
  then show l: "i < length (chan_objs w')" using assms(2) by (metis length_map)
  show "ch_id (chan i w') = ch_id (chan i w)"
    using arg_cong[OF m, of "\<lambda>xs. fst (xs ! i)"] l assms(2) by (simp add: chan_def)
qed

text \<open>
  C38: when the server closes the connection and the client cannot recover from it, the command loop
  poisons the frames before it queues the \<^verbatim>\<open>connection.close-ok\<close>, so nothing is left to write and the
  acknowledgement waits for a promise that is rejected already: the server never gets its answer.
\<close>

theorem server_close_not_acknowledged:
  fixes w :: "'a rpc_state_scheme"
  assumes "cs_channel0 w < length (chan_objs w)" "ch_id (chan (cs_channel0 w) w) = 0"
    and "can_receive_messages (chan_status (cs_channel0 w) w)" "rpc w = []"
    and "\<not> can_recover (ch_auto_recover (chan (cs_channel0 w) w)) (server_close_error ek code text)"
  shows "\<exists>w1 w2 w3 w4 p e. channels_receive_method ek 0 (Connection (ConnectionClose code text cls mth)) w = (Inr (), w1)
    \<and> rpc_turn t1 w1 = Some w2 \<and> rpc_turn t2 w2 = Some w3 \<and> rpc_turn t3 w3 = Some w4
    \<and> length (rpc_tasks w4) = Suc (length (rpc_tasks w))
    \<and> task_state (rpc_tasks w4 ! length (rpc_tasks w)) =
        TaskReady (JobConnectionCloseOk (cs_channel0 w) (server_close_error ek code text))
    \<and> \<not> has_pending (poll_task (length (rpc_tasks w)) w4)
    \<and> task_state (rpc_tasks (poll_task (length (rpc_tasks w)) w4) ! length (rpc_tasks w)) = TaskWaiting p ContReturn
    \<and> promise_get p (poll_task (length (rpc_tasks w)) w4) = Some (Inl e)"
proof -
  let ?e = "server_close_error ek code text" and ?n = "length (rpc_tasks w)"
  obtain r w1 where w1: "channels_receive_method ek 0 (Connection (ConnectionClose code text cls mth)) w = (Inr (), w1)"
    "keeps w w1" "rpc w1 = [Some CmdSetConnectionClosing, Some (CmdInitConnectionShutdown ?e r), Some (CmdSendConnectionCloseOk ?e)]"
    by (rule server_close_commands[OF assms(2,3,5), of cls mth]) (simp add: assms(4))
  define v1 where "v1 = w1\<lparr>rpc := [Some (CmdInitConnectionShutdown ?e r), Some (CmdSendConnectionCloseOk ?e)]\<rparr>"
  obtain w2 where w2: "run_command t1 CmdSetConnectionClosing v1 = Some w2" "keeps v1 w2" by (rule keeps_closing_command)
  obtain cs where cs: "rpc w2 = Some (CmdInitConnectionShutdown ?e r) # Some (CmdSendConnectionCloseOk ?e) # cs"
    using w2(2) by (auto simp: keeps_def v1_def)
  define v2 where "v2 = w2\<lparr>rpc := Some (CmdSendConnectionCloseOk ?e) # cs\<rparr>"
  obtain w3 where w3: "run_command t2 (CmdInitConnectionShutdown ?e r) v2 = Some w3" "keeps v2 w3" "\<not> has_pending w3"
    "check_poison 0 w3 \<noteq> None" by (rule keeps_shutdown_command[where c = 0])
  obtain ds where ds: "rpc w3 = Some (CmdSendConnectionCloseOk ?e) # ds" using w3(2) by (auto simp: keeps_def v2_def)
  define w4 where "w4 = wake (register_internal_future (JobConnectionCloseOk (cs_channel0 w3) ?e) (w3\<lparr>rpc := ds\<rparr>))"
  have same: "rpc_tasks w3 = rpc_tasks w" "cs_channel0 w3 = cs_channel0 w"
    using w1(2) w2(2) w3(2) by (simp_all add: keeps_def v1_def v2_def)
  have "ch_id (chan (cs_channel0 w) w3) = 0"
  proof -
    have "keeps w (w3\<lparr>rpc := rpc w @ rpc w3\<rparr>)"
      using w1(2) w2(2) w3(2) by (simp add: keeps_def v1_def v2_def)
    from keeps_channel(1)[OF this assms(1)] show ?thesis using assms(2) by (simp add: chan_def)
  qed
  then have poisoned: "check_poison (ch_id (chan (cs_channel0 w) w4)) w4 \<noteq> None"
    using w3(4) by (auto simp: w4_def wake_def register_internal_future_def chan_def check_poison_def split: option.splits)
  have tasks: "rpc_tasks w4 = rpc_tasks w @ [\<lparr>task_state = TaskReady (JobConnectionCloseOk (cs_channel0 w) ?e), task_resolver = None\<rparr>]"
    by (simp add: w4_def wake_def register_internal_future_def same)
  have "\<not> has_pending w4" using w3(3) by (simp add: w4_def wake_def register_internal_future_def has_pending_def)
  moreover have "rpc_turn t1 w1 = Some w2" "rpc_turn t2 w2 = Some w3" "rpc_turn t3 w3 = Some w4"
    using w2(1) w3(1) by (simp_all add: rpc_turn_def w1(3) cs ds v1_def v2_def) (simp add: run_command_def w4_def)
  ultimately show ?thesis
    using close_ok_poisoned[OF poisoned, of ?n ?e] w1(1) tasks by auto
qed

text \<open>The client of the examples: the default properties, with the first command handled and the handshake over.\<close>

definition example_client :: rpc_state where
  "example_client =
    (client_new 0
       (configuration_new (default_auth_provider ''PLAIN'' False ''guest'' '''' '''') None None None connection_properties_default)
       (connection_status_default\<lparr>cn_state := CsConnected\<rparr>))\<lparr>rpc := [], rpc_status := [(0, 3)]\<rparr>"

lemma example_client_simps [simp]:
  "cs_channel0 example_client = 0" "length (chan_objs example_client) = 1" "ch_id (chan 0 example_client) = 0"
  "can_receive_messages (chan_status 0 example_client)" "rpc example_client = []" "rpc_tasks example_client = []"
  "\<not> ch_auto_recover (chan 0 example_client)"
proof -
  have chan: "chan i (w\<lparr>rpc := cs, rpc_status := rs\<rparr>) = chan i w" for i cs rs and w :: rpc_state by (simp add: chan_def)
  show "cs_channel0 example_client = 0" "length (chan_objs example_client) = 1" "ch_id (chan 0 example_client) = 0"
    "can_receive_messages (chan_status 0 example_client)" "rpc example_client = []" "rpc_tasks example_client = []"
    "\<not> ch_auto_recover (chan 0 example_client)"
    using client_new_simps(4)
    by (simp_all add: example_client_def chan can_receive_messages_def configuration_new_def connection_properties_default_def)
qed

theorem server_close_not_acknowledged_witness:
  "\<exists>w1 w2 w3 w4 p e. channels_receive_method (\<lambda>_. None) 0 (Connection (ConnectionClose 320 ''CONNECTION_FORCED'' 0 0)) example_client
      = (Inr (), w1)
    \<and> rpc_turn 0 w1 = Some w2 \<and> rpc_turn 0 w2 = Some w3 \<and> rpc_turn 0 w3 = Some w4
    \<and> \<not> has_pending (poll_task 0 w4)
    \<and> task_state (rpc_tasks (poll_task 0 w4) ! 0) = TaskWaiting p ContReturn
    \<and> promise_get p (poll_task 0 w4) = Some (Inl e)"
  using server_close_not_acknowledged[of example_client "\<lambda>_. None" 320 "''CONNECTION_FORCED''" 0 0 0 0 0]
  by (simp add: can_recover_def) blast

section \<open>An acknowledgement that is overtaken\<close>

text \<open>
  C40: when a channel fails while the command of an acknowledgement waits in the queue, the command is
  skipped together with the promise of the caller: the state is the one before the call, except for
  the new promise, which no part of it refers to and which is pending.  The caller waits for ever.
\<close>

theorem overtaken_ack_forgotten:
  assumes "acker_ack opts a w = (AckWaiting p, w1)" "rpc w = []"
    and "map_of (rpc_status w) (acker_channel_id a) = Some (acker_channel_killswitch a)"
    and "acker_channel_killswitch a < length (switches w)"
  shows "\<exists>w2. rpc_turn now (snd (switch_kill (acker_channel_killswitch a) w1)) = Some w2
    \<and> p = length (promises w) \<and> promise_get p w2 = None
    \<and> w2 = w\<lparr>promises := promises w @ [None],
        switches := (switches w)[acker_killswitch a := True, acker_channel_killswitch a := True],
        socket_events := socket_events w @ [SocketWake]\<rparr>"
proof -
  have p: "p = length (promises w)" and w1: "w1 = w\<lparr>switches := (switches w)[acker_killswitch a := True],
      promises := promises w @ [None],
      rpc := [Some (CmdBasicAck (acker_channel_id a) (acker_delivery_tag a) opts p (acker_error a))],
      socket_events := socket_events w @ [SocketWake]\<rparr>"
    using assms(1,2)
    by (auto simp: acker_ack_def acker_rpc_def rpc_basic_ack_def rpc_send_def wake_def switch_kill_def promise_new_def
        promise_build_def Let_def split: if_splits sum.splits)
  show ?thesis
    using assms(2-4) by (simp add: p w1 rpc_turn_def run_command_def when_channel_ok_def channel_ok_def switch_kill_def killed_def
        promise_get_def)
qed

theorem overtaken_ack_forgotten_witness:
  "\<exists>p w1 w2. acker_ack (BasicAckOptions False)
      \<lparr>acker_channel_id = 0, acker_delivery_tag = 7, acker_has_rpc = True, acker_error = None,
       acker_killswitch = 1, acker_channel_killswitch = 3\<rparr> example_client = (AckWaiting p, w1)
    \<and> rpc_turn 0 (snd (switch_kill 3 w1)) = Some w2 \<and> promise_get p w2 = None \<and> rpc w2 = [] \<and> rpc_tasks w2 = []"
proof -
  let ?a = "\<lparr>acker_channel_id = 0, acker_delivery_tag = 7, acker_has_rpc = True, acker_error = None,
    acker_killswitch = 1, acker_channel_killswitch = 3\<rparr>"
  have e: "rpc example_client = []" "rpc_tasks example_client = []" "rpc_status example_client = [(0, 3)]"
    "switches example_client = replicate 5 False"
    by (simp_all add: example_client_def client_new_def heartbeat_new_def channels_new_def channel_new_def
        channel_status_new_def switch_new_def update_rpc_status_def rpc_send_def wake_def channel_set_state_def
        update_status_def update_chan_def Let_def heap.defs heap_empty_def numeral_eq_Suc)
  obtain p w1 where a: "acker_ack (BasicAckOptions False) ?a example_client = (AckWaiting p, w1)"
    by (simp add: acker_ack_def acker_rpc_def poisoned_def killed_def switch_kill_def e Let_def split_beta)
  show ?thesis using overtaken_ack_forgotten[OF a e(1), of 0] a e by auto
qed

end
