(* ===== verification/Io_Loop.thy ===== *)
theory Io_Loop
  imports Rpc_Model Socket_Model Ring_Buffer
begin

text \<open>
  Model of \<^verbatim>\<open>src/io_loop.rs\<close>: the thread that owns the socket and its two buffers, writes the queued frames
  and hands the received ones to the channels.

  The socket is an argument: what it answers to the polls, by the number of polls made before.  So are
  the generator and the parser of frames of the protocol crate and the address of the receive buffer.
  \<^term>\<open>None\<close> is a call that does not return: a panic of a buffer, a loop that never ends, or a wait for an event
  that does not come.
\<close>

section \<open>State\<close>

datatype io_status = IoInitial | IoConnected | IoStop

record io_loop =
  io_status :: io_status
  io_frame_size :: frame_size
  io_receive :: buffer
  io_send :: buffer
  io_serialized :: "(frame_size \<times> frame_sending) list"
  io_half_closed :: bool
  io_first_connection :: bool
  io_socket :: socket_state
  io_polls :: nat
  io_backoff :: "nat list"

text \<open>What the socket answers to one poll.\<close>

record socket_poll =
  sp_flush :: "(error, unit) poll"
  sp_write :: "byte list \<Rightarrow> (error, nat) poll"
  sp_write_vectored :: "byte list list \<Rightarrow> (error, nat) poll"
  sp_read :: "nat \<Rightarrow> (error, byte list) poll"
  sp_read_vectored :: "nat list \<Rightarrow> (error, byte list) poll"

type_synonym socket = "nat \<Rightarrow> socket_poll"

type_synonym generator = "amqp_frame \<Rightarrow> buffer \<Rightarrow> (buffer \<times> (serialisation_error gen_error + nat)) option"

datatype parsed = Parsed parsing_context amqp_frame | Incomplete | Unparsable parser_error

type_synonym parser = "parsing_context \<Rightarrow> parsed"

definition frames_storage :: nat where
  "frames_storage = 32"

definition io_loop_new :: "nat list \<Rightarrow> negotiated_config \<Rightarrow> io_loop" where
  "io_loop_new throttles n =
    (let frame_size = max frame_min_size (nc_frame_max n)
     in \<lparr>io_status = IoInitial, io_frame_size = frame_size,
         io_receive = with_capacity (frames_storage * unat frame_size),
         io_send = with_capacity (frames_storage * unat frame_size),
         io_serialized = [], io_half_closed = False, io_first_connection = True,
         io_socket = socket_state_default, io_polls = 0, io_backoff = throttles\<rparr>)"

definition io_reset :: "io_loop \<Rightarrow> io_loop" where
  "io_reset s = s\<lparr>io_status := IoInitial, io_receive := buffer_reset (io_receive s),
     io_send := buffer_reset (io_send s), io_socket := socket_reset (io_socket s)\<rparr>"

definition finish_setup ::
  "nat list \<Rightarrow> io_loop \<Rightarrow> 'a world_scheme \<Rightarrow> (io_loop \<times> 'a world_scheme) option" where
  "finish_setup throttles s w =
    (if cn_connected (w_conn_status w)
     then let frame_size = max (io_frame_size s) (nc_frame_max (w_negotiated w))
          in Option.bind (grow (frames_storage * unat frame_size) (io_receive s)) (\<lambda>(_, receive).
             map_option (\<lambda>(_, send).
               (s\<lparr>io_frame_size := frame_size, io_receive := receive, io_send := send,
                  io_status := IoConnected, io_backoff := throttles, io_first_connection := False\<rparr>,
                if nc_heartbeat (w_negotiated w) \<noteq> 0
                then rpc_send (CmdStartHeartbeat (unat (nc_heartbeat (w_negotiated w)) * 500000000)) w else w))
               (grow (frames_storage * unat frame_size) (io_send s)))
     else Some (s, w))"

definition ensure_setup ::
  "nat list \<Rightarrow> io_loop \<Rightarrow> 'a world_scheme \<Rightarrow> (bool \<times> io_loop \<times> 'a world_scheme) option" where
  "ensure_setup throttles s w = (case io_status s of
      IoInitial \<Rightarrow> map_option (\<lambda>x. (True, x)) (finish_setup throttles s w)
    | IoConnected \<Rightarrow> Some (True, s, w)
    | IoStop \<Rightarrow> Some (False, s, w))"

definition has_data :: "io_loop \<Rightarrow> 'a frames_state_scheme \<Rightarrow> bool" where
  "has_data s w = (has_pending w \<or> available_data (io_send s) > 0 \<or> io_serialized s \<noteq> [])"

definition can_write :: "io_loop \<Rightarrow> 'a world_scheme \<Rightarrow> bool" where
  "can_write s w = (ss_writable (io_socket s) \<and> has_data s w \<and> \<not> cn_blocked (w_conn_status w))"

definition can_read :: "io_loop \<Rightarrow> bool" where
  "can_read s = (ss_readable (io_socket s) \<and> available_space (io_receive s) > 0)"

definition can_parse :: "io_loop \<Rightarrow> bool" where
  "can_parse s = (available_data (io_receive s) > 0)"

definition io_connecting :: "io_loop \<Rightarrow> bool" where
  "io_connecting s = (io_status s = IoInitial)"

definition io_reconnecting :: "'a world_scheme \<Rightarrow> bool" where
  "io_reconnecting w = cn_reconnecting (w_conn_status w)"

definition should_continue :: "io_loop \<Rightarrow> 'a channels_state_scheme \<Rightarrow> bool" where
  "should_continue s w =
    (if cn_errored (w_conn_status w) then False
     else (case io_status s of
        IoInitial \<Rightarrow> \<not> io_half_closed s
      | IoStop \<Rightarrow> False
      | IoConnected \<Rightarrow> cn_connected (w_conn_status w) \<or> cn_closing (w_conn_status w) \<or> \<not> rpc_is_empty w
          \<or> has_pending w \<or> \<not> killed (cs_killswitch w) w \<or> io_serialized s \<noteq> []))"

definition io_stop :: "io_loop \<Rightarrow> io_loop" where
  "io_stop s = s\<lparr>io_status := IoStop\<rparr>"

definition poll_socket_events :: "io_loop \<Rightarrow> 'a heap_scheme \<Rightarrow> io_loop \<times> 'a heap_scheme" where
  "poll_socket_events s w = (let (k, w1) = poll_events (io_socket s) w in (s\<lparr>io_socket := k\<rparr>, w1))"

definition check_connection_state :: "io_loop \<Rightarrow> 'a world_scheme \<Rightarrow> io_loop" where
  "check_connection_state s w = (if cn_closed (w_conn_status w) then io_stop s else s)"

section \<open>Errors\<close>

definition clear_serialized_frames :: "error \<Rightarrow> io_loop \<Rightarrow> 'a heap_scheme \<Rightarrow> io_loop \<times> 'a heap_scheme" where
  "clear_serialized_frames e s w =
    (s\<lparr>io_serialized := []\<rparr>, fold (\<lambda>(_, x). sending_reject x e) (io_serialized s) w)"

text \<open>It always returns the error.\<close>

definition critical_error ::
  "error \<Rightarrow> io_loop \<Rightarrow> 'a channels_state_scheme \<Rightarrow> (error + 'r) \<times> io_loop \<times> 'a channels_state_scheme" where
  "critical_error e s w =
    (let w1 = (if is_io_error e then snd (switch_kill (cs_killswitch w) w) else w)
     in if channels_can_recover e w1 then (Inl e, s, rpc_send (CmdInitConnectionRecovery e) w1)
        else let (r, w2) = connection_resolver 0 w1;
                 w3 = (case r of Some p \<Rightarrow> promise_reject p e w2 | None \<Rightarrow> w2);
                 w4 = rpc_send (CmdSetConnectionError e) w3;
                 (s1, w5) = clear_serialized_frames e (io_stop s) w4
             in (Inl e, s1, w5))"

definition io_handle_result ::
  "error + unit \<Rightarrow> io_loop \<Rightarrow> 'a channels_state_scheme \<Rightarrow> (error + unit) \<times> io_loop \<times> 'a channels_state_scheme" where
  "io_handle_result r s w =
    (case handle_io_result r (io_socket s) w of
       (Inl e, k, w1) \<Rightarrow> critical_error e (s\<lparr>io_socket := k\<rparr>) w1
     | (Inr _, k, w1) \<Rightarrow> (Inr (), s\<lparr>io_socket := k\<rparr>, w1))"

section \<open>Writing\<close>

definition io_flush :: "socket \<Rightarrow> io_loop \<Rightarrow> (error + unit) \<times> io_loop" where
  "io_flush socket s =
    (let s1 = s\<lparr>io_polls := Suc (io_polls s)\<rparr>
     in (case sp_flush (socket (io_polls s)) of
           Ready (Inl e) \<Rightarrow> (Inl e, s1)
         | Ready (Inr _) \<Rightarrow> (Inr (), s1\<lparr>io_socket := snd (handle_write_poll (Some ()) (io_socket s1))\<rparr>)
         | Pending \<Rightarrow> (Inr (), s1\<lparr>io_socket := snd (handle_write_poll (None :: unit option) (io_socket s1))\<rparr>)))"

definition attempt_flush ::
  "socket \<Rightarrow> io_loop \<Rightarrow> 'a channels_state_scheme \<Rightarrow> (error + unit) \<times> io_loop \<times> 'a channels_state_scheme" where
  "attempt_flush socket s w = (let (r, s1) = io_flush socket s in io_handle_result r s1 w)"

text \<open>The frames in the queues, the measure of the loop that serialises them.\<close>

definition pending_count :: "'a frames_state_scheme \<Rightarrow> nat" where
  "pending_count w =
    length (retry_frames w) + length (publish_frames w) + length (frames_queue w) + length (low_prio_frames w)"

lemma move_content_length: "move_content low pub = (low', pub') \<Longrightarrow> length low' + length pub' = length low + length pub"
  by (induction low pub rule: move_content.induct) (auto split: if_splits)

lemma pop_shorter:
  assumes "pop flow w = (Some x, w')"
  shows "pending_count w' < pending_count w"
  using assms
  by (auto simp: pop_def pending_count_def Let_def dest: move_content_length
      split: list.splits if_splits prod.splits)

text \<open>
  A frame that does not fit is put back, and what was written of it is taken back; every other failure
  of the generator is critical.
\<close>

function io_serialize ::
  "generator \<Rightarrow> io_loop \<Rightarrow> 'a channels_state_scheme \<Rightarrow> ((error + unit) \<times> io_loop \<times> 'a channels_state_scheme) option" where
  "io_serialize gen_frame s w =
    (case pop (channels_flow w) w of
       (None, w1) \<Rightarrow> Some (Inr (), s, w1)
     | (Some x, w1) \<Rightarrow>
         let c = checkpoint_of (io_send s)
         in (case gen_frame (fe_frame x) (io_send s) of
               None \<Rightarrow> None
             | Some (b, Inr sz) \<Rightarrow>
                 io_serialize gen_frame
                   (s\<lparr>io_send := b, io_serialized := io_serialized s @ [into_serialized_frame (of_nat sz) x]\<rparr>) w1
             | Some (b, Inl e) \<Rightarrow>
                 (case rollback c b of
                    None \<Rightarrow> None
                  | Some b1 \<Rightarrow>
                      (case e of
                         BufferTooSmall _ \<Rightarrow> Some (Inr (), s\<lparr>io_send := b1\<rparr>, retry x w1)
                       | GenOther g \<Rightarrow>
                           Some (critical_error (error_of (SerialisationError g)) (s\<lparr>io_send := b1\<rparr>) w1)))))"
  by pat_completeness auto
termination
  by (relation "measure (\<lambda>(_, _, w). pending_count w)") (auto dest: pop_shorter[OF sym])

declare io_serialize.simps [simp del]

text \<open>The accounting of the bytes that the socket took: the frames they complete are resolved.\<close>

fun account ::
  "frame_size \<Rightarrow> (frame_size \<times> frame_sending) list \<Rightarrow> 'a heap_scheme
    \<Rightarrow> (frame_size \<times> frame_sending) list \<times> 'a heap_scheme" where
  "account written [] w = ([], w)"
| "account written ((to_write, sending) # xs) w =
    (if written = 0 then ((to_write, sending) # xs, w)
     else if written < to_write then ((to_write - written, sending) # xs, w)
     else account (written - to_write) xs (sending_resolve sending w))"

definition write_to_stream ::
  "nat \<Rightarrow> socket \<Rightarrow> generator \<Rightarrow> io_loop \<Rightarrow> 'a rpc_state_scheme
    \<Rightarrow> ((error + unit) \<times> io_loop \<times> 'a rpc_state_scheme) option" where
  "write_to_stream now socket gen_frame s w =
    (case io_flush socket s of
       (Inl e, s1) \<Rightarrow> Some (Inl e, s1, w)
     | (Inr _, s1) \<Rightarrow>
    (case io_serialize gen_frame s1 w of
       None \<Rightarrow> None
     | Some (Inl e, s2, w2) \<Rightarrow> Some (Inl e, s2, w2)
     | Some (Inr _, s2, w2) \<Rightarrow>
         let p = socket (io_polls s2);
             s3 = s2\<lparr>io_polls := Suc (io_polls s2)\<rparr>
         in (case poll_write_to (sp_write p) (sp_write_vectored p) (io_send s3) of
               Ready (Inl e) \<Rightarrow> Some (Inl e, s3, w2)
             | Pending \<Rightarrow>
                 Some (Inr (), s3\<lparr>io_socket := snd (handle_write_poll (None :: nat option) (io_socket s3))\<rparr>, w2)
             | Ready (Inr sz) \<Rightarrow>
                 if sz > 0
                 then map_option (\<lambda>(_, b).
                        let (xs, w3) = account (of_nat sz) (io_serialized s3)
                              (w2\<lparr>rpc_heartbeat := hb_update_last_write now (rpc_heartbeat w2)\<rparr>);
                            (r, s4) = io_flush socket (s3\<lparr>io_send := b, io_serialized := xs\<rparr>)
                        in (r, s4, w3)) (consume sz (io_send s3))
                 else Some (Inr (),
                   s3\<lparr>io_socket := snd (handle_write_poll (None :: unit option) (io_socket s3))\<rparr>, w2))))"

partial_function (option) io_write ::
  "nat \<Rightarrow> socket \<Rightarrow> generator \<Rightarrow> io_loop \<Rightarrow> 'a rpc_state_scheme
    \<Rightarrow> ((error + unit) \<times> io_loop \<times> 'a rpc_state_scheme) option" where
  "io_write now socket gen_frame s w =
    (if can_write s w
     then Option.bind (write_to_stream now socket gen_frame s w) (\<lambda>(r, s1, w1).
       (case io_handle_result r s1 w1 of
          (Inl e, s2, w2) \<Rightarrow> Some (Inl e, s2, w2)
        | (Inr _, s2, w2) \<Rightarrow> io_write now socket gen_frame s2 w2))
     else Some (Inr (), s, w))"

section \<open>Reading\<close>

definition io_parse ::
  "parser \<Rightarrow> nat \<Rightarrow> io_loop \<Rightarrow> 'a channels_state_scheme
    \<Rightarrow> ((error + amqp_frame option) \<times> io_loop \<times> 'a channels_state_scheme) option" where
  "io_parse parse_frame base s w =
    (case parse_frame (parsing_context_of base (io_receive s)) of
       Parsed pc f \<Rightarrow>
         let consumed = offset base pc (io_receive s);
             frame_max = unat (nc_frame_max (w_negotiated w));
             (r, s1, w1) =
               (if frame_max > 0 \<and> consumed > frame_max
                then (case report_protocol_violation (cs_channel0 w)
                         \<lparr>ae_kind = frame_error,
                          ae_message = ''frame too large: '' @ show_nat consumed @ '' bytes''\<rparr> 0 0 w of
                        (Inl e, w1) \<Rightarrow> critical_error e s w1
                      | (Inr _, w1) \<Rightarrow> (Inr (), s, w1))
                else (Inr (), s, w))
         in (case r of
               Inl e \<Rightarrow> Some (Inl e, s1, w1)
             | Inr () \<Rightarrow> map_option (\<lambda>(_, b). (Inr (Some f), s1\<lparr>io_receive := b\<rparr>, w1)) (consume consumed (io_receive s1)))
     | Incomplete \<Rightarrow> Some (Inr None, s, w)
     | Unparsable e \<Rightarrow> Some (critical_error (error_of (ParsingError e)) s w))"

partial_function (option) handle_frames ::
  "(reply_code \<Rightarrow> amqp_error_kind option) \<Rightarrow> parser \<Rightarrow> nat \<Rightarrow> bool \<Rightarrow> io_loop \<Rightarrow> 'a channels_state_scheme
    \<Rightarrow> ((error + bool) \<times> io_loop \<times> 'a channels_state_scheme) option" where
  "handle_frames error_kind_of parse_frame base did_something s w =
    (if can_parse s
     then Option.bind (io_parse parse_frame base s w) (\<lambda>(r, s1, w1).
       (case r of
          Inl e \<Rightarrow> Some (Inl e, s1, w1)
        | Inr None \<Rightarrow> Some (Inr did_something, s1, w1)
        | Inr (Some f) \<Rightarrow>
            (case handle_frame error_kind_of f w1 of
               (Inl e, w2) \<Rightarrow> Some (Inl e, s1, rpc_send (CmdSetConnectionError e) w2)
             | (Inr _, w2) \<Rightarrow> handle_frames error_kind_of parse_frame base True s1 w2)))
     else Some (Inr did_something, s, w))"

definition handle_half_closed_connection ::
  "io_loop \<Rightarrow> 'a channels_state_scheme \<Rightarrow> (error + bool) \<times> io_loop \<times> 'a channels_state_scheme" where
  "handle_half_closed_connection s w =
    (if io_reconnecting w \<or> io_connecting s \<or> killed (cs_killswitch w) w then (Inr True, s, w)
     else (case handle_io_result (Inl (error_of (IOError ConnectionAborted))) (io_socket s) w of
             (Inl e, k, w1) \<Rightarrow> (Inl e, s\<lparr>io_socket := k\<rparr>, w1)
           | (Inr _, k, w1) \<Rightarrow> (Inr False, s\<lparr>io_socket := k\<rparr>, w1)))"

text \<open>The result is whether reading stops.\<close>

definition read_from_stream ::
  "(reply_code \<Rightarrow> amqp_error_kind option) \<Rightarrow> nat \<Rightarrow> socket \<Rightarrow> parser \<Rightarrow> nat \<Rightarrow> io_loop \<Rightarrow> 'a rpc_state_scheme
    \<Rightarrow> ((error + bool) \<times> io_loop \<times> 'a rpc_state_scheme) option" where
  "read_from_stream error_kind_of now socket parse_frame base s w =
    (case cn_state (w_conn_status w) of
       CsClosed \<Rightarrow> Some (Inr True, s, w)
     | CsError \<Rightarrow> Some (Inl (error_of (InvalidConnectionState CsError)), s, w)
     | _ \<Rightarrow>
         let p = socket (io_polls s);
             (r, b) = poll_read_from (sp_read p) (sp_read_vectored p) (io_receive s);
             s1 = s\<lparr>io_polls := Suc (io_polls s), io_receive := b\<rparr>
         in (case r of
               Ready (Inl e) \<Rightarrow> Some (Inl e, s1, w)
             | Pending \<Rightarrow> Some (Inr False, s1\<lparr>io_socket := snd (handle_read_poll None (io_socket s1))\<rparr>, w)
             | Ready (Inr sz) \<Rightarrow>
                 if sz > 0
                 then map_option (\<lambda>(_, b1).
                        (Inr False, s1\<lparr>io_receive := b1\<rparr>,
                         w\<lparr>rpc_heartbeat := hb_update_last_read now (rpc_heartbeat w)\<rparr>)) (fill sz (io_receive s1))
                 else if io_half_closed s1 then Some (handle_half_closed_connection s1 w)
                 else map_option (\<lambda>(r, s2, w2).
                        (case r of
                           Inl e \<Rightarrow> (Inl e, s2, w2)
                         | Inr did_something \<Rightarrow>
                             if \<not> did_something \<and> rpc_is_empty w2 then handle_half_closed_connection s2 w2
                             else (Inr False, s2, w2)))
                      (handle_frames error_kind_of parse_frame base False (s1\<lparr>io_half_closed := True\<rparr>) w)))"

partial_function (option) io_read ::
  "(reply_code \<Rightarrow> amqp_error_kind option) \<Rightarrow> nat \<Rightarrow> socket \<Rightarrow> parser \<Rightarrow> nat \<Rightarrow> io_loop \<Rightarrow> 'a rpc_state_scheme
    \<Rightarrow> ((error + unit) \<times> io_loop \<times> 'a rpc_state_scheme) option" where
  "io_read error_kind_of now socket parse_frame base s w =
    (if can_read s
     then Option.bind (read_from_stream error_kind_of now socket parse_frame base s w) (\<lambda>(r, s1, w1).
       (case io_handle_result (map_sum id (\<lambda>_. ()) r) s1 w1 of
          (Inl e, s2, w2) \<Rightarrow> Some (Inl e, s2, w2)
        | (Inr _, s2, w2) \<Rightarrow>
            if r = Inr True then Some (Inr (), s2, w2)
            else io_read error_kind_of now socket parse_frame base s2 w2))
     else Some (Inr (), s, w))"

section \<open>The loop\<close>

text \<open>What the environment of the thread is: the time, the socket, the protocol crate's functions.\<close>

record io_env =
  env_error_kind :: "reply_code \<Rightarrow> amqp_error_kind option"
  env_now :: nat
  env_socket :: socket
  env_gen :: generator
  env_parse :: parser
  env_base :: nat
  env_throttles :: "nat list"

text \<open>
  One turn.  When there is nothing to read or write, the thread waits for an event of the socket or a
  wake-up of the other tasks.
\<close>

definition io_run ::
  "io_env \<Rightarrow> io_loop \<Rightarrow> 'a rpc_state_scheme \<Rightarrow> ((error + unit) \<times> io_loop \<times> 'a rpc_state_scheme) option" where
  "io_run env s w =
    (let (s1, w1) = poll_socket_events s w in
     Option.bind (ensure_setup (env_throttles env) s1 w1) (\<lambda>(proceed, s2, w2).
     if \<not> proceed then Some (Inr (), s2, w2)
     else
       let s3 = check_connection_state s2 w2 in
       Option.bind
         (if \<not> can_read s3 \<and> \<not> can_write s3 w2 \<and> should_continue s3 w2
          then map_option (\<lambda>(k, w3). (s3\<lparr>io_socket := k\<rparr>, w3)) (socket_wait (io_socket s3) w2)
          else Some (s3, w2)) (\<lambda>(s4, w4).
       let (s5, w5) = poll_socket_events s4 w4 in
       case attempt_flush (env_socket env) s5 w5 of
         (Inl e, s6, w6) \<Rightarrow> Some (Inl e, s6, w6)
       | (Inr _, s6, w6) \<Rightarrow>
       Option.bind (io_write (env_now env) (env_socket env) (env_gen env) s6 w6) (\<lambda>(r7, s7, w7).
       case r7 of
         Inl e \<Rightarrow> Some (Inl e, s7, w7)
       | Inr _ \<Rightarrow>
       let s8 = check_connection_state s7 w7 in
       Option.bind
         (if should_continue s8 w7
          then io_read (env_error_kind env) (env_now env) (env_socket env) (env_parse env) (env_base env) s8 w7
          else Some (Inr (), s8, w7)) (\<lambda>(r9, s9, w9).
       case r9 of
         Inl e \<Rightarrow> Some (Inl e, s9, w9)
       | Inr _ \<Rightarrow>
       map_option (\<lambda>(r, s10, w10).
         (case r of Inl e \<Rightarrow> (Inl e, s10, w10) | Inr _ \<Rightarrow> (Inr (), check_connection_state s10 w10, w10)))
         (handle_frames (env_error_kind env) (env_parse env) (env_base env) False s9 w9))))))"

section \<open>The thread\<close>

text \<open>
  Between its turns the thread is about to connect, or in the inner loop with the result so far, or it
  has ended.
\<close>

datatype io_phase = PhConnect | PhLoop "error + unit" | PhEnded "error + unit"

definition io_exit :: "error + unit \<Rightarrow> io_loop \<Rightarrow> 'a heap_scheme \<Rightarrow> io_phase \<times> io_loop \<times> 'a heap_scheme" where
  "io_exit res s w = (PhEnded res, s, rpc_stop w)"

text \<open>What follows the inner loop: an end, or a pause and a new attempt.\<close>

definition aborted_error :: error where
  "aborted_error = error_of (IOError ConnectionAborted)"

definition leftover_error :: "error + unit \<Rightarrow> 'a frames_state_scheme \<Rightarrow> error" where
  "leftover_error res w = (case poison w of
      Some e \<Rightarrow> e
    | None \<Rightarrow> (case res of Inl e \<Rightarrow> e | Inr _ \<Rightarrow> error_of (InvalidConnectionState CsClosed)))"

definition next_attempt ::
  "error + unit \<Rightarrow> io_loop \<Rightarrow> 'a channels_state_scheme \<Rightarrow> io_phase \<times> io_loop \<times> 'a channels_state_scheme" where
  "next_attempt res s w =
    (case io_backoff s of
       [] \<Rightarrow>
         let e = (case res of Inl e \<Rightarrow> e | Inr _ \<Rightarrow> aborted_error)
         in io_exit (Inl e) s (set_connection_error e w)
     | _ # throttles \<Rightarrow>
         let s1 = io_reset (s\<lparr>io_backoff := throttles\<rparr>)
         in (PhConnect, s1, if \<not> io_first_connection s1 then rpc_send CmdStartChannelsRecovery w else w))"

definition end_session ::
  "error + unit \<Rightarrow> io_loop \<Rightarrow> 'a channels_state_scheme \<Rightarrow> io_phase \<times> io_loop \<times> 'a channels_state_scheme" where
  "end_session res s w =
    (let connecting = io_connecting s; reconnect = io_reconnecting w;
         cut_short = io_first_connection s \<and> connecting \<and> io_half_closed s \<and> res = Inr ();
         (retried, w1) = (if cut_short then retry_connection_header w else (False, w))
     in if cut_short \<and> \<not> retried
        then let w2 = set_connection_error aborted_error w1;
                 (s1, w3) = clear_serialized_frames aborted_error s w2
             in io_exit (Inl aborted_error) s1 w3
        else let res1 = (if cut_short then Inl aborted_error else res);
                 (s1, w2) = clear_serialized_frames (leftover_error res1 w1) s w1
             in if \<not> connecting \<and> \<not> reconnect then io_exit res1 s1 w2 else next_attempt res1 s1 w2)"

text \<open>One step of the thread; the connector of the application answers when a connection is made.\<close>

definition io_thread_step ::
  "io_env \<Rightarrow> error + unit \<Rightarrow> io_phase \<times> io_loop \<times> 'a rpc_state_scheme
    \<Rightarrow> (io_phase \<times> io_loop \<times> 'a rpc_state_scheme) option" where
  "io_thread_step env connected x = (case x of
      (PhConnect, s, w) \<Rightarrow>
        (case connected of
           Inl e \<Rightarrow>
             Some (PhEnded (Inl e), s,
               clear_connection_steps e (w\<lparr>w_conn_status := cn_set_poison e (w_conn_status w)\<rparr>))
         | Inr _ \<Rightarrow> Some (PhLoop (Inr ()), s\<lparr>io_half_closed := False\<rparr>, w))
    | (PhLoop res, s, w) \<Rightarrow>
        if \<not> should_continue s w then Some (end_session res s w)
        else map_option (\<lambda>(r, s1, w1).
          (case r of
             Inr _ \<Rightarrow> (PhLoop res, s1, w1)
           | Inl e \<Rightarrow>
               let (res1, s2, w2) = critical_error e s1 w1
               in if io_connecting s2 \<and> is_io_error e then end_session res1 s2 w2 else (PhLoop res1, s2, w2)))
          (io_run env s w)
    | (PhEnded res, s, w) \<Rightarrow> Some (PhEnded res, s, w))"

end
