(* ===== verification/Io_Wire.thy ===== *)
theory Io_Wire
  imports Io_Loop "HOL-Library.Sublist"
begin

text \<open>
  What the thread of \<^verbatim>\<open>src/io_loop.rs\<close> does to the bytes on the wire: the frames it takes from the queues are
  written one after the other, each is reported as sent when its last byte was taken by the socket, and
  the received bytes are cut into frames wherever the reads ended.
\<close>

section \<open>The generator of frames\<close>

text \<open>
  What the loop relies on for a frame that is not larger than the whole buffer: the generator writes the
  encoding of the frame when there is room for it, and otherwise only a first part of it before it
  reports that the buffer is too small.
\<close>

definition generates :: "(amqp_frame \<Rightarrow> byte list) \<Rightarrow> generator \<Rightarrow> bool" where
  "generates enc gen_frame \<longleftrightarrow> (\<forall>f b. valid_buffer b \<and> length (enc f) \<le> capacity b \<longrightarrow>
    (if length (enc f) \<le> available_space b
     then gen_frame f b = map_option (\<lambda>(n, b1). (b1, Inr n)) (buffer_write (enc f) b)
     else (\<exists>d m. strict_prefix d (enc f) \<and> length d \<le> available_space b
       \<and> gen_frame f b = map_option (\<lambda>(_, b1). (b1, Inl (BufferTooSmall m))) (buffer_write d b))))"

lemma generates_fits:
  assumes "generates enc gen_frame" "valid_buffer b" "length (enc f) \<le> available_space b"
  shows "gen_frame f b = Some (store (enc f) b, Inr (length (enc f)))"
  using assms buffer_write_store[of b "enc f"] by (simp add: generates_def available_space_def)

lemma generates_small:
  assumes "generates enc gen_frame" "valid_buffer b" "available_space b < length (enc f)" "length (enc f) \<le> capacity b"
  obtains d m b' where "gen_frame f b = Some (store d b, Inl (BufferTooSmall m))"
    "rollback (checkpoint_of b) (store d b) = Some b'" "valid_buffer b'" "contents b' = contents b"
    "capacity b' = capacity b"
proof -
  obtain d m where d: "length d \<le> available_space b" "strict_prefix d (enc f)"
    "gen_frame f b = map_option (\<lambda>(_, b1). (b1, Inl (BufferTooSmall m))) (buffer_write d b)"
    using assms(1)[unfolded generates_def, rule_format, of b f] assms(2-4) by (auto simp: not_le)
  then have "gen_frame f b = Some (store d b, Inl (BufferTooSmall m))"
    using buffer_write_store[OF assms(2), of d] by simp
  moreover have "length d < capacity b" using prefix_length_less[OF d(2)] assms(4) by simp
  ultimately show thesis using that rollback_store[OF assms(2) d(1)] by blast
qed

section \<open>The backlog\<close>

text \<open>
  The abstract state of the sending side: for each frame that was serialised and is not sent yet, the
  bytes that are missing and whom to tell.
\<close>

type_synonym backlog = "(byte list \<times> frame_sending) list"

definition backlog :: "io_loop \<Rightarrow> backlog \<Rightarrow> bool" where
  "backlog s fs \<longleftrightarrow> valid_buffer (io_send s) \<and> capacity (io_send s) < 2 ^ 32
    \<and> contents (io_send s) = concat (map fst fs)
    \<and> io_serialized s = map (\<lambda>(d, x). (of_nat (length d), x)) fs \<and> list_all (\<lambda>(d, _). d \<noteq> []) fs"

definition backlog_entry :: "(amqp_frame \<Rightarrow> byte list) \<Rightarrow> frame_entry \<Rightarrow> byte list \<times> frame_sending" where
  "backlog_entry enc x = (enc (fe_frame x), fe_sending x)"

text \<open>After \<^term>\<open>n\<close> bytes were taken: what is left, and the frames that are complete.\<close>

fun advance :: "nat \<Rightarrow> backlog \<Rightarrow> backlog" where
  "advance n [] = []"
| "advance n ((d, x) # fs) = (if n < length d then (drop n d, x) # fs else advance (n - length d) fs)"

fun completed :: "nat \<Rightarrow> backlog \<Rightarrow> frame_sending list" where
  "completed n [] = []"
| "completed n ((d, x) # fs) = (if n < length d then [] else x # completed (n - length d) fs)"

lemma concat_advance: "concat (map fst (advance n fs)) = drop n (concat (map fst fs))"
  by (induction n fs rule: advance.induct) auto

lemma advance_nonempty: "list_all (\<lambda>(d, _). d \<noteq> []) fs \<Longrightarrow> list_all (\<lambda>(d, _). d \<noteq> []) (advance n fs)"
  by (induction n fs rule: advance.induct) auto

lemma length_advance: "length (completed n fs) + length (advance n fs) = length fs"
  by (induction n fs rule: advance.induct) auto

text \<open>The frames that the serialising loop takes from the queues.\<close>

primrec drain :: "nat \<Rightarrow> 'a channels_state_scheme \<Rightarrow> frame_entry list \<times> 'a channels_state_scheme" where
  "drain 0 w = ([], w)"
| "drain (Suc n) w =
    (case pop (channels_flow w) w of
       (None, w1) \<Rightarrow> ([], w1)
     | (Some x, w1) \<Rightarrow> let (xs, w2) = drain n w1 in (x # xs, w2))"

text \<open>Every frame in the queues is not larger than the whole buffer.\<close>

definition frames_fit :: "(amqp_frame \<Rightarrow> byte list) \<Rightarrow> io_loop \<Rightarrow> 'a frames_state_scheme \<Rightarrow> bool" where
  "frames_fit enc s w \<longleftrightarrow> (\<forall>x\<in>queued w. length (enc (fe_frame x)) \<le> capacity (io_send s))"

lemma move_content_set: "move_content low pub = (low', pub') \<Longrightarrow> set low' \<union> set pub' = set low \<union> set pub"
  by (induction low pub rule: move_content.induct) (auto split: if_splits)

lemma queued_pop: "pop flow w = (Some x, w1) \<Longrightarrow> queued w = insert x (queued w1)"
  by (auto simp: pop_def queued_def Let_def split: list.splits if_splits prod.splits dest!: move_content_set)

lemma frames_fit_pop:
  assumes "frames_fit enc s w" "pop flow w = (Some x, w1)"
  shows "length (enc (fe_frame x)) \<le> capacity (io_send s)" "frames_fit enc s w1" "frames_fit enc s (retry x w1)"
  using assms queued_pop[OF assms(2)] by (auto simp: frames_fit_def) (auto simp: queued_def retry_def)

lemma frames_fit_cong:
  "frames_fit enc s w \<Longrightarrow> capacity (io_send s') = capacity (io_send s) \<Longrightarrow> queued w' = queued w \<Longrightarrow> frames_fit enc s' w'"
  by (simp add: frames_fit_def)

lemma backlog_serialised:
  assumes "backlog s fs" "length d \<le> available_space (io_send s)" "d \<noteq> []"
  shows "backlog (s\<lparr>io_send := store d (io_send s),
      io_serialized := io_serialized s @ [(of_nat (length d), x)]\<rparr>) (fs @ [(d, x)])"
  using assms valid_store[of "io_send s" d] contents_store[of "io_send s" d] by (simp add: backlog_def)

lemma serialize_drains:
  assumes "generates enc gen_frame" "\<And>f. enc f \<noteq> []" "backlog s fs" "frames_fit enc s w"
  shows "\<exists>n s' w' xs w1. io_serialize gen_frame s w = Some (Inr (), s', w') \<and> drain n w = (xs, w1)
    \<and> backlog s' (fs @ map (backlog_entry enc) xs) \<and> frames_fit enc s' w'
    \<and> (w' = w1 \<and> fst (pop (channels_flow w1) w1) = None
       \<or> (\<exists>x w2. pop (channels_flow w1) w1 = (Some x, w2) \<and> w' = retry x w2
           \<and> available_space (io_send s') < length (enc (fe_frame x))))"
  using assms(1,3,4)
proof (induction gen_frame s w arbitrary: fs rule: io_serialize.induct)
  case (1 gen_frame s w)
  have valid: "valid_buffer (io_send s)" using 1(3) by (simp add: backlog_def)
  obtain r w1 where pop: "pop (channels_flow w) w = (r, w1)" by fastforce
  show ?case
  proof (cases r)
    case None
    then have "pop (channels_flow w) w = (None, w)"
      using pop by (auto simp: pop_def split: list.splits if_splits)
    then show ?thesis using 1(3,4)
      by (intro exI[of _ 0] exI[of _ s] exI[of _ w] exI[of _ "[]"]) (simp add: io_serialize.simps)
  next
    case (Some x)
    let ?d = "enc (fe_frame x)"
    note fit = frames_fit_pop[OF 1(4) pop[unfolded Some]]
    show ?thesis
    proof (cases "length ?d \<le> available_space (io_send s)")
      case True
      let ?s = "s\<lparr>io_send := store ?d (io_send s),
        io_serialized := io_serialized s @ [into_serialized_frame (of_nat (length ?d)) x]\<rparr>"
      note gen = generates_fits[OF 1(2) valid True]
      have "backlog ?s (fs @ [backlog_entry enc x])"
        using backlog_serialised[OF 1(3) True assms(2)] by (simp add: into_serialized_frame_def backlog_entry_def)
      moreover have "frames_fit enc ?s w1" using fit(2) by (simp add: frames_fit_def)
      ultimately have "\<exists>n s' w' xs w2. io_serialize gen_frame ?s w1 = Some (Inr (), s', w') \<and> drain n w1 = (xs, w2)
        \<and> backlog s' ((fs @ [backlog_entry enc x]) @ map (backlog_entry enc) xs) \<and> frames_fit enc s' w'
        \<and> (w' = w2 \<and> fst (pop (channels_flow w2) w2) = None
          \<or> (\<exists>y w3. pop (channels_flow w2) w2 = (Some y, w3) \<and> w' = retry y w3
            \<and> available_space (io_send s') < length (enc (fe_frame y))))"
        by (rule 1(1)[OF pop[symmetric] Some refl gen refl refl 1(2)])
      then
      obtain n s' w' xs w2 where IH: "io_serialize gen_frame ?s w1 = Some (Inr (), s', w')" "drain n w1 = (xs, w2)"
        "backlog s' ((fs @ [backlog_entry enc x]) @ map (backlog_entry enc) xs)"
        "w' = w2 \<and> fst (pop (channels_flow w2) w2) = None
          \<or> (\<exists>y w3. pop (channels_flow w2) w2 = (Some y, w3) \<and> w' = retry y w3
            \<and> available_space (io_send s') < length (enc (fe_frame y)))" "frames_fit enc s' w'" by blast
      have "io_serialize gen_frame s w = Some (Inr (), s', w')"
        using IH(1) by (subst io_serialize.simps) (simp add: pop Some gen)
      moreover have "drain (Suc n) w = (x # xs, w2)" using IH(2) by (simp add: pop Some)
      ultimately show ?thesis using IH(3-5)
        by (intro exI[of _ "Suc n"] exI[of _ s'] exI[of _ w'] exI[of _ "x # xs"] exI[of _ w2]) simp
    next
      case False
      then obtain d m b' where gen: "gen_frame (fe_frame x) (io_send s) = Some (store d (io_send s), Inl (BufferTooSmall m))"
        "rollback (checkpoint_of (io_send s)) (store d (io_send s)) = Some b'" "valid_buffer b'"
        "contents b' = contents (io_send s)" "capacity b' = capacity (io_send s)"
        using generates_small[OF 1(2) valid _ fit(1)] by (metis not_le)
      then have "available_space b' = available_space (io_send s)"
        using length_contents[of b'] length_contents[of "io_send s"] by (simp add: available_space_def)
      moreover have "io_serialize gen_frame s w = Some (Inr (), s\<lparr>io_send := b'\<rparr>, retry x w1)"
        by (subst io_serialize.simps) (simp add: pop Some gen)
      moreover have "backlog (s\<lparr>io_send := b'\<rparr>) fs" using 1(3) gen by (simp add: backlog_def)
      moreover have "frames_fit enc (s\<lparr>io_send := b'\<rparr>) (retry x w1)" using fit(3) gen(5) by (simp add: frames_fit_def)
      ultimately show ?thesis using False pop Some
        by (intro exI[of _ 0] exI[of _ "s\<lparr>io_send := b'\<rparr>"] exI[of _ "retry x w1"] exI[of _ "[]"] exI[of _ w]) simp
    qed
  qed
qed

section \<open>Frames are reported as sent when they are\<close>

definition sizes :: "backlog \<Rightarrow> (frame_size \<times> frame_sending) list" where
  "sizes fs = map (\<lambda>(d, x). (of_nat (length d), x)) fs"

lemma account_backlog:
  assumes "list_all (\<lambda>(d, _). d \<noteq> [] \<and> length d < 2 ^ 32) fs" "n \<le> length (concat (map fst fs))" "n < 2 ^ 32"
  shows "account (of_nat n) (sizes fs) w = (sizes (advance n fs), fold sending_resolve (completed n fs) w)"
  using assms
proof (induction n fs arbitrary: w rule: advance.induct)
  case (2 n d x fs)
  have d: "d \<noteq> []" "unat (of_nat (length d) :: 32 word) = length d" "unat (of_nat n :: 32 word) = n"
    using 2(2,4) by (simp_all add: unat_of_nat)
  have less: "(of_nat n :: 32 word) < of_nat (length d) \<longleftrightarrow> n < length d" by (simp add: word_less_nat_alt d)
  have zero: "(of_nat n :: 32 word) = 0 \<longleftrightarrow> n = 0" using d(3) by (auto simp: unat_eq_0[symmetric])
  show ?case
  proof (cases "n < length d")
    case True
    then have "(of_nat (length d) :: 32 word) - of_nat n = of_nat (length d - n)" by simp
    with True show ?thesis by (simp add: sizes_def less zero)
  next
    case False
    then have "(of_nat n :: 32 word) - of_nat (length d) = of_nat (n - length d)" by simp
    moreover have "account (of_nat (n - length d)) (sizes fs) (sending_resolve x w)
      = (sizes (advance (n - length d) fs), fold sending_resolve (completed (n - length d) fs) (sending_resolve x w))"
      using False 2(2-4) by (intro 2(1)) auto
    moreover have "n \<noteq> 0" using False d(1) by (cases d) auto
    ultimately show ?thesis using False by (simp add: sizes_def less zero)
  qed
qed (simp add: sizes_def)

lemma backlog_small:
  assumes "backlog s fs"
  shows "list_all (\<lambda>(d, _). d \<noteq> [] \<and> length d < 2 ^ 32) fs" "available_data (io_send s) < 2 ^ 32"
    "io_serialized s = sizes fs"
proof -
  have "length (concat (map fst fs)) \<le> capacity (io_send s)" "capacity (io_send s) < 2 ^ 32"
    using assms length_contents[of "io_send s"] by (simp_all add: backlog_def valid_buffer_def)
  moreover have "(d, x) \<in> set fs \<Longrightarrow> length d \<le> length (concat (map fst fs))" for d x
    by (induction fs) auto
  ultimately show "list_all (\<lambda>(d, _). d \<noteq> [] \<and> length d < 2 ^ 32) fs"
    using assms by (fastforce simp: backlog_def list_all_iff)
  show "available_data (io_send s) < 2 ^ 32" "io_serialized s = sizes fs"
    using assms by (auto simp: backlog_def valid_buffer_def sizes_def)
qed

text \<open>
  The contract of a socket: it takes at most what it is offered, and it reports that it would block or was
  interrupted by being pending, never by an error.
\<close>

definition lasting :: "error \<Rightarrow> bool" where
  "lasting e \<longleftrightarrow> \<not> interrupted e \<and> \<not> wouldblock e"

definition honest_writer :: "socket \<Rightarrow> bool" where
  "honest_writer socket \<longleftrightarrow> (\<forall>k.
    (\<forall>n d. sp_write (socket k) d = Ready (Inr n) \<longrightarrow> n \<le> length d)
    \<and> (\<forall>n ds. sp_write_vectored (socket k) ds = Ready (Inr n) \<longrightarrow> n \<le> length (concat ds))
    \<and> (\<forall>e d. sp_write (socket k) d = Ready (Inl e) \<longrightarrow> lasting e)
    \<and> (\<forall>e ds. sp_write_vectored (socket k) ds = Ready (Inl e) \<longrightarrow> lasting e)
    \<and> (\<forall>e. sp_flush (socket k) = Ready (Inl e) \<longrightarrow> lasting e))"

lemma honest_writerD:
  assumes "honest_writer socket"
  shows "sp_write (socket k) d = Ready (Inr n) \<Longrightarrow> n \<le> length d"
    "sp_write_vectored (socket k) ds = Ready (Inr n) \<Longrightarrow> n \<le> length (concat ds)"
    "sp_write (socket k) d = Ready (Inl e) \<Longrightarrow> lasting e"
    "sp_write_vectored (socket k) ds = Ready (Inl e) \<Longrightarrow> lasting e"
    "sp_flush (socket k) = Ready (Inl e) \<Longrightarrow> lasting e"
  using assms unfolding honest_writer_def by blast+

lemma poll_write_lasting:
  assumes "honest_writer socket" "poll_write_to (sp_write (socket k)) (sp_write_vectored (socket k)) b = Ready (Inl e)"
  shows "lasting e"
  using assms(2) honest_writerD(3,4)[OF assms(1)] by (auto simp: poll_write_to_def Let_def split: if_splits)

lemma io_flush_lasting: "honest_writer socket \<Longrightarrow> io_flush socket s = (Inl e, s') \<Longrightarrow> lasting e"
  using honest_writerD(5) by (fastforce simp: io_flush_def Let_def split: poll.splits sum.splits)

lemma poll_write_bound:
  assumes "honest_writer socket" "valid_buffer b"
    and "poll_write_to (sp_write (socket k)) (sp_write_vectored (socket k)) b = Ready (Inr n)"
  shows "n \<le> available_data b"
  using assms(2)
proof (cases rule: valid_end_cases)
  case straight
  then have "poll_write_to (sp_write (socket k)) (sp_write_vectored (socket k)) b =
      (if contents b = [] then Ready (Inr 0) else sp_write (socket k) (contents b))"
    using contents_straight[OF assms(2) straight(1)] by (auto simp: poll_write_to_def contents_def)
  then show ?thesis
    using assms(3) honest_writerD(1)[OF assms(1), of k "contents b" n] by (auto split: if_splits)
next
  case wrapped
  then have "poll_write_to (sp_write (socket k)) (sp_write_vectored (socket k)) b =
      sp_write_vectored (socket k) [drop (position b) (memory b), take (buf_end b) (memory b)]"
    by (simp add: poll_write_to_def)
  then show ?thesis
    using assms(3) contents_wrapped[OF assms(2) wrapped(1)] length_contents[of b]
      honest_writerD(2)[OF assms(1), of k "[drop (position b) (memory b), take (buf_end b) (memory b)]" n]
    by simp
qed

lemma promises_frames [simp]:
  "promises (snd (pop flow w)) = promises w" "promises (retry x w) = promises w"
  by (auto simp: pop_def retry_def Let_def split: list.split prod.split)

lemma promises_drain: "promises (snd (drain n w)) = promises w"
proof (induction n arbitrary: w)
  case (Suc n)
  obtain r w1 where pop: "pop (channels_flow w) w = (r, w1)" by fastforce
  then have "promises w1 = promises w" using promises_frames(1)[of "channels_flow w" w] by simp
  with Suc[of w1] pop show ?case by (auto split: option.split prod.split)
qed simp

lemma promises_resolve_cong:
  "promises v = promises w \<Longrightarrow> promises (fold sending_resolve xs v) = promises (fold sending_resolve xs w)"
  by (induction xs arbitrary: v w)
    (auto simp: sending_resolve_def promise_resolve_def promise_complete_def promise_get_def split: option.split)

text \<open>The bytes that are not written yet, of the frames in the buffer and of those in the queues.\<close>

definition pending_bytes :: "(amqp_frame \<Rightarrow> byte list) \<Rightarrow> 'a frames_state_scheme \<Rightarrow> nat" where
  "pending_bytes enc w = (\<Sum>x\<leftarrow>retry_frames w @ publish_frames w @ frames_queue w @ low_prio_frames w.
    length (enc (fe_frame x)))"

definition outstanding :: "(amqp_frame \<Rightarrow> byte list) \<Rightarrow> io_loop \<Rightarrow> 'a frames_state_scheme \<Rightarrow> nat" where
  "outstanding enc s w = available_data (io_send s) + pending_bytes enc w"

lemma move_content_bytes:
  "move_content low pub = (low', pub') \<Longrightarrow>
    (\<Sum>x\<leftarrow>pub'. f x) + (\<Sum>x\<leftarrow>low'. f x) = (\<Sum>x\<leftarrow>pub. f x) + (\<Sum>x\<leftarrow>low. f x :: nat)"
  by (induction low pub rule: move_content.induct) (auto split: if_splits)

lemma pending_bytes_pop:
  "pop flow w = (Some x, w1) \<Longrightarrow> pending_bytes enc w = length (enc (fe_frame x)) + pending_bytes enc w1"
  by (auto simp: pop_def pending_bytes_def Let_def split: list.splits if_splits prod.splits
      dest!: move_content_bytes[where f = "\<lambda>x. length (enc (fe_frame x))"])

lemma pending_bytes_keep [simp]:
  "pending_bytes enc (retry x w) = length (enc (fe_frame x)) + pending_bytes enc w"
  "pending_bytes enc (v\<lparr>rpc_heartbeat := b\<rparr>) = pending_bytes enc v"
  by (simp_all add: pending_bytes_def retry_def)

lemma pending_bytes_resolve [simp]: "pending_bytes enc (fold sending_resolve ks w) = pending_bytes enc w"
proof -
  have "pending_bytes enc (sending_resolve k w) = pending_bytes enc w" for k and w :: "'a frames_state_scheme"
    by (simp add: pending_bytes_def sending_resolve_def promise_resolve_def promise_complete_def split: option.split)
  then show ?thesis by (induction ks arbitrary: w) simp_all
qed

lemma queued_keep [simp]: "queued (w\<lparr>rpc_heartbeat := b\<rparr>) = queued w"
  by (simp add: queued_def)

lemma queued_resolve [simp]: "queued (fold sending_resolve ks w) = queued w"
proof -
  have "queued (sending_resolve k w) = queued w" for k and w :: "'a frames_state_scheme"
    by (simp add: queued_def sending_resolve_def promise_resolve_def promise_complete_def split: option.split)
  then show ?thesis by (induction ks arbitrary: w) simp_all
qed

lemma pending_bytes_drain:
  "drain n w = (xs, w1) \<Longrightarrow> pending_bytes enc w = length (concat (map (fst \<circ> backlog_entry enc) xs)) + pending_bytes enc w1"
proof (induction n arbitrary: w xs)
  case (Suc n)
  obtain r w2 where pop: "pop (channels_flow w) w = (r, w2)" by fastforce
  show ?case
  proof (cases r)
    case None
    then have "w2 = w" using pop by (auto simp: pop_def split: list.splits if_splits)
    then show ?thesis using Suc.prems pop None by simp
  next
    case (Some x)
    then obtain ys where "drain n w2 = (ys, w1)" "xs = x # ys" using Suc.prems pop by (auto split: prod.splits)
    then show ?thesis using Suc.IH[of w2 ys] pending_bytes_pop[of _ w x w2 enc] pop Some by (simp add: backlog_entry_def)
  qed
qed simp

lemma backlog_written:
  assumes "backlog s fs" "n \<le> available_data (io_send s)" "consume n (io_send s) = Some (m, b)"
  shows "backlog (s\<lparr>io_send := b, io_serialized := sizes (advance n fs)\<rparr>) (advance n fs)"
proof -
  have v: "valid_buffer (io_send s)" using assms(1) by (simp add: backlog_def)
  from consume_contents[OF v, of n] assms(1,3) advance_nonempty[of fs n]
  show ?thesis by (auto simp: backlog_def concat_advance sizes_def)
qed

lemma backlog_cong:
  "io_send s' = io_send s \<Longrightarrow> io_serialized s' = io_serialized s \<Longrightarrow> backlog s' fs = backlog s fs"
  by (simp add: backlog_def)

lemma backlog_bytes: "backlog s fs \<Longrightarrow> available_data (io_send s) = length (concat (map fst fs))"
  using length_contents[of "io_send s"] by (auto simp: backlog_def)

lemma io_flush_keeps:
  assumes "io_flush socket s = (r, s')"
  shows "io_send s' = io_send s" "io_serialized s' = io_serialized s" "io_status s' = io_status s"
    "io_receive s' = io_receive s"
  using assms by (auto simp: io_flush_def Let_def split: poll.splits sum.splits)

lemma advance_0: "list_all (\<lambda>(d, _). d \<noteq> []) fs \<Longrightarrow> advance 0 fs = fs \<and> completed 0 fs = []"
  by (cases fs) auto

text \<open>
  What a round of writing achieves: \<^term>\<open>n\<close> bytes of the backlog are taken, the frames that they complete are
  resolved, and when nothing was taken the round failed or the socket is not writable.
\<close>

definition written ::
  "(amqp_frame \<Rightarrow> byte list) \<Rightarrow> backlog \<Rightarrow> nat \<Rightarrow> io_loop \<times> 'a rpc_state_scheme
    \<Rightarrow> (error + unit) \<times> io_loop \<times> 'a rpc_state_scheme \<Rightarrow> bool" where
  "written enc all n x y \<longleftrightarrow> (case (x, y) of ((s, w), (r, s', w')) \<Rightarrow>
    backlog s' (advance n all) \<and> promises w' = promises (fold sending_resolve (completed n all) w)
    \<and> outstanding enc s' w' + n = outstanding enc s w \<and> frames_fit enc s' w'
    \<and> (n > 0 \<or> r \<noteq> Inr () \<or> \<not> ss_writable (io_socket s')) \<and> (\<forall>e. r = Inl e \<longrightarrow> lasting e))"

lemma serialize_round:
  assumes "generates enc gen_frame" "\<And>f. enc f \<noteq> []" "backlog s fs" "frames_fit enc s w"
  obtains k s2 w2 where "io_serialize gen_frame s w = Some (Inr (), s2, w2)"
    "backlog s2 (fs @ map (backlog_entry enc) (fst (drain k w)))" "promises w2 = promises w"
    "outstanding enc s2 w2 = outstanding enc s w" "frames_fit enc s2 w2"
proof -
  obtain k s2 w2 xs w3 where ser: "io_serialize gen_frame s w = Some (Inr (), s2, w2)" "drain k w = (xs, w3)"
    and b2: "backlog s2 (fs @ map (backlog_entry enc) xs)" and fit: "frames_fit enc s2 w2"
    and w2: "w2 = w3 \<or> (\<exists>x w4. pop (channels_flow w3) w3 = (Some x, w4) \<and> w2 = retry x w4)"
    using serialize_drains[OF assms] by blast
  have "promises w2 = promises w"
    using w2 promises_drain[of k w] ser(2) promises_frames(1)[of "channels_flow w3" w3]
    by (metis promises_frames(2) snd_conv)
  moreover have "pending_bytes enc w2 = pending_bytes enc w3" using w2 pending_bytes_pop by fastforce
  then have "outstanding enc s2 w2 = outstanding enc s w"
    using backlog_bytes[OF assms(3)] backlog_bytes[OF b2] pending_bytes_drain[OF ser(2), of enc]
    by (simp add: outstanding_def)
  ultimately show thesis using that[of s2 w2 k] ser b2 fit by simp
qed

lemma write_some:
  assumes "honest_writer socket" "backlog s all" "n > 0"
    and "poll_write_to (sp_write (socket k)) (sp_write_vectored (socket k)) (io_send s) = Ready (Inr n)"
  obtains m b xs r s' where "consume n (io_send s) = Some (m, b)"
    "account (of_nat n) (io_serialized s) w = (xs, fold sending_resolve (completed n all) w)"
    "io_flush socket (s\<lparr>io_send := b, io_serialized := xs\<rparr>) = (r, s')" "backlog s' (advance n all)"
    "available_data (io_send s') + n = available_data (io_send s)" "capacity (io_send s') = capacity (io_send s)"
    "\<forall>e. r = Inl e \<longrightarrow> lasting e"
proof -
  have v: "valid_buffer (io_send s)" using assms(2) by (simp add: backlog_def)
  have le: "n \<le> available_data (io_send s)" by (rule poll_write_bound[OF assms(1) v assms(4)])
  obtain m b where c: "consume n (io_send s) = Some (m, b)" "capacity b = capacity (io_send s)"
    using consume_contents[OF v, of n] by blast
  have acc: "account (of_nat n) (io_serialized s) w = (sizes (advance n all), fold sending_resolve (completed n all) w)"
    unfolding backlog_small(3)[OF assms(2)] using assms(2) backlog_small[OF assms(2)] le length_contents[of "io_send s"]
    by (intro account_backlog) (auto simp: backlog_def)
  obtain r s' where fl: "io_flush socket (s\<lparr>io_send := b, io_serialized := sizes (advance n all)\<rparr>) = (r, s')" by fastforce
  have b': "backlog s' (advance n all)"
    using backlog_written[OF assms(2) le c(1)] backlog_cong[OF io_flush_keeps(1,2)[OF fl]] by simp
  then have "available_data (io_send s') + n = available_data (io_send s)"
    using backlog_bytes[OF b'] backlog_bytes[OF assms(2)] le unfolding concat_advance by simp
  moreover have "capacity (io_send s') = capacity (io_send s)" using io_flush_keeps(1)[OF fl] c(2) by simp
  moreover have "\<forall>e. r = Inl e \<longrightarrow> lasting e" using io_flush_lasting[OF assms(1)] fl by blast
  ultimately show thesis using that c(1) acc fl b' by blast
qed

lemma write_round:
  assumes "generates enc gen_frame" "\<And>f. enc f \<noteq> []" "honest_writer socket" "backlog s fs" "frames_fit enc s w"
  shows "\<exists>x k n. write_to_stream now socket gen_frame s w = Some x
    \<and> written enc (fs @ map (backlog_entry enc) (fst (drain k w))) n (s, w) x"
proof -
  obtain r1 s1 where flush: "io_flush socket s = (r1, s1)" by fastforce
  have b1: "backlog s1 fs" using assms(4) backlog_cong io_flush_keeps(1,2)[OF flush] by blast
  have out: "outstanding enc s1 w = outstanding enc s w" "frames_fit enc s1 w"
    using io_flush_keeps(1)[OF flush] assms(5) by (simp_all add: outstanding_def frames_fit_def)
  show ?thesis
  proof (cases r1)
    case (Inl e)
    have "advance 0 fs = fs \<and> completed 0 fs = []" using b1 advance_0 by (simp add: backlog_def)
    then have "written enc (fs @ map (backlog_entry enc) (fst (drain 0 w))) 0 (s, w) (Inl e, s1, w)"
      using b1 out io_flush_lasting[OF assms(3)] flush Inl by (simp add: written_def)
    moreover have "write_to_stream now socket gen_frame s w = Some (Inl e, s1, w)" using flush Inl by (simp add: write_to_stream_def)
    ultimately show ?thesis by blast
  next
    case (Inr u)
    obtain k s2 w2 where ser: "io_serialize gen_frame s1 w = Some (Inr (), s2, w2)"
      "backlog s2 (fs @ map (backlog_entry enc) (fst (drain k w)))" "promises w2 = promises w"
      "outstanding enc s2 w2 = outstanding enc s w" "frames_fit enc s2 w2"
      using serialize_round[OF assms(1,2) b1 out(2), of thesis] out(1) by metis
    define all where "all = fs @ map (backlog_entry enc) (fst (drain k w))"
    define s3 where "s3 = s2\<lparr>io_polls := Suc (io_polls s2)\<rparr>"
    define p where "p = poll_write_to (sp_write (socket (io_polls s2))) (sp_write_vectored (socket (io_polls s2))) (io_send s2)"
    note unfold = write_to_stream_def flush Inr ser(1) p_def[symmetric] Let_def
    have b3: "backlog s3 all" using ser(2) by (simp add: backlog_def all_def s3_def)
    then have stay: "advance 0 all = all \<and> completed 0 all = []" using advance_0 by (simp add: backlog_def)
    show ?thesis
    proof (cases "\<exists>n>0. p = Ready (Inr n)")
      case False
      then consider "p = Pending" | e where "p = Ready (Inl e)" | "p = Ready (Inr 0)"
        by (metis gr0I poll.exhaust sum.exhaust)
      then have "\<exists>x. write_to_stream now socket gen_frame s w = Some x \<and> written enc all 0 (s, w) x"
        using poll_write_lasting[OF assms(3), of "io_polls s2" "io_send s2"] b3 stay ser(3-5)
        by cases (simp_all add: unfold handle_write_poll_def written_def s3_def backlog_def outstanding_def frames_fit_def)
      then show ?thesis unfolding all_def by blast
    next
      case True
      then obtain n where n: "p = Ready (Inr n)" "n > 0" by blast
      have poll: "poll_write_to (sp_write (socket (io_polls s2))) (sp_write_vectored (socket (io_polls s2))) (io_send s3) = Ready (Inr n)"
        using n(1) by (simp add: p_def s3_def)
      let ?w = "w2\<lparr>rpc_heartbeat := hb_update_last_write now (rpc_heartbeat w2)\<rparr>"
      obtain m b xs r s' where st: "consume n (io_send s3) = Some (m, b)"
        "account (of_nat n) (io_serialized s3) ?w = (xs, fold sending_resolve (completed n all) ?w)"
        "io_flush socket (s3\<lparr>io_send := b, io_serialized := xs\<rparr>) = (r, s')" "backlog s' (advance n all)"
        "available_data (io_send s') + n = available_data (io_send s3)" "capacity (io_send s') = capacity (io_send s3)"
        "\<forall>e. r = Inl e \<longrightarrow> lasting e"
        using write_some[OF assms(3) b3 n(2) poll] by blast
      have "written enc all n (s, w) (r, s', fold sending_resolve (completed n all) ?w)"
        using st(4-7) n(2) ser(3,4) promises_resolve_cong[of ?w w] frames_fit_cong[OF ser(5), of s' "fold sending_resolve (completed n all) ?w"]
        by (simp add: written_def outstanding_def s3_def)
      moreover have "write_to_stream now socket gen_frame s w = Some (r, s', fold sending_resolve (completed n all) ?w)"
        using n st(1-3) by (simp add: unfold s3_def)
      ultimately show ?thesis unfolding all_def by blast
    qed
  qed
qed

text \<open>
  The buffer holds exactly the bytes of the serialised frames that are not written yet, unless the thread
  is about to stop.
\<close>

definition sound :: "io_loop \<Rightarrow> bool" where
  "sound s \<longleftrightarrow> valid_buffer (io_send s) \<and> capacity (io_send s) < 2 ^ 32 \<and> (io_status s = IoStop \<or> (\<exists>fs. backlog s fs))"

lemma sound_backlog: "backlog s fs \<Longrightarrow> sound s"
  by (auto simp: sound_def backlog_def)

lemma sound_cong:
  "sound s \<Longrightarrow> io_send s' = io_send s \<Longrightarrow> io_serialized s' = io_serialized s
    \<Longrightarrow> io_status s' = io_status s \<or> io_status s' = IoStop \<Longrightarrow> sound s'"
  by (auto simp: sound_def backlog_def)

lemma sound_critical:
  assumes "sound s" "critical_error e s w = (r, s', w')"
  shows "sound s'"
  using assms sound_cong
  by (auto simp: critical_error_def clear_serialized_frames_def io_stop_def sound_def Let_def split: if_splits prod.splits)

lemma sound_handle_result:
  assumes "sound s" "io_handle_result r s w = (r', s', w')"
  shows "sound s'"
proof -
  have "sound (s\<lparr>io_socket := k\<rparr>)" for k by (rule sound_cong[OF assms(1)]) simp_all
  then show ?thesis
    using assms(2) by (auto simp: io_handle_result_def split: prod.splits sum.splits intro: sound_critical)
qed

text \<open>The loop of the writes ends, since each round writes something or finds that the socket is not writable.\<close>

lemma critical_error_result: "\<exists>s' w'. critical_error e s w = (Inl e, s', w')"
  by (simp add: critical_error_def Let_def split: prod.split)

lemma io_write_rounds:
  assumes "generates enc gen_frame" "\<And>f. enc f \<noteq> []" "honest_writer socket" "backlog s fs" "frames_fit enc s w"
  shows "\<exists>r s' w'. io_write now socket gen_frame s w = Some (r, s', w')
    \<and> (r = Inr () \<longrightarrow> \<not> can_write s' w' \<and> (\<exists>fs'. backlog s' fs')) \<and> sound s'"
  using assms(4,5)
proof (induction "outstanding enc s w" arbitrary: s w fs rule: less_induct)
  case less
  obtain r s1 w1 n fs1 where round: "write_to_stream now socket gen_frame s w = Some (r, s1, w1)" "backlog s1 fs1"
    "outstanding enc s1 w1 + n = outstanding enc s w" "n > 0 \<or> r \<noteq> Inr () \<or> \<not> ss_writable (io_socket s1)"
    "\<And>e. r = Inl e \<Longrightarrow> lasting e" "frames_fit enc s1 w1"
    using write_round[OF assms(1-3) less.prems, of now] by (fastforce simp: written_def)
  note unfold = io_write.simps[of now socket gen_frame s w]
  show ?case
  proof (cases r)
    case (Inl e)
    then obtain s2 w2 where "io_handle_result r s1 w1 = (Inl e, s2, w2)"
      using round(5) critical_error_result by (fastforce simp: io_handle_result_def handle_io_result_def lasting_def)
    then show ?thesis using less.prems sound_handle_result[OF sound_backlog[OF round(2)]]
      by (auto simp: unfold round(1) intro: sound_backlog)
  next
    case (Inr u)
    then have handled: "io_handle_result r s1 w1 = (Inr (), s1, w1)"
      by (simp add: io_handle_result_def handle_io_result_def)
    show ?thesis
    proof (cases "n > 0")
      case True
      then show ?thesis using less.hyps[of s1 w1 fs1] round(2,3,6) less.prems
        by (auto simp: unfold round(1) handled intro: sound_backlog)
    next
      case False
      then have "\<not> can_write s1 w1" using round(4) Inr by (simp add: can_write_def)
      then have "io_write now socket gen_frame s1 w1 = Some (Inr (), s1, w1)" by (simp add: io_write.simps)
      then show ?thesis using less.prems round(2) \<open>\<not> can_write s1 w1\<close>
        by (auto simp: unfold round(1) handled intro: sound_backlog)
    qed
  qed
qed


text \<open>The environment of the examples: a socket that takes one byte at a time, and a generator that stops early.\<close>

definition slow_socket :: socket where
  "slow_socket k = \<lparr>sp_flush = Ready (Inr ()), sp_write = (\<lambda>d. Ready (Inr (min 1 (length d)))),
     sp_write_vectored = (\<lambda>ds. Ready (Inr (min 1 (length (concat ds))))),
     sp_read = (\<lambda>_. Pending), sp_read_vectored = (\<lambda>_. Pending)\<rparr>"

definition whole_or_nothing :: "(amqp_frame \<Rightarrow> byte list) \<Rightarrow> generator" where
  "whole_or_nothing enc f b =
    (if length (enc f) \<le> available_space b then map_option (\<lambda>(n, b1). (b1, Inr n)) (buffer_write (enc f) b)
     else map_option (\<lambda>(_, b1). (b1, Inl (BufferTooSmall 0))) (buffer_write [] b))"

definition example_loop :: io_loop where
  "example_loop = io_loop_new [] (negotiated_config_new None None None)"

definition busy_client :: rpc_state where
  "busy_client = example_client\<lparr>frames_queue := [frame_entry_of (Heartbeat, None), frame_entry_of (Heartbeat, None)]\<rparr>"

lemma honest_slow_socket: "honest_writer slow_socket"
  by (simp add: honest_writer_def slow_socket_def)

lemma generates_whole_or_nothing:
  assumes "\<And>f. enc f \<noteq> []"
  shows "generates enc (whole_or_nothing enc)"
  using assms by (auto simp: generates_def whole_or_nothing_def strict_prefix_def intro!: exI[of _ "[]"] exI[of _ 0])

lemma example_loop_capacity: "capacity (io_send example_loop) = 131072" "valid_buffer (io_send example_loop)"
  "contents (io_send example_loop) = []" "io_serialized example_loop = []"
  using valid_with_capacity[of 131072]
  by (simp_all add: example_loop_def io_loop_new_def frames_storage_def negotiated_config_new_def
      with_capacity_def Let_def)

lemma backlog_example_loop: "backlog example_loop []"
  by (simp add: backlog_def example_loop_capacity)

lemma frames_fit_example: "frames_fit (\<lambda>_. [8, 0]) example_loop busy_client"
proof -
  have "queued example_client = {}"
    by (simp add: queued_def example_client_def)
  then show ?thesis by (auto simp: frames_fit_def example_loop_capacity busy_client_def queued_def)
qed


text \<open>
  C9: the loop of the writes always returns; unless it failed, it ends because the socket is not writable,
  the server has blocked the connection, or nothing is left to write, and the backlog still accounts
  for every byte of the buffer.
\<close>

theorem write_loop_ends:
  assumes "generates enc gen_frame" "\<And>f. enc f \<noteq> []" "honest_writer socket" "backlog s fs" "frames_fit enc s w"
  shows "\<exists>r s' w'. io_write now socket gen_frame s w = Some (r, s', w')
    \<and> (r = Inr () \<longrightarrow> (\<exists>fs'. backlog s' fs')
        \<and> (\<not> ss_writable (io_socket s') \<or> cn_blocked (w_conn_status w') \<or> \<not> has_data s' w'))"
  using io_write_rounds[OF assms, of now] by (auto simp: can_write_def)

theorem write_loop_ends_witness:
  "\<exists>r s' w'. io_write 0 slow_socket (whole_or_nothing (\<lambda>_. [8, 0])) example_loop busy_client = Some (r, s', w')
    \<and> (r = Inr () \<longrightarrow> (\<exists>fs'. backlog s' fs')
        \<and> (\<not> ss_writable (io_socket s') \<or> cn_blocked (w_conn_status w') \<or> \<not> has_data s' w'))"
  using write_loop_ends[OF generates_whole_or_nothing[of "\<lambda>_. [8, 0]"] _ honest_slow_socket
      backlog_example_loop frames_fit_example, of 0]
  by simp

section \<open>The received bytes are cut into frames\<close>

text \<open>
  What the loop relies on for the frames \<^term>\<open>F\<close> that the server sends: the parser recognises the encoding of
  a frame at the front of its input, whatever follows, and asks for more when it has only part of one.
\<close>

definition parses :: "(amqp_frame \<Rightarrow> byte list) \<Rightarrow> amqp_frame set \<Rightarrow> parser \<Rightarrow> bool" where
  "parses enc F parse_frame \<longleftrightarrow> (\<forall>f\<in>F. enc f \<noteq> [] \<and> (\<forall>pc.
    (\<forall>rest pc'. pc_iter pc = enc f @ rest \<and> pc_take_from (length (enc f)) pc = Some pc' \<longrightarrow> parse_frame pc = Parsed pc' f)
    \<and> (strict_prefix (pc_iter pc) (enc f) \<longrightarrow> parse_frame pc = Incomplete)))"

lemma parsesD:
  assumes "parses enc F parse_frame" "f \<in> F"
  shows "enc f \<noteq> []"
    "pc_iter pc = enc f @ rest \<Longrightarrow> pc_take_from (length (enc f)) pc = Some pc' \<Longrightarrow> parse_frame pc = Parsed pc' f"
    "strict_prefix (pc_iter pc) (enc f) \<Longrightarrow> parse_frame pc = Incomplete"
  using assms unfolding parses_def by blast+

text \<open>The reference: the frames are handled one after the other until one fails.\<close>

fun handle_all ::
  "(reply_code \<Rightarrow> amqp_error_kind option) \<Rightarrow> amqp_frame list \<Rightarrow> 'a channels_state_scheme
    \<Rightarrow> (error + unit) \<times> 'a channels_state_scheme" where
  "handle_all error_kind_of [] w = (Inr (), w)"
| "handle_all error_kind_of (f # fs) w =
    (case handle_frame error_kind_of f w of
       (Inl e, w1) \<Rightarrow> (Inl e, rpc_send (CmdSetConnectionError e) w1)
     | (Inr _, w1) \<Rightarrow> handle_all error_kind_of fs w1)"

text \<open>Each frame respects the limit that is in force when it is parsed.\<close>

definition within_limit :: "nat \<Rightarrow> 'a world_scheme \<Rightarrow> bool" where
  "within_limit n w \<longleftrightarrow> nc_frame_max (w_negotiated w) = 0 \<or> n \<le> unat (nc_frame_max (w_negotiated w))"

fun all_within_limit ::
  "(reply_code \<Rightarrow> amqp_error_kind option) \<Rightarrow> (amqp_frame \<Rightarrow> byte list) \<Rightarrow> amqp_frame list \<Rightarrow> 'a channels_state_scheme
    \<Rightarrow> bool" where
  "all_within_limit error_kind_of enc [] w = True"
| "all_within_limit error_kind_of enc (f # fs) w =
    (within_limit (length (enc f)) w
     \<and> (case handle_frame error_kind_of f w of (Inl _, _) \<Rightarrow> True | (Inr _, w1) \<Rightarrow> all_within_limit error_kind_of enc fs w1))"

lemma parse_front:
  assumes "parses enc F parse_frame" "f \<in> F" "valid_buffer (io_receive s)"
    and "contents (io_receive s) = enc f @ rest" "within_limit (length (enc f)) w"
  shows "\<exists>b. io_parse parse_frame base s w = Some (Inr (Some f), s\<lparr>io_receive := b\<rparr>, w)
    \<and> valid_buffer b \<and> contents b = rest"
proof -
  let ?n = "length (enc f)"
  have "0 < ?n" "?n \<le> available_data (io_receive s)"
    using parsesD(1)[OF assms(1,2)] length_contents[of "io_receive s"] assms(4) by auto
  from offset_taken[OF assms(3) this, of base] obtain pc b where
    pc: "pc_take_from ?n (parsing_context_of base (io_receive s)) = Some pc" "offset base pc (io_receive s) = ?n"
      "consume ?n (io_receive s) = Some (?n, b)" "valid_buffer b" "contents b = drop ?n (contents (io_receive s))"
    by blast
  have "parse_frame (parsing_context_of base (io_receive s)) = Parsed pc f"
    using parsesD(2)[OF assms(1,2) _ pc(1)] iter_parsing_context[OF assms(3)] assms(4) by simp
  moreover have "(0 < unat (nc_frame_max (w_negotiated w)) \<and> unat (nc_frame_max (w_negotiated w)) < ?n) = False"
    using assms(5) by (auto simp: within_limit_def)
  ultimately have "io_parse parse_frame base s w = Some (Inr (Some f), s\<lparr>io_receive := b\<rparr>, w)"
    unfolding io_parse_def by (simp only: parsed.case pc(2,3) Let_def prod.case if_False sum.case unit.case option.map)
  then show ?thesis using pc(4,5) assms(4) by (intro exI[of _ b]) simp
qed

lemma handle_frames_all:
  assumes "parses enc F parse_frame" "valid_buffer (io_receive s)"
    and "contents (io_receive s) = concat (map enc fs) @ rest" "set fs \<subseteq> F"
    and "rest = [] \<or> (\<exists>f\<in>F. strict_prefix rest (enc f))"
    and "all_within_limit error_kind_of enc fs w" "handle_all error_kind_of fs w = (r, w')"
  shows "\<exists>b. handle_frames error_kind_of parse_frame base did_something s w
      = Some (map_sum id (\<lambda>_. did_something \<or> fs \<noteq> []) r, s\<lparr>io_receive := b\<rparr>, w')
    \<and> valid_buffer b \<and> (r = Inr () \<longrightarrow> contents b = rest)"
  using assms(2-4,6,7)
proof (induction fs arbitrary: did_something s w)
  case Nil
  show ?case
  proof (cases "rest = []")
    case True
    then show ?thesis using Nil length_contents[of "io_receive s"]
      by (intro exI[of _ "io_receive s"]) (auto simp: handle_frames.simps can_parse_def)
  next
    case False
    then obtain f where f: "f \<in> F" "strict_prefix rest (enc f)" using assms(5) by blast
    have "parse_frame (parsing_context_of base (io_receive s)) = Incomplete"
      using parsesD(3)[OF assms(1) f(1)] iter_parsing_context[OF Nil(1)] Nil(2) f(2) by simp
    then show ?thesis using Nil by (intro exI[of _ "io_receive s"]) (auto simp: handle_frames.simps io_parse_def)
  qed
next
  case (Cons f fs)
  then have "within_limit (length (enc f)) w" "f \<in> F" "contents (io_receive s) = enc f @ concat (map enc fs) @ rest"
    by simp_all
  from parse_front[OF assms(1) this(2) Cons.prems(1) this(3,1), of base] obtain b where
    b: "io_parse parse_frame base s w = Some (Inr (Some f), s\<lparr>io_receive := b\<rparr>, w)" "valid_buffer b"
      "contents b = concat (map enc fs) @ rest" by blast
  have "can_parse s"
    using Cons.prems(2) parsesD(1)[OF assms(1) \<open>f \<in> F\<close>] length_contents[of "io_receive s"]
    by (cases "enc f") (auto simp: can_parse_def)
  note unfold = handle_frames.simps[of error_kind_of parse_frame base did_something s w]
  obtain x w1 where h: "handle_frame error_kind_of f w = (x, w1)" by fastforce
  show ?case
  proof (cases x)
    case (Inl e)
    then show ?thesis using Cons.prems(5) b \<open>can_parse s\<close> h by (intro exI[of _ b]) (auto simp: unfold)
  next
    case (Inr u)
    have "handle_frames error_kind_of parse_frame base did_something s w
        = handle_frames error_kind_of parse_frame base True (s\<lparr>io_receive := b\<rparr>) w1"
      using \<open>can_parse s\<close> b(1) Inr h by (simp add: unfold)
    then show ?thesis using Cons.IH[of "s\<lparr>io_receive := b\<rparr>" w1 True] Cons.prems b(2,3) Inr h by simp
  qed
qed

text \<open>
  C3: the received bytes are handled as the frames they encode, in their order and each once, wherever the
  reads have cut them; the part of a frame that is not complete stays in the buffer, and the first
  frame that fails ends the turn and is reported as an error of the connection.
\<close>

theorem received_frames_handled_in_order:
  assumes "parses enc F parse_frame" "valid_buffer (io_receive s)"
    and "contents (io_receive s) = concat (map enc fs) @ rest" "set fs \<subseteq> F"
    and "rest = [] \<or> (\<exists>f\<in>F. strict_prefix rest (enc f))"
    and "all_within_limit error_kind_of enc fs w" "handle_all error_kind_of fs w = (r, w')"
  shows "\<exists>b. handle_frames error_kind_of parse_frame base did_something s w
      = Some (map_sum id (\<lambda>_. did_something \<or> fs \<noteq> []) r, s\<lparr>io_receive := b\<rparr>, w')
    \<and> valid_buffer b \<and> (r = Inr () \<longrightarrow> contents b = rest)"
  by (rule handle_frames_all[OF assms])

definition heartbeat_parser :: parser where
  "heartbeat_parser pc =
    (if pc_iter pc = [] \<or> pc_iter pc = [8] then Incomplete
     else (case pc_take_from 2 pc of
             Some pc' \<Rightarrow> if take 2 (pc_iter pc) = [8, 0] then Parsed pc' Heartbeat else Unparsable (ParserError 0)
           | None \<Rightarrow> Unparsable (ParserError 0)))"

lemma parses_heartbeats: "parses (\<lambda>_. [8, 0]) {Heartbeat} heartbeat_parser"
proof -
  have "xs = [] \<or> xs = [8]" if "strict_prefix xs [8, 0]" for xs :: "byte list"
    using that by (cases xs; cases "tl xs") (auto simp: strict_prefix_def)
  then show ?thesis by (auto simp: parses_def heartbeat_parser_def numeral_2_eq_2)
qed

theorem received_frames_handled_in_order_witness:
  "\<exists>b. handle_frames (\<lambda>_. None) heartbeat_parser 0 False
      (example_loop\<lparr>io_receive := store [8, 0, 8, 0, 8] (with_capacity 16)\<rparr>) example_client
    = Some (Inr True, example_loop\<lparr>io_receive := b\<rparr>, example_client) \<and> valid_buffer b \<and> contents b = [8]"
proof -
  let ?s = "example_loop\<lparr>io_receive := store [8, 0, 8, 0, 8] (with_capacity 16)\<rparr>"
  have v: "valid_buffer (with_capacity 16)" "contents (with_capacity 16) = []" "available_space (with_capacity 16) = 16"
    using valid_with_capacity[of 16] by (simp_all add: available_space_def with_capacity_def)
  have "nc_frame_max (w_negotiated example_client) = 0"
    by (simp add: example_client_def configuration_new_def negotiated_config_new_def)
  then have "\<exists>b. handle_frames (\<lambda>_. None) heartbeat_parser 0 False ?s example_client
      = Some (map_sum id (\<lambda>_. False \<or> [Heartbeat, Heartbeat] \<noteq> []) (Inr ()), ?s\<lparr>io_receive := b\<rparr>, example_client)
    \<and> valid_buffer b \<and> (Inr () = (Inr () :: error + unit) \<longrightarrow> contents b = [8])"
    using v valid_store[of "with_capacity 16" "[8, 0, 8, 0, 8]"] contents_store[of "with_capacity 16" "[8, 0, 8, 0, 8]"]
    by (intro received_frames_handled_in_order[OF parses_heartbeats, where fs = "[Heartbeat, Heartbeat]" and rest = "[8]"])
       (simp_all add: handle_frame_def within_limit_def strict_prefix_def)
  then show ?thesis by simp
qed

end
