(* ===== verification/Client.thy ===== *)
theory Client
  imports Io_Wire
begin

text \<open>
  The whole client: what \<^verbatim>\<open>connector\<close> of \<^verbatim>\<open>src/connection.rs\<close> starts, and the steps of its parts in any order.  The
  invariant is the one that the accounting of \<^verbatim>\<open>src/io_loop.rs\<close> relies on.
\<close>

section \<open>The session of the thread\<close>

lemma grow_keeps:
  assumes "valid_buffer b" "grow n b = Some (x, b')"
  shows "valid_buffer b'" "contents b' = contents b" "capacity b' = max n (capacity b)"
proof -
  have "valid_buffer b' \<and> contents b' = contents b \<and> capacity b' = max n (capacity b)"
  proof (cases "capacity b < n")
    case False
    then show ?thesis using assms by (auto simp: grow_def)
  next
    case True
    from assms(1) show ?thesis
    proof (cases rule: valid_end_cases)
      case straight
      then show ?thesis using grow_straight[OF assms(1) True] assms(2) True by auto
    next
      case wrapped
      then have "n - capacity b \<le> buf_end b"
        using assms True by (auto simp: grow_def valid_buffer_def Let_def not_le split: if_splits)
      then show ?thesis using grow_wrapped[OF assms(1) True] wrapped assms(2) True by auto
    qed
  qed
  then show "valid_buffer b'" "contents b' = contents b" "capacity b' = max n (capacity b)" by simp_all
qed

text \<open>The limit on frames for which the sizes in the accounting do not overflow.\<close>

definition frame_limit :: "io_loop \<Rightarrow> 'a world_scheme \<Rightarrow> bool" where
  "frame_limit s w \<longleftrightarrow> frames_storage * max (unat (io_frame_size s)) (unat (nc_frame_max (w_negotiated w))) < 2 ^ 32"

lemma backlog_finish_setup:
  assumes "backlog s fs" "frame_limit s w" "finish_setup throttles s w = Some (s', w')"
  shows "backlog s' fs" "capacity (io_send s) \<le> capacity (io_send s')" "queued w' = queued w"
proof -
  have v: "valid_buffer (io_send s)" using assms(1) by (simp add: backlog_def)
  have "backlog s' fs \<and> capacity (io_send s) \<le> capacity (io_send s') \<and> queued w' = queued w"
  proof (cases "cn_connected (w_conn_status w)")
    case True
    define n where "n = frames_storage * unat (max (io_frame_size s) (nc_frame_max (w_negotiated w)))"
    have "n < 2 ^ 32" using assms(2) by (simp add: n_def frame_limit_def max_def word_le_nat_alt split: if_splits)
    moreover obtain x b where "grow n (io_send s) = Some (x, b)" "io_send s' = b" "io_serialized s' = io_serialized s"
      "queued w' = queued w"
      using assms(3) True by (auto simp: finish_setup_def Let_def n_def[symmetric] queued_def rpc_send_def wake_def
          bind_eq_Some_conv)
    ultimately show ?thesis using grow_keeps[OF v, of n x b] assms(1) by (auto simp: backlog_def)
  next
    case False
    then show ?thesis using assms by (simp add: finish_setup_def)
  qed
  then show "backlog s' fs" "capacity (io_send s) \<le> capacity (io_send s')" "queued w' = queued w" by simp_all
qed

lemma sound_updates [simp]:
  "sound (s\<lparr>io_receive := b\<rparr>) = sound s" "sound (s\<lparr>io_polls := n\<rparr>) = sound s"
  "sound (s\<lparr>io_half_closed := h\<rparr>) = sound s" "sound (s\<lparr>io_socket := k\<rparr>) = sound s"
  by (simp_all add: sound_def backlog_def)

lemma sound_parse:
  assumes "sound s" "io_parse parse_frame base s w = Some (r, s', w')"
  shows "sound s'"
  using assms
  by (auto simp: io_parse_def Let_def split: parsed.splits prod.splits sum.splits if_splits unit.splits
      intro: sound_critical)

lemma sound_handle_frames:
  assumes "handle_frames error_kind_of parse_frame base did_something s w = Some x" "sound s"
  shows "sound (fst (snd x))"
proof -
  have "sound s \<longrightarrow> sound (fst (snd x))"
  proof (rule handle_frames.raw_induct[OF _ assms(1), where P = "\<lambda>_ _ _ _ s _ x. sound s \<longrightarrow> sound (fst (snd x))"],
      goal_cases)
    case (1 f ek pf base d s w x)
    show ?case
    proof (cases "can_parse s \<and> sound s")
      case True
      then obtain r s1 w1 where p: "io_parse pf base s w = Some (r, s1, w1)" using 1(2) by (auto simp: bind_eq_Some_conv)
      have "sound s1" using sound_parse[OF _ p] True by simp
      then show ?thesis
        using 1 p True by (cases r; cases "projr r"; cases "fst (handle_frame ek (the (projr r)) w1)") (auto split: prod.splits)
    qed (use 1 in auto)
  qed
  then show ?thesis using assms(2) by simp
qed

lemma sound_half_closed: "sound s \<Longrightarrow> sound (fst (snd (handle_half_closed_connection s w)))"
  by (auto simp: handle_half_closed_connection_def split: sum.split prod.split)

lemma sound_read_from_stream:
  assumes "sound s" "read_from_stream error_kind_of now socket parse_frame base s w = Some x"
  shows "sound (fst (snd x))"
proof -
  define p where "p = socket (io_polls s)"
  obtain q b where q: "poll_read_from (sp_read p) (sp_read_vectored p) (io_receive s) = (q, b)" by fastforce
  define s1 where "s1 = s\<lparr>io_polls := Suc (io_polls s), io_receive := b\<rparr>"
  have s1: "sound s1" "\<And>x. handle_frames error_kind_of parse_frame base False (s1\<lparr>io_half_closed := True\<rparr>) w = Some x
      \<Longrightarrow> sound (fst (snd x))"
    using assms(1) sound_handle_frames[of error_kind_of parse_frame base False "s1\<lparr>io_half_closed := True\<rparr>" w]
    by (simp_all add: s1_def)
  have halves: "sound (fst (snd (handle_half_closed_connection y v)))" if "sound y" for y and v :: "'a rpc_state_scheme"
    using that by (rule sound_half_closed)
  show ?thesis
  proof (cases "cn_state (w_conn_status w) = CsClosed \<or> cn_state (w_conn_status w) = CsError")
    case True
    then show ?thesis using assms by (auto simp: read_from_stream_def)
  next
    case False
    note unfold = read_from_stream_def p_def[symmetric] q s1_def[symmetric]
    show ?thesis
      using assms(2) s1 halves False
      by (cases "cn_state (w_conn_status w)"; cases q)
         (auto simp: unfold map_option_case split: option.splits sum.splits if_splits prod.splits)
  qed
qed

lemma sound_io_read:
  assumes "io_read error_kind_of now socket parse_frame base s w = Some x" "sound s"
  shows "sound (fst (snd x))"
proof -
  have "sound s \<longrightarrow> sound (fst (snd x))"
  proof (rule io_read.raw_induct[OF _ assms(1), where P = "\<lambda>_ _ _ _ _ s _ x. sound s \<longrightarrow> sound (fst (snd x))"],
      goal_cases)
    case (1 f ek now socket pf base s w x)
    show ?case
    proof (cases "can_read s \<and> sound s")
      case True
      then obtain r s1 w1 where p: "read_from_stream ek now socket pf base s w = Some (r, s1, w1)"
        using 1(2) by (auto simp: bind_eq_Some_conv)
      obtain r2 s2 w2 where h: "io_handle_result (map_sum id (\<lambda>_. ()) r) s1 w1 = (r2, s2, w2)" by (metis prod_cases3)
      have "sound s1" using sound_read_from_stream[OF _ p] True by simp
      then have "sound s2" by (rule sound_handle_result[OF _ h])
      then show ?thesis using 1 p True h by (cases x; cases r2) (auto split: if_splits)
    qed (use 1 in auto)
  qed
  then show ?thesis using assms(2) by simp
qed

section \<open>One turn of the thread\<close>

text \<open>What holds before a write.\<close>

definition ready :: "(amqp_frame \<Rightarrow> byte list) \<Rightarrow> io_loop \<Rightarrow> 'a frames_state_scheme \<Rightarrow> bool" where
  "ready enc s w \<longleftrightarrow> (\<exists>fs. backlog s fs) \<and> frames_fit enc s w"

lemma ready_sound: "ready enc s w \<Longrightarrow> sound s"
  by (auto simp: ready_def intro: sound_backlog)

lemma ready_updates [simp]:
  "ready enc (s\<lparr>io_socket := k\<rparr>) w = ready enc s w" "ready enc (s\<lparr>io_status := st\<rparr>) w = ready enc s w"
  "ready enc (s\<lparr>io_polls := n\<rparr>) w = ready enc s w" "ready enc s (w\<lparr>socket_events := es\<rparr>) = ready enc s w"
  "ready enc s (wake w) = ready enc s w"
  by (simp_all add: ready_def backlog_def frames_fit_def queued_def wake_def)

lemma ready_check [simp]: "ready enc (check_connection_state s v) w = ready enc s w"
  by (simp add: check_connection_state_def io_stop_def)

lemma ready_poll:
  assumes "poll_socket_events s w = (s', w')"
  shows "ready enc s' w' = ready enc s w" "io_status s' = io_status s" "frame_limit s' w' = frame_limit s w"
  using assms by (auto simp: poll_socket_events_def poll_events_def frame_limit_def)

lemma ready_setup:
  assumes "ready enc s w" "frame_limit s w" "ensure_setup throttles s w = Some (p, s', w')"
  shows "ready enc s' w'"
proof -
  obtain fs where fs: "backlog s fs" "frames_fit enc s w" using assms(1) by (auto simp: ready_def)
  show ?thesis
  proof (cases "io_status s")
    case IoInitial
    then have "finish_setup throttles s w = Some (s', w')" using assms(3) by (auto simp: ensure_setup_def)
    note grown = backlog_finish_setup[OF fs(1) assms(2) this]
    from grown fs(2) have "frames_fit enc s' w'" by (auto simp: frames_fit_def)
    then show ?thesis using grown(1) by (auto simp: ready_def)
  qed (use assms in \<open>auto simp: ensure_setup_def\<close>)
qed

lemma critical_error_fails [simp]: "critical_error e s w \<noteq> (Inr u, s', w')"
  by (auto simp: critical_error_def Let_def split: prod.splits if_splits)

lemma ready_flush:
  assumes "ready enc s w" "attempt_flush socket s w = (r, s', w')"
  shows "sound s'" "r = Inr () \<Longrightarrow> ready enc s' w'"
proof -
  obtain q s1 where q: "io_flush socket s = (q, s1)" by fastforce
  note keep = io_flush_keeps[OF q]
  have r1: "ready enc s1 w" using assms(1) keep by (simp add: ready_def backlog_def frames_fit_def)
  have h: "io_handle_result q s1 w = (r, s', w')" using assms(2) q by (simp add: attempt_flush_def)
  then show "sound s'" using sound_handle_result ready_sound[OF r1] by blast
  show "ready enc s' w'" if "r = Inr ()"
    using h that r1
    by (auto simp: io_handle_result_def handle_io_result_def split: sum.splits if_splits prod.splits)
qed

lemma ready_wait:
  assumes "(if b then map_option (\<lambda>(k, w3). (s\<lparr>io_socket := k\<rparr>, w3)) (socket_wait (io_socket s) w) else Some (s, w)) = Some (s', w')"
    "ready enc s w"
  shows "ready enc s' w'"
  using assms by (auto simp: socket_wait_def split: if_splits list.splits)

lemma sound_check: "sound s \<Longrightarrow> sound (check_connection_state s w)"
  by (auto simp: check_connection_state_def io_stop_def sound_def)

text \<open>The part of a turn after the writes.\<close>

lemma sound_after_write:
  assumes "sound s"
    and "Option.bind (if should_continue s w then io_read ek now socket pf base s w else Some (Inr (), s, w)) (\<lambda>(r9, s9, w9).
      case r9 of
        Inl e \<Rightarrow> Some (Inl e, s9, w9)
      | Inr _ \<Rightarrow>
          map_option (\<lambda>(r, s10, w10).
            (case r of Inl e \<Rightarrow> (Inl e, s10, w10) | Inr _ \<Rightarrow> (Inr (), check_connection_state s10 w10, w10)))
            (handle_frames ek pf base False s9 w9)) = Some x"
  shows "sound (fst (snd x))"
proof -
  obtain r9 s9 w9 where 9: "(if should_continue s w then io_read ek now socket pf base s w else Some (Inr (), s, w)) = Some (r9, s9, w9)"
    using assms(2) by (auto simp: bind_eq_Some_conv)
  have s9: "sound s9" using 9 assms(1) sound_io_read[of ek now socket pf base s w] by (fastforce split: if_splits)
  show ?thesis
  proof (cases r9)
    case (Inl e)
    then show ?thesis using assms(2) 9 s9 by auto
  next
    case (Inr u)
    then obtain r10 s10 w10 where "handle_frames ek pf base False s9 w9 = Some (r10, s10, w10)"
      and x: "x = (case r10 of Inl e \<Rightarrow> (Inl e, s10, w10) | Inr _ \<Rightarrow> (Inr (), check_connection_state s10 w10, w10))"
      using assms(2) 9 by auto
    from sound_handle_frames[OF this(1) s9] have "sound s10" by simp
    then show ?thesis by (auto simp: x sound_check split: sum.split)
  qed
qed

lemma sound_io_run:
  assumes "generates enc (env_gen env)" "\<And>f. enc f \<noteq> []" "honest_writer (env_socket env)"
    and "ready enc s w" "frame_limit s w" "io_run env s w = Some x"
  shows "sound (fst (snd x))"
proof -
  obtain s1 w1 where 1: "poll_socket_events s w = (s1, w1)" by fastforce
  note r1 = ready_poll[OF 1]
  from assms(6) obtain p s2 w2 where 2: "ensure_setup (env_throttles env) s1 w1 = Some (p, s2, w2)"
    by (auto simp: io_run_def 1 bind_eq_Some_conv)
  have r2: "ready enc s2 w2" using ready_setup[OF _ _ 2, of enc] r1 assms(4,5) by simp
  show ?thesis
  proof (cases p)
    case False
    then show ?thesis using assms(6) ready_sound[OF r2] by (auto simp: io_run_def 1 2)
  next
    case True
    define s3 where "s3 = check_connection_state s2 w2"
    obtain s4 w4 where 4: "(if \<not> can_read s3 \<and> \<not> can_write s3 w2 \<and> should_continue s3 w2
        then map_option (\<lambda>(k, w3). (s3\<lparr>io_socket := k\<rparr>, w3)) (socket_wait (io_socket s3) w2) else Some (s3, w2)) = Some (s4, w4)"
      using assms(6) True by (auto simp: io_run_def 1 2 s3_def[symmetric] bind_eq_Some_conv)
    obtain s5 w5 where 5: "poll_socket_events s4 w4 = (s5, w5)" by fastforce
    obtain r6 s6 w6 where 6: "attempt_flush (env_socket env) s5 w5 = (r6, s6, w6)" by (metis prod_cases3)
    have "ready enc s5 w5" using ready_poll(1)[OF 5] ready_wait[OF 4] r2 by (simp add: s3_def)
    note r6 = ready_flush[OF this 6]
    note run = assms(6)[unfolded io_run_def 1 prod.case Let_def 2 Option.bind.simps, folded s3_def]
    show ?thesis
    proof (cases r6)
      case (Inl e)
      then show ?thesis using run r6(1) by (auto simp: True 4 5 6)
    next
      case (Inr u)
      then obtain fs where "backlog s6 fs" "frames_fit enc s6 w6" using r6(2) by (auto simp: ready_def)
      from io_write_rounds[OF assms(1-3) this, of "env_now env"] obtain r7 s7 w7 where
        7: "io_write (env_now env) (env_socket env) (env_gen env) s6 w6 = Some (r7, s7, w7)" "sound s7" by blast
      note after = sound_after_write[OF sound_check[OF 7(2)], of w7 w7 "env_error_kind env" "env_now env" "env_socket env"
          "env_parse env" "env_base env" x]
      show ?thesis using run 7 Inr after by (cases r7) (auto simp: True 4 5 6)
    qed
  qed
qed

section \<open>The thread\<close>

text \<open>Once the thread has ended nothing is written any more.\<close>

fun thread_sound :: "io_phase \<times> io_loop \<times> 'a frames_state_scheme \<Rightarrow> bool" where
  "thread_sound (PhEnded _, s, _) = True"
| "thread_sound (_, s, _) = sound s"

lemma sound_reset:
  "valid_buffer (io_send s) \<Longrightarrow> capacity (io_send s) < 2 ^ 32 \<Longrightarrow> io_serialized s = [] \<Longrightarrow> sound (io_reset s)"
  using valid_reset[of "io_send s"]
  by (auto simp: io_reset_def sound_def backlog_def buffer_reset_def intro!: exI[of _ "[]"])

lemma sound_end_session:
  assumes "sound s"
  shows "thread_sound (end_session res s w)"
proof -
  have "thread_sound (next_attempt r (s\<lparr>io_serialized := []\<rparr>) v)" for r and v :: "'a channels_state_scheme"
    using assms sound_reset[of "s\<lparr>io_serialized := [], io_backoff := bs\<rparr>" for bs]
    by (auto simp: next_attempt_def io_exit_def Let_def sound_def[of s] split: list.split)
  then show ?thesis
    by (auto simp: end_session_def io_exit_def clear_serialized_frames_def Let_def split: prod.split)
qed

lemma thread_sound_step:
  assumes "generates enc (env_gen env)" "\<And>f. enc f \<noteq> []" "honest_writer (env_socket env)"
    and "thread_sound (ph, s, w)" "frames_fit enc s w" "frame_limit s w"
    and "io_thread_step env connected (ph, s, w) = Some x"
  shows "thread_sound x"
proof (cases ph)
  case PhConnect
  then show ?thesis using assms(4,7) by (auto simp: io_thread_step_def split: sum.splits)
next
  case (PhEnded res)
  then show ?thesis using assms(7) by (auto simp: io_thread_step_def)
next
  case (PhLoop res)
  then have s: "sound s" using assms(4) by simp
  show ?thesis
  proof (cases "should_continue s w")
    case False
    then show ?thesis using assms(7) sound_end_session[OF s] PhLoop by (auto simp: io_thread_step_def)
  next
    case True
    then have "io_status s \<noteq> IoStop" by (auto simp: should_continue_def split: if_splits)
    then have "ready enc s w" using s assms(5) by (auto simp: ready_def sound_def)
    then obtain r s1 w1 where run: "io_run env s w = Some (r, s1, w1)" "sound s1"
      using sound_io_run[OF assms(1-3) _ assms(6)] assms(7) True PhLoop by (fastforce simp: io_thread_step_def)
    show ?thesis
    proof (cases r)
      case (Inr u)
      then show ?thesis using assms(7) True PhLoop run by (auto simp: io_thread_step_def)
    next
      case (Inl e)
      obtain r2 s2 w2 where c: "critical_error e s1 w1 = (r2 :: error + unit, s2, w2)" by (metis prod_cases3)
      have "sound s2" by (rule sound_critical[OF run(2) c])
      then show ?thesis using assms(7) True PhLoop run Inl c sound_end_session[of s2]
        by (auto simp: io_thread_step_def split: if_splits)
    qed
  qed
qed

section \<open>The steps of the client\<close>

text \<open>What \<^verbatim>\<open>connector\<close> starts: the command loop, the thread, and the handshake on channel 0.\<close>

type_synonym client = "io_phase \<times> io_loop \<times> rpc_state"

definition connector :: "nat \<Rightarrow> nat list \<Rightarrow> configuration \<Rightarrow> connection_status \<Rightarrow> call_outcome \<times> client" where
  "connector now throttles cfg status =
    (let w = wake (client_new now cfg status);
         s = io_loop_new throttles (cfg_negotiated cfg);
         (r, w1) = connection_start False (connection_of cfg) (cs_channel0 w) w
     in (r, PhConnect, s, w1))"

text \<open>The calls that the application can make at any time, on the connection and on any channel object.\<close>

inductive application_call :: "(rpc_state \<Rightarrow> rpc_state) \<Rightarrow> bool" where
  "application_call (snd \<circ> connection_create_channel)"
| "application_call (snd \<circ> close_application_connection code text)"
| "application_call (snd \<circ> connection_update_application_secret secret reason)"
| "application_call (connection_closer_drop noop)"
| "application_call (channel_closer_drop i)"
| "application_call (snd \<circ> channel_close i code text)"
| "application_call (snd \<circ> channel_flow i flow_opts)"
| "application_call (snd \<circ> basic_qos i prefetch qos_opts)"
| "application_call (snd \<circ> basic_consume i queue tag consume_opts args)"
| "application_call (snd \<circ> basic_cancel i tag cancel_opts)"
| "application_call (snd \<circ> snd \<circ> basic_publish i exchange key publish_opts payload props)"
| "application_call (snd \<circ> basic_get i queue get_opts)"
| "application_call (snd \<circ> basic_ack i tag_nr ack_opts)"
| "application_call (snd \<circ> basic_nack i tag_nr nack_opts)"
| "application_call (snd \<circ> basic_reject i tag_nr reject_opts)"
| "application_call (snd \<circ> basic_recover i recover_opts)"
| "application_call (snd \<circ> basic_recover_async i recover_async_opts)"
| "application_call (snd \<circ> exchange_declare i name exchange_type declare_opts args)"
| "application_call (snd \<circ> exchange_delete i name delete_opts)"
| "application_call (snd \<circ> exchange_bind i destination source key bind_opts args)"
| "application_call (snd \<circ> exchange_unbind i destination source key unbind_opts args)"
| "application_call (snd \<circ> queue_declare i queue queue_opts args)"
| "application_call (snd \<circ> queue_delete i queue queue_delete_opts)"
| "application_call (snd \<circ> queue_bind i queue exchange key queue_bind_opts args)"
| "application_call (snd \<circ> queue_unbind i queue exchange key args)"
| "application_call (snd \<circ> queue_purge i queue purge_opts)"
| "application_call (snd \<circ> confirm_select i confirm_opts)"
| "application_call (snd \<circ> tx_select i)"
| "application_call (snd \<circ> tx_commit i)"
| "application_call (snd \<circ> tx_rollback i)"
| "application_call (snd \<circ> wait_for_confirms i)"
| "application_call (snd \<circ> acker_ack ack_opts acker)"
| "application_call (snd \<circ> acker_nack nack_opts acker)"
| "application_call (snd \<circ> acker_reject reject_opts acker)"
| "application_call (consumer_set_delegate consumer delegate)"
| "application_call (snd \<circ> poll_next consumer)"
| "application_call (snd \<circ> promise_poll p)"

text \<open>
  The parts of the client run in any order: the thread, the command loop, the tasks that it has
  spawned, the heartbeat, the refresh of the secret after a sleep, and the application.
\<close>

inductive client_step :: "io_env \<Rightarrow> client \<Rightarrow> client \<Rightarrow> bool" for env where
  step_thread: "io_thread_step (env\<lparr>env_now := now\<rparr>) connected (ph, s, w) = Some x \<Longrightarrow> client_step env (ph, s, w) x"
| step_command: "rpc_turn now w = Some w' \<Longrightarrow> client_step env (ph, s, w) (ph, s, w')"
| step_task: "client_step env (ph, s, w) (ph, s, poll_task n w)"
| step_heartbeat: "k \<in> set (rpc_heartbeat_tasks w)
    \<Longrightarrow> hb_poll_timeout now k (w_conn_status w) (rpc_heartbeat w) w = (d, b, w')
    \<Longrightarrow> client_step env (ph, s, w) (ph, s, w'\<lparr>rpc_heartbeat := b\<rparr>)"
| step_secret: "rpc_secret_tasks w \<noteq> [] \<Longrightarrow> su_refresh refreshed w = (d, w') \<Longrightarrow> client_step env (ph, s, w) (ph, s, w')"
| step_application: "application_call f \<Longrightarrow> client_step env (ph, s, w) (ph, s, f w)"

inductive_cases client_stepE: "client_step env (ph, s, w) x"

text \<open>The runs in which the queued frames fit into the buffer and the sizes do not overflow.\<close>

fun bounded :: "(amqp_frame \<Rightarrow> byte list) \<Rightarrow> client \<Rightarrow> bool" where
  "bounded enc (ph, s, w) \<longleftrightarrow> frames_fit enc s w \<and> frame_limit s w"

inductive client_run :: "io_env \<Rightarrow> (amqp_frame \<Rightarrow> byte list) \<Rightarrow> client \<Rightarrow> bool" for env enc where
  run_start: "connector now throttles cfg status = (r, x) \<Longrightarrow> bounded enc x \<Longrightarrow> client_run env enc x"
| run_step: "client_run env enc x \<Longrightarrow> client_step env x y \<Longrightarrow> bounded enc y \<Longrightarrow> client_run env enc y"

lemma connector_sound:
  assumes "connector now throttles cfg status = (r, x)" "bounded enc x"
  shows "thread_sound x"
proof -
  obtain w where x: "x = (PhConnect, io_loop_new throttles (cfg_negotiated cfg), w)"
    using assms(1) by (auto simp: connector_def Let_def split: prod.splits)
  define n where "n = frames_storage * unat (max frame_min_size (nc_frame_max (cfg_negotiated cfg)))"
  have send: "io_send (io_loop_new throttles (cfg_negotiated cfg)) = with_capacity n"
    by (simp add: io_loop_new_def n_def Let_def)
  have "frame_limit (io_loop_new throttles (cfg_negotiated cfg)) w" using assms(2) x by simp
  then have "n < 2 ^ 32"
    by (simp add: frame_limit_def io_loop_new_def n_def Let_def nat_mult_max_right)
  moreover have "max frame_min_size (nc_frame_max (cfg_negotiated cfg)) \<noteq> 0" by (auto simp: max_def)
  then have "0 < n" by (simp add: n_def frames_storage_def unat_gt_0)
  ultimately have "backlog (io_loop_new throttles (cfg_negotiated cfg)) []"
    using valid_with_capacity[of n] send by (simp add: backlog_def) (simp add: with_capacity_def io_loop_new_def Let_def)
  then show ?thesis using x by (auto intro: sound_backlog)
qed

lemma client_step_sound:
  assumes "generates enc (env_gen env)" "\<And>f. enc f \<noteq> []" "honest_writer (env_socket env)"
    and "client_step env x y" "thread_sound x" "bounded enc x"
  shows "thread_sound y"
  using assms(4)
proof cases
  case (step_thread now connected ph s w)
  then show ?thesis using thread_sound_step[of enc "env\<lparr>env_now := now\<rparr>" ph s w connected y] assms by simp
qed (use assms(5) in \<open>cases "fst x"; auto\<close>)+


definition example_env :: io_env where
  "example_env = \<lparr>env_error_kind = (\<lambda>_. None), env_now = 0, env_socket = slow_socket,
     env_gen = whole_or_nothing (\<lambda>_. [8, 0]), env_parse = heartbeat_parser, env_base = 0, env_throttles = []\<rparr>"

definition example_configuration :: configuration where
  "example_configuration =
    configuration_new (default_auth_provider ''PLAIN'' False ''guest'' '''' '''') None None None connection_properties_default"

lemma connection_start_negotiated: "w_negotiated (snd (connection_start noop con i w)) = w_negotiated w"
proof -
  have kept: "w_negotiated (wake v) = w_negotiated v" "w_negotiated (rpc_send c v) = w_negotiated v"
    "w_negotiated (promise_complete p x v) = w_negotiated v" for c p x and v :: "'a world_scheme"
    by (simp_all add: wake_def rpc_send_def promise_complete_def)
  have "w_negotiated (push c f k x r v) = w_negotiated v" for c f k x r and v :: "'a world_scheme"
    by (simp add: push_def Let_def cancel_expected_reply_def sending_reject_def promise_reject_def promise_resolve_def kept
        split: option.split expected_reply.split reply.split)
  then show ?thesis
    by (simp add: connection_start_def connection_closer_drop_def rpc_close_connection_def send_frame_def Let_def kept
        promise_new_def promise_build_def split: prod.split sum.split)
qed


end
