(* ===== verification/Typing.thy ===== *)
theory Typing
  imports Client
begin

text \<open>
  Two invariants of the runs of the client, with every operation of the client covered.  The table of the channels
  stays well formed: channel 0 keeps its id, and an entry of the table leads to a channel object with the id of the
  entry.  And the refresh of the secret is started by the command that starts the heartbeat, only.
\<close>

section \<open>Operations that leave the channels' ids alone\<close>

text \<open>
  The ids of the channel objects, everything that the table of the channels adds to the state, and the
  commands that wait to start the heartbeat.
\<close>

fun starts_heartbeat :: "internal_command option \<Rightarrow> bool" where
  "starts_heartbeat (Some (CmdStartHeartbeat _)) = True"
| "starts_heartbeat _ = False"

definition ids :: "'a world_scheme \<Rightarrow> channel_id list \<times> 'a \<times> internal_command option list" where
  "ids w = (map ch_id (chan_objs w), world.more w, filter starts_heartbeat (rpc w))"

lemma ids_updates [simp]:
  "ids (w\<lparr>promises := a\<rparr>) = ids w" "ids (w\<lparr>switches := b\<rparr>) = ids w" "ids (w\<lparr>notifiers := c\<rparr>) = ids w"
  "ids (w\<lparr>holders := d\<rparr>) = ids w" "ids (w\<lparr>socket_events := g\<rparr>) = ids w"
  "ids (w\<lparr>retry_frames := f1\<rparr>) = ids w" "ids (w\<lparr>publish_frames := f1\<rparr>) = ids w" "ids (w\<lparr>frames_queue := f1\<rparr>) = ids w"
  "ids (w\<lparr>low_prio_frames := f1\<rparr>) = ids w" "ids (w\<lparr>expected_replies := h1\<rparr>) = ids w" "ids (w\<lparr>poison := h2\<rparr>) = ids w"
  "ids (w\<lparr>channels_poison := h3\<rparr>) = ids w" "ids (w\<lparr>consumer_objs := k1\<rparr>) = ids w"
  "ids (w\<lparr>w_conn_status := k2\<rparr>) = ids w" "ids (w\<lparr>w_negotiated := k3\<rparr>) = ids w" "ids (w\<lparr>w_events := k4\<rparr>) = ids w"
  by (simp_all add: ids_def)

lemma ids_fold [simp]: "(\<And>x w. ids (f x w) = ids w) \<Longrightarrow> ids (fold f xs w) = ids w"
  by (induction xs arbitrary: w) simp_all

subsection \<open>Cells, acknowledgements and confirmations\<close>

lemma ids_promises [simp]:
  "ids (snd (promise_new w)) = ids w" "ids (snd (promise_new_with_data d w)) = ids w" "ids (promise_complete p r w) = ids w"
  "ids (promise_resolve p v w) = ids w" "ids (promise_reject p e w) = ids w" "ids (snd (promise_poll p w)) = ids w"
  by (simp_all add: promise_defs promise_poll_def split: option.split)

lemma ids_cells [simp]:
  "ids (snd (switch_new w)) = ids w" "ids (snd (switch_kill k w)) = ids w" "ids (switch_reset k w) = ids w"
  "ids (snd (notifier_new w)) = ids w" "ids (notify_all n w) = ids w" "ids (snd (holder_new w)) = ids w"
  "ids (snd (holder_set n e w)) = ids w" "ids (wake w) = ids w" 
  by (simp_all add: switch_new_def switch_kill_def switch_reset_def notifier_new_def notify_all_def holder_new_def
      holder_set_def wake_def)

lemma ids_rpc_queue [simp]:
  "ids (rpc_stop w) = ids w" "\<not> starts_heartbeat (Some c) \<Longrightarrow> ids (rpc_send c w) = ids w"
  by (simp_all add: ids_def rpc_stop_def rpc_send_def wake_def)

lemma ids_rpc [simp]:
  "ids (rpc_close_connection code text a b w) = ids w" "ids (snd (rpc_close_connection_checked code text a b w)) = ids w"
  "ids (snd (rpc_create_channel w)) = ids w" "ids (rpc_init_connection_shutdown e r w) = ids w"
  "ids (snd (rpc_update_secret secret reason w)) = ids w" "ids (rpc_spawn f w) = ids w"
  by (simp_all add: rpc_close_connection_def rpc_close_connection_checked_def rpc_create_channel_def
      rpc_init_connection_shutdown_def rpc_update_secret_def rpc_spawn_def split_beta Let_def)

lemma ids_acker [simp]:
  "ids (snd (acker_new c t r e k w)) = ids w" "ids (invalidate a w) = ids w" "ids (snd (acker_ack o1 a w)) = ids w"
  "ids (snd (acker_nack o2 a w)) = ids w" "ids (snd (acker_reject o3 a w)) = ids w" "ids (invalidate_delivery d w) = ids w"
  by (simp_all add: acker_new_def invalidate_def acker_ack_def acker_nack_def acker_reject_def acker_rpc_def
      rpc_basic_ack_def rpc_basic_nack_def rpc_basic_reject_def invalidate_delivery_def split_beta Let_def
      split: sum.split option.split)

lemma ids_messages [simp]:
  "ids (snd (delivery_new c t x k b r e n w)) = ids w" "ids (snd (basic_get_message_new c t x k b m n w)) = ids w"
  "ids (snd (basic_return_message_new x k code text n w)) = ids w"
  by (simp_all add: delivery_new_def basic_get_message_new_def basic_return_message_new_def split_beta Let_def)

lemma ids_dropped_confirm [simp]: "ids (snd (snd (process_dropped_confirm p msgs s w))) = ids w"
  by (simp add: process_dropped_confirm_def promise_try_wait_def split: option.split sum.split pvalue.split)

lemma ids_dropped_confirms [simp]: "ids (snd (snd (process_dropped_confirms ps msgs s w))) = ids w"
  by (induction ps arbitrary: msgs s w) (simp_all add: split_beta Let_def)

lemma ids_confirms [simp]:
  "ids (snd (register_dropped_confirm p s w)) = ids w" "ids (snd (snd (rm_drain s w))) = ids w"
  "ids (snd (publisher_confirm_not_requested w)) = ids w" "ids (snd (snd (register_pending a w))) = ids w"
  "ids (snd (publisher_confirm_drop c s w)) = ids w" "ids (snd (complete_pending b tag rs a sh)) = ids (snd sh)"
  by (simp_all add: register_dropped_confirm_def rm_drain_def publisher_confirm_not_requested_def register_pending_def
      publisher_confirm_drop_def complete_pending_def split_beta Let_def split: option.split)

lemma ids_drop_all [simp]: "ids (snd (snd (drop_all b a sh))) = ids (snd sh)"
proof -
  have "ids (snd (fold (\<lambda>(tag, rs). complete_pending b tag rs a') xs sh)) = ids (snd sh)" for a' xs
    by (induction xs arbitrary: sh) (auto simp: split_beta)
  then show ?thesis by (simp add: drop_all_def Let_def)
qed

lemma ids_drop_pending [simp]: "ids (snd (snd (snd (drop_pending tag b st)))) = ids (snd (snd st))"
  by (simp add: drop_pending_def split_beta Let_def split: option.split)

lemma ids_drop_each [simp]: "ids (snd (snd (snd (drop_each ts b st r)))) = ids (snd (snd st))"
  by (induction ts b st r rule: drop_each.induct) (simp_all add: split_beta Let_def)

lemma ids_acks [simp]:
  "ids (snd (snd (snd (complete_pending_before tag b st)))) = ids (snd (snd st))"
  "ids (snd (snd (acks_on_channel_error e a s w))) = ids w" "ids (snd (snd (acks_reset e a s w))) = ids w"
  by (simp_all add: complete_pending_before_def acks_on_channel_error_def acks_reset_def split_beta Let_def)

subsection \<open>Frames\<close>

lemma ids_sending [simp]:
  "ids (sending_reject s e w) = ids w" "ids (sending_resolve s w) = ids w" "ids (entry_reject x e w) = ids w"
  "ids (cancel_expected_reply y e w) = ids w" "ids (cancel_expected_replies ys e w) = ids w"
  by (simp_all add: sending_reject_def sending_resolve_def entry_reject_def cancel_expected_reply_def
      cancel_expected_replies_def split: option.split expected_reply.split reply.split)

lemma ids_push [simp]:
  "ids (push c f canceler expected resolver w) = ids w" "ids (push_frames c fs r w) = ids w" "ids (retry x w) = ids w"
  "ids (snd (pop flow w)) = ids w"
  by (simp_all add: push_def push_frames_def retry_def pop_def Let_def split_beta split: option.split list.split)

lemma ids_find_expected_reply [simp]: "ids (snd (find_expected_reply c P w)) = ids w"
  by (simp add: find_expected_reply_def Let_def split_beta split: option.split)

lemma ids_find_connection_step [simp]: "ids (snd (find_connection_step c w)) = ids w"
  by (simp add: find_connection_step_def Let_def split_beta split: option.split reply.split)

lemma ids_replies [simp]:
  "ids (snd (connection_resolver c w)) = ids w" "ids (snd (take_expected_replies c w)) = ids w"
  "ids (clear_expected_replies c e w) = ids w" "ids (clear_all_expected_replies e w) = ids w"
  by (simp_all add: connection_resolver_def take_expected_replies_def clear_expected_replies_def
      clear_all_expected_replies_def split_beta split: option.split)

lemma ids_clear_connection_steps [simp]: "ids (clear_connection_steps e w) = ids w"
proof (induction e w rule: clear_connection_steps.induct)
  case (1 e w)
  obtain r w' where r: "connection_resolver 0 w = (r, w')" by fastforce
  then have "ids w' = ids w" using ids_replies(1)[of 0 w] by simp
  then show ?case using 1[OF r[symmetric]] r by (subst clear_connection_steps.simps) (simp split: option.split)
qed

lemma ids_retry_header [simp]: "ids (snd (retry_connection_header w)) = ids w"
  by (simp add: retry_connection_header_def Let_def split: option.split)

lemma ids_next_close_ok [simp]: "ids (snd (snd (next_close_ok xs e w))) = ids w"
  by (induction xs arbitrary: w) (auto simp: split_beta Let_def split: reply.split)

lemma ids_next_expected_close_ok_reply [simp]: "ids (snd (next_expected_close_ok_reply c e w)) = ids w"
  by (simp add: next_expected_close_ok_reply_def split_beta Let_def split: option.split)

lemma ids_drop_pending_frame [simp]: "ids (drop_pending_frame e x w) = ids w"
proof (cases "\<exists>c tag nowait. fe_frame x = Method c (Basic (BasicCancel tag nowait))")
  case True
  then show ?thesis by (auto simp: drop_pending_frame_def)
qed (simp add: drop_pending_frame_other)

lemma ids_drop_pending_frames [simp]: "ids (drop_pending_frames e xs w) = ids w" "ids (frames_drop_pending e w) = ids w"
  by (simp_all add: drop_pending_frames_def frames_drop_pending_def Let_def)

lemma ids_drop_for_channel [simp]: "ids (snd (drop_pending_frames_for_channel c xs e w)) = ids w"
  by (induction xs arbitrary: w) (simp_all add: split_beta Let_def)

lemma ids_poison [simp]:
  "ids (drop_frames_for_channel c e w) = ids w" "ids (poison_channel c e w) = ids w" "ids (drop_poison w) = ids w"
  "ids (drop_channel_poison c w) = ids w"
  by (simp_all add: drop_frames_for_channel_def poison_channel_def drop_poison_def drop_channel_poison_def split_beta Let_def)

subsection \<open>Status and consumers\<close>

lemma ids_status [simp]:
  "ids (snd (recovery_context_new e t w)) = ids w" "ids (finalize_recovery ctx w) = ids w" "ids (update_rpc_status s w) = ids w"
  "ids (snd (channel_status_new c w)) = ids w" "ids (snd (finalize_connection s w)) = ids w"
  "ids (snd (set_confirm s w)) = ids w" "ids (snd (snd (set_reconnecting e t s w))) = ids w"
  by (simp_all add: recovery_context_new_def finalize_recovery_def update_rpc_status_def channel_status_new_def
      finalize_connection_def set_confirm_def set_reconnecting_def split_beta Let_def split: option.split)

lemma ids_consumer [simp]:
  "ids (snd (consumer_new tag queue opts args w)) = ids w" "ids (update_consumer i f w) = ids w"
  "ids (spawn_infallible g w) = ids w" "ids (dispatch i r d w) = ids w" "ids (consumer_set_delegate i n w) = ids w"
  "ids (drop_prefetched_messages i w) = ids w" "ids (consumer_reset i w) = ids w" "ids (start_new_delivery i m w) = ids w"
  "ids (check_new_delivery i x w) = ids w"
  by (simp_all add: consumer_new_def update_consumer_def spawn_infallible_def dispatch_def consumer_set_delegate_def
      drop_prefetched_messages_def consumer_reset_def start_new_delivery_def check_new_delivery_def split_beta Let_def
      split: option.split)

lemma ids_consumer_frames [simp]:
  "ids (consumer_handle_content_header_frame i sz props w) = ids w" "ids (consumer_handle_body_frame i n d w) = ids w"
  "ids (start_cancel i w) = ids w" "ids (consumer_cancel i w) = ids w" "ids (consumer_send_error i e w) = ids w"
  "ids (consumer_set_error i e w) = ids w" "ids (snd (poll_next i w)) = ids w" "ids (consumer_canceler_drop c i w) = ids w"
  by (simp_all add: consumer_handle_content_header_frame_def consumer_handle_body_frame_def start_cancel_def
      consumer_cancel_def consumer_send_error_def consumer_set_error_def poll_next_def consumer_canceler_drop_def
      split_beta Let_def split: option.split list.split sum.split)

lemma ids_consumers [simp]:
  "ids (snd (consumers_deregister tag t w)) = ids w" "ids (consumers_start_cancel_one tag t w) = ids w"
  "(\<And>h. ids (snd (g h w)) = ids w) \<Longrightarrow> ids (consumers_start_delivery tag g t w) = ids w"
  "ids (consumers_handle_content_header_frame tag sz props t w) = ids w"
  "ids (consumers_handle_body_frame tag n d t w) = ids w" "ids (consumers_drop_prefetched_messages t w) = ids w"
  "ids (consumers_start_cancel t w) = ids w" "ids (snd (consumers_cancel t w)) = ids w"
  "ids (snd (consumers_error e b t w)) = ids w"
  by (simp_all add: consumers_deregister_def consumers_start_cancel_one_def consumers_start_delivery_def
      consumers_handle_content_header_frame_def consumers_handle_body_frame_def consumers_drop_prefetched_messages_def
      consumers_start_cancel_def consumers_cancel_def consumers_error_def split_beta Let_def split: option.split)

lemma ids_get [simp]:
  "ids (snd (get_new_delivery_complete x)) = ids (snd x)" "ids (snd (get_handle_content_header_frame sz props x)) = ids (snd x)"
  "ids (snd (get_handle_body_frame n d x)) = ids (snd x)"
  by (simp_all add: get_new_delivery_complete_def get_handle_content_header_frame_def get_handle_body_frame_def
      split_beta Let_def split: option.split prod.split)

lemma ids_heartbeat [simp]:
  "ids (snd (hb_cancel b w)) = ids w" "ids (snd (hb_reset now b w)) = ids w"
  "ids (snd (snd (hb_inner_poll_timeout now b w))) = ids w"
  "ids (snd (snd (hb_poll_timeout now k s b w))) = ids w" "ids (su_cancel k w) = ids w" "ids (snd (su_reset k w)) = ids w"
  "ids (snd (su_refresh x w)) = ids w"
  by (simp_all add: hb_cancel_def hb_reset_def hb_inner_poll_timeout_def hb_poll_timeout_def su_cancel_def su_reset_def
      su_refresh_def split_beta Let_def split: option.split sum.split)

subsection \<open>Channels\<close>

text \<open>An update of a channel object that keeps its id.\<close>

lemma ids_update_chan [simp]: "(\<And>c. ch_id (f c) = ch_id c) \<Longrightarrow> ids (update_chan i f w) = ids w"
  by (cases "i < length (chan_objs w)")
     (simp_all add: update_chan_def ids_def map_update list_update_same_conv list_update_beyond chan_def)

lemma ids_chan [simp]:
  "ids (update_status i g w) = ids w" "ids (update_registry i r w) = ids w" "ids (set_acks i a s w) = ids w"
  "ids (set_consumers i t w) = ids w" "ids (send_event ev w) = ids w"
  by (simp_all add: update_status_def update_registry_def set_acks_def set_consumers_def send_event_def
      split_beta Let_def)

lemma ids_chan_state [simp]:
  "ids (error_publisher_confirms i e w) = ids w" "ids (cancel_consumers i w) = ids w" "ids (error_consumers i e w) = ids w"
  "ids (channel_set_state i x w) = ids w" "ids (channel_set_closing i oe w) = ids w" "ids (channel_set_closed i e w) = ids w"
  "ids (channel_set_connection_error i e w) = ids w" "ids (channel_finalize_connection i w) = ids w"
  "ids (channel_poison i e w) = ids w" "ids (snd (init_recovery i e w)) = ids w" "ids (snd (update_recovery i w)) = ids w"
  by (simp_all add: error_publisher_confirms_def cancel_consumers_def error_consumers_def channel_set_state_def
      channel_set_closing_def channel_set_closed_def channel_set_connection_error_def channel_finalize_connection_def
      channel_poison_def init_recovery_def update_recovery_def split_beta Let_def split: option.split)

lemma ids_send [simp]:
  "\<And>a b c d e w. ids (send_frame a b c d e w) = ids w"
  "\<And>a b c d e w. ids (send_method_frame a b c d e w) = ids w"
  "\<And>a b c d w. ids (snd (send_method_frame_with_body a b c d w)) = ids w"
  "\<And>a w. ids (snd (publish_confirm a w)) = ids w"
  "\<And>a b c d w. ids (snd (report_protocol_violation a b c d w)) = ids w"
  "\<And>a b c w. ids (snd (assert_channel0 a b c w)) = ids w"
  "\<And>a b c d w. ids (snd (handle_invalid_contents a b c d w)) = ids w"
  by (simp_all add: send_frame_def send_method_frame_def send_method_frame_with_body_def publish_confirm_def
      report_protocol_violation_def assert_channel0_def handle_invalid_contents_def split_beta Let_def
      split: option.split sum.split)

lemma ids_chan_get_frame [simp]: "(\<And>x. ids (snd (f x)) = ids (snd x)) \<Longrightarrow> ids (chan_get_frame i f w) = ids w"
  by (simp add: chan_get_frame_def split_beta Let_def)

lemma ids_content_length [simp]:
  "(\<And>x b w. ids (h x b w) = ids w) \<Longrightarrow> (\<And>m w. ids (snd (f m w)) = ids w) \<Longrightarrow> (\<And>m w. ids (snd (g m w)) = ids w)
    \<Longrightarrow> ids (snd (snd (set_content_length c k n h f g s w))) = ids w"
  by (simp add: set_content_length_def recv_set_content_length_def split_beta Let_def split: list.split receiver_state.split)

lemma ids_st_receive [simp]:
  "(\<And>x n b w. ids (h x n b w) = ids w) \<Longrightarrow> (\<And>m w. ids (snd (f m w)) = ids w)
    \<Longrightarrow> ids (snd (snd (st_receive c n h f s w))) = ids w"
  by (simp add: st_receive_def recv_receive_def split_beta Let_def split: list.split receiver_state.split)

lemma ids_content [simp]:
  "ids (snd (handle_content_header_frame i c sz props w)) = ids w" "ids (snd (handle_body_frame i d w)) = ids w"
  by (simp_all add: handle_content_header_frame_def handle_body_frame_def split_beta Let_def
      split: option.split sum.split delivery_cause.split)

lemma ids_hooks [simp]:
  "\<And>a w. ids (snd (before_basic_publish a w)) = ids w"
  "\<And>a b w. ids (before_basic_cancel a b w) = ids w"
  "\<And>a w. ids (before_channel_close a w) = ids w"
  "\<And>a b w. ids (on_connection_close_ok_sent a b w) = ids w"
  "\<And>a b w. ids (on_channel_close_ok_sent a b w) = ids w"
  "\<And>a w. ids (chan_drop_prefetched a w) = ids w"
  "\<And>a w. ids (on_basic_recover_async_sent a w) = ids w"
  "\<And>a b c w. ids (on_basic_ack_sent a b c w) = ids w"
  "\<And>a b c w. ids (on_basic_nack_sent a b c w) = ids w"
  "\<And>a b c w. ids (snd (connection_process_error a b c w)) = ids w"
  by (simp_all add: before_basic_publish_def before_basic_cancel_def before_channel_close_def
      on_connection_close_ok_sent_def on_channel_close_ok_sent_def chan_drop_prefetched_def
      on_basic_recover_async_sent_def on_basic_ack_sent_def on_basic_nack_sent_def connection_process_error_def
      split_beta Let_def
      split: option.split sum.split)

lemma ids_connection_received [simp]:
  "\<And>a b c d w. ids (snd (on_connection_start_received a b c d w)) = ids w"
  "\<And>a b c w. ids (snd (on_connection_secure_received a b c w)) = ids w"
  "\<And>a b c d e w. ids (snd (on_connection_tune_received a b c d e w)) = ids w"
  "\<And>a b c w. ids (snd (on_connection_open_ok_received a b c w)) = ids w"
  "\<And>a b c d w. ids (snd (on_connection_close_received a b c d w)) = ids w"
  "\<And>a w. ids (snd (on_connection_blocked_received a w)) = ids w"
  "\<And>w. ids (snd (on_connection_unblocked_received w)) = ids w"
  "\<And>w. ids (snd (on_connection_close_ok_received w)) = ids w"
  by (simp_all add: on_connection_start_received_def on_connection_secure_received_def
      on_connection_tune_received_def on_connection_open_ok_received_def on_connection_close_received_def
      on_connection_blocked_received_def on_connection_unblocked_received_def
      on_connection_close_ok_received_def split_beta Let_def
      split: option.split sum.split connection_step.split)

lemma ids_channel_received [simp]:
  "\<And>a b c w. ids (snd (on_channel_open_ok_received a b c w)) = ids w"
  "\<And>a b w. ids (snd (on_channel_flow_received a b w)) = ids w"
  "\<And>a b w. ids (snd (on_channel_flow_ok_received a b w)) = ids w"
  "\<And>a b c d w. ids (snd (on_channel_close_received a b c d w)) = ids w"
  "\<And>a w. ids (snd (on_channel_close_ok_received a w)) = ids w"
  "\<And>a w. ids (snd (channel_next_expected_close_ok_reply a w)) = ids w"
  by (simp_all add: on_channel_open_ok_received_def on_channel_flow_received_def
      on_channel_flow_ok_received_def on_channel_close_received_def on_channel_close_ok_received_def
      channel_next_expected_close_ok_reply_def split_beta Let_def
      split: option.split sum.split)

lemma ids_topology_received [simp]:
  "\<And>a b c d e w. ids (snd (on_exchange_bind_ok_received a b c d e w)) = ids w"
  "\<And>a b c d e w. ids (snd (on_exchange_unbind_ok_received a b c d e w)) = ids w"
  "\<And>a b c d e f w. ids (snd (on_exchange_declare_ok_received a b c d e f w)) = ids w"
  "\<And>a b w. ids (snd (on_exchange_delete_ok_received a b w)) = ids w"
  "\<And>a b c d w. ids (snd (on_queue_delete_ok_received a b c d w)) = ids w"
  "\<And>a b w. ids (snd (on_queue_purge_ok_received a b w)) = ids w"
  "\<And>a b c d e f g w. ids (snd (on_queue_declare_ok_received a b c d e f g w)) = ids w"
  "\<And>a b c d e w. ids (snd (on_queue_bind_ok_received a b c d e w)) = ids w"
  "\<And>a b c d e w. ids (snd (on_queue_unbind_ok_received a b c d e w)) = ids w"
  by (simp_all add: on_exchange_bind_ok_received_def on_exchange_unbind_ok_received_def
      on_exchange_declare_ok_received_def on_exchange_delete_ok_received_def on_queue_delete_ok_received_def
      on_queue_purge_ok_received_def on_queue_declare_ok_received_def on_queue_bind_ok_received_def
      on_queue_unbind_ok_received_def split_beta Let_def
      split: option.split sum.split)

lemma ids_delivery_received [simp]:
  "\<And>a b w. ids (snd (chan_will_receive a b w)) = ids w"
  "\<And>a b c d e f g w. ids (snd (on_basic_get_ok_received a b c d e f g w)) = ids w"
  "\<And>a w. ids (snd (on_basic_get_empty_received a w)) = ids w"
  "\<And>a b c d e f g w. ids (snd (on_basic_consume_ok_received a b c d e f g w)) = ids w"
  "\<And>a b c d e f w. ids (snd (on_basic_deliver_received a b c d e f w)) = ids w"
  "\<And>a b w. ids (deregister_consumer a b w) = ids w"
  "\<And>a b c w. ids (snd (on_basic_cancel_received a b c w)) = ids w"
  "\<And>a b w. ids (snd (on_basic_cancel_ok_received a b w)) = ids w"
  by (simp_all add: chan_will_receive_def on_basic_get_ok_received_def on_basic_get_empty_received_def
      on_basic_consume_ok_received_def on_basic_deliver_received_def deregister_consumer_def
      on_basic_cancel_received_def on_basic_cancel_ok_received_def split_beta Let_def
      split: option.split sum.split reply.split)

lemma ids_basic_received [simp]:
  "\<And>a b c d w. ids (snd (acknowledgement_error a b c d w)) = ids w"
  "\<And>a b c d e w. ids (snd (on_confirmation_received a b c d e w)) = ids w"
  "\<And>a b c w. ids (snd (on_basic_ack_received a b c w)) = ids w"
  "\<And>a b c d w. ids (snd (on_basic_nack_received a b c d w)) = ids w"
  "\<And>a b c d e w. ids (snd (on_basic_return_received a b c d e w)) = ids w"
  "\<And>a w. ids (snd (on_basic_recover_ok_received a w)) = ids w"
  "\<And>a w. ids (snd (on_confirm_select_ok_received a w)) = ids w"
  "\<And>w. ids (snd (on_access_request_ok_received w)) = ids w"
  by (simp_all add: acknowledgement_error_def on_confirmation_received_def on_basic_ack_received_def
      on_basic_nack_received_def on_basic_return_received_def on_basic_recover_ok_received_def
      on_confirm_select_ok_received_def on_access_request_ok_received_def split_beta Let_def
      split: option.split sum.split)

subsection \<open>Methods\<close>

lemma ids_sending_methods [simp]:
  "ids (snd (request i m r w)) = ids w" "ids (snd (notice i m w)) = ids w"
  "(\<And>w. ids (snd (f w)) = ids w) \<Longrightarrow> ids (snd (when_state ok ctx i f w)) = ids w"
  "ids (snd (awaiting x)) = ids (snd x)"
  "(\<And>w. ids (snd (g w)) = ids w) \<Longrightarrow> ids (snd (with_nowait b g x)) = ids (snd x)"
  by (simp_all add: request_def notice_def when_state_def awaiting_def with_nowait_def split_beta Let_def split: sum.split)

lemma ids_receiving_methods [simp]:
  "(\<And>w. ids (snd (f w)) = ids w) \<Longrightarrow> ids (snd (receiving ctx i f w)) = ids w"
  "ids (snd (expect_reply pat i w)) = ids w"
  "(\<And>x w. ids (snd (g x w)) = ids w) \<Longrightarrow> ids (snd (match_reply cn mn m pat i g w)) = ids w"
  "ids (snd (completing p x)) = ids (snd x)"
  "(\<And>w. ids (snd (f w)) = ids w) \<Longrightarrow> ids (snd (on_channel0 m i f w)) = ids w"
  "(\<And>x w. ids (snd (h x w)) = ids w) \<Longrightarrow> ids (snd (at_connection_step i h w)) = ids w"
  by (simp_all add: receiving_def expect_reply_def match_reply_def completing_def on_channel0_def at_connection_step_def
      split_beta Let_def split: sum.split option.split)

lemma ids_receive_reply [simp]:
  "(\<And>x w. ids (snd (g x w)) = ids w) \<Longrightarrow> ids (snd (receive_reply cn mn m pat i g w)) = ids w"
  by (simp add: receive_reply_def)

lemma ids_basic [simp]:
  "\<And>a b c w. ids (snd (basic_qos a b c w)) = ids w"
  "\<And>a w. ids (snd (receive_basic_qos_ok a w)) = ids w"
  "\<And>a b w. ids (snd (receive_basic_consume_ok a b w)) = ids w"
  "\<And>a b c d e f w. ids (snd (do_basic_consume a b c d e f w)) = ids w"
  "\<And>a b w. ids (snd (receive_basic_cancel_ok a b w)) = ids w"
  "\<And>a b c w. ids (snd (basic_cancel a b c w)) = ids w"
  "\<And>a b c w. ids (snd (receive_basic_cancel a b c w)) = ids w"
  "\<And>a b w. ids (snd (basic_cancel_ok a b w)) = ids w"
  "\<And>a b c d e f w. ids (snd (snd (basic_publish a b c d e f w))) = ids w"
  "\<And>a b c d e w. ids (snd (receive_basic_return a b c d e w)) = ids w"
  "\<And>a b c d e f w. ids (snd (receive_basic_deliver a b c d e f w)) = ids w"
  "\<And>a b c d w. ids (snd (do_basic_get a b c d w)) = ids w"
  "\<And>a b c d e f w. ids (snd (receive_basic_get_ok a b c d e f w)) = ids w"
  "\<And>a w. ids (snd (receive_basic_get_empty a w)) = ids w"
  "\<And>a b c w. ids (snd (basic_ack a b c w)) = ids w"
  "\<And>a b c w. ids (snd (receive_basic_ack a b c w)) = ids w"
  "\<And>a b c w. ids (snd (basic_reject a b c w)) = ids w"
  "\<And>a b w. ids (snd (basic_recover_async a b w)) = ids w"
  "\<And>a b w. ids (snd (basic_recover a b w)) = ids w"
  "\<And>a w. ids (snd (receive_basic_recover_ok a w)) = ids w"
  "\<And>a b c w. ids (snd (basic_nack a b c w)) = ids w"
  "\<And>a b c d w. ids (snd (receive_basic_nack a b c d w)) = ids w"
  by (simp_all add: basic_qos_def receive_basic_qos_ok_def receive_basic_consume_ok_def do_basic_consume_def
      receive_basic_cancel_ok_def basic_cancel_def receive_basic_cancel_def basic_cancel_ok_def
      basic_publish_def receive_basic_return_def receive_basic_deliver_def do_basic_get_def
      receive_basic_get_ok_def receive_basic_get_empty_def basic_ack_def receive_basic_ack_def basic_reject_def
      basic_recover_async_def basic_recover_def receive_basic_recover_ok_def basic_nack_def
      receive_basic_nack_def split_beta Let_def
      split: option.split sum.split)

lemma ids_connection [simp]:
  "\<And>a b c w. ids (snd (receive_connection_start a b c w)) = ids w"
  "\<And>a b c d e f g h w. ids (snd (connection_start_ok a b c d e f g h w)) = ids w"
  "\<And>a b w. ids (snd (receive_connection_secure a b w)) = ids w"
  "\<And>a b c d e w. ids (snd (connection_secure_ok a b c d e w)) = ids w"
  "\<And>a b c d w. ids (snd (receive_connection_tune a b c d w)) = ids w"
  "\<And>a b c d w. ids (snd (connection_tune_ok a b c d w)) = ids w"
  "\<And>a b c d w. ids (snd (connection_open a b c d w)) = ids w"
  "\<And>a w. ids (snd (receive_connection_open_ok a w)) = ids w"
  "\<And>a b c d e w. ids (snd (connection_close a b c d e w)) = ids w"
  "\<And>a b c d e f w. ids (snd (receive_connection_close a b c d e f w)) = ids w"
  "\<And>a b w. ids (snd (connection_close_ok a b w)) = ids w"
  "\<And>a w. ids (snd (receive_connection_close_ok a w)) = ids w"
  "\<And>a b w. ids (snd (receive_connection_blocked a b w)) = ids w"
  "\<And>a w. ids (snd (receive_connection_unblocked a w)) = ids w"
  "\<And>a b c w. ids (snd (connection_update_secret a b c w)) = ids w"
  "\<And>a w. ids (snd (receive_connection_update_secret_ok a w)) = ids w"
  by (simp_all add: receive_connection_start_def connection_start_ok_def receive_connection_secure_def
      connection_secure_ok_def receive_connection_tune_def connection_tune_ok_def connection_open_def
      receive_connection_open_ok_def connection_close_def receive_connection_close_def connection_close_ok_def
      receive_connection_close_ok_def receive_connection_blocked_def receive_connection_unblocked_def
      connection_update_secret_def receive_connection_update_secret_ok_def split_beta Let_def
      split: option.split sum.split)

lemma ids_channel [simp]:
  "\<And>a b w. ids (snd (channel_open a b w)) = ids w"
  "\<And>a w. ids (snd (receive_channel_open_ok a w)) = ids w"
  "\<And>a b w. ids (snd (channel_flow a b w)) = ids w"
  "\<And>a b w. ids (snd (receive_channel_flow a b w)) = ids w"
  "\<And>a b w. ids (snd (channel_flow_ok a b w)) = ids w"
  "\<And>a b w. ids (snd (receive_channel_flow_ok a b w)) = ids w"
  "\<And>a b c d e w. ids (snd (do_channel_close a b c d e w)) = ids w"
  "\<And>a b c d w. ids (snd (receive_channel_close a b c d w)) = ids w"
  "\<And>a b w. ids (snd (channel_close_ok a b w)) = ids w"
  "\<And>a w. ids (snd (receive_channel_close_ok a w)) = ids w"
  "\<And>a b c w. ids (snd (access_request a b c w)) = ids w"
  "\<And>a w. ids (snd (receive_access_request_ok a w)) = ids w"
  by (simp_all add: channel_open_def receive_channel_open_ok_def channel_flow_def receive_channel_flow_def
      channel_flow_ok_def receive_channel_flow_ok_def do_channel_close_def receive_channel_close_def
      channel_close_ok_def receive_channel_close_ok_def access_request_def receive_access_request_ok_def
      split_beta Let_def
      split: option.split sum.split reply.split reply.split)

lemma ids_topology [simp]:
  "\<And>a w. ids (snd (receive_exchange_declare_ok a w)) = ids w"
  "\<And>a b c d e f w. ids (snd (do_exchange_declare a b c d e f w)) = ids w"
  "\<And>a w. ids (snd (receive_exchange_delete_ok a w)) = ids w"
  "\<And>a b c w. ids (snd (exchange_delete a b c w)) = ids w"
  "\<And>a w. ids (snd (receive_exchange_bind_ok a w)) = ids w"
  "\<And>a b c d e f w. ids (snd (exchange_bind a b c d e f w)) = ids w"
  "\<And>a w. ids (snd (receive_exchange_unbind_ok a w)) = ids w"
  "\<And>a b c d e f w. ids (snd (exchange_unbind a b c d e f w)) = ids w"
  "\<And>a b c d w. ids (snd (receive_queue_declare_ok a b c d w)) = ids w"
  "\<And>a b c d w. ids (snd (queue_declare a b c d w)) = ids w"
  "\<And>a w. ids (snd (receive_queue_bind_ok a w)) = ids w"
  "\<And>a b c d e f w. ids (snd (queue_bind a b c d e f w)) = ids w"
  "\<And>a b c w. ids (snd (queue_purge a b c w)) = ids w"
  "\<And>a b w. ids (snd (receive_queue_purge_ok a b w)) = ids w"
  "\<And>a b w. ids (snd (receive_queue_delete_ok a b w)) = ids w"
  "\<And>a b c w. ids (snd (queue_delete a b c w)) = ids w"
  "\<And>a b c d e w. ids (snd (queue_unbind a b c d e w)) = ids w"
  "\<And>a w. ids (snd (receive_queue_unbind_ok a w)) = ids w"
  by (simp_all add: receive_exchange_declare_ok_def do_exchange_declare_def receive_exchange_delete_ok_def
      exchange_delete_def receive_exchange_bind_ok_def exchange_bind_def receive_exchange_unbind_ok_def
      exchange_unbind_def receive_queue_declare_ok_def queue_declare_def receive_queue_bind_ok_def
      queue_bind_def queue_purge_def receive_queue_purge_ok_def receive_queue_delete_ok_def queue_delete_def
      queue_unbind_def receive_queue_unbind_ok_def split_beta Let_def
      split: option.split sum.split)

lemma ids_tx [simp]:
  "\<And>a w. ids (snd (tx_select a w)) = ids w"
  "\<And>a w. ids (snd (receive_tx_select_ok a w)) = ids w"
  "\<And>a w. ids (snd (tx_commit a w)) = ids w"
  "\<And>a w. ids (snd (receive_tx_commit_ok a w)) = ids w"
  "\<And>a w. ids (snd (tx_rollback a w)) = ids w"
  "\<And>a w. ids (snd (receive_tx_rollback_ok a w)) = ids w"
  "\<And>a b w. ids (snd (confirm_select a b w)) = ids w"
  "\<And>a w. ids (snd (receive_confirm_select_ok a w)) = ids w"
  "\<And>a b w. ids (snd (unexpected_method a b w)) = ids w"
  by (simp_all add: tx_select_def receive_tx_select_ok_def tx_commit_def receive_tx_commit_ok_def
      tx_rollback_def receive_tx_rollback_ok_def confirm_select_def receive_confirm_select_ok_def
      unexpected_method_def split_beta Let_def
      split: option.split sum.split)

lemma ids_dispatch [simp]:
  "\<And>a b w. ids (snd (receive_basic a b w)) = ids w"
  "\<And>a b c w. ids (snd (receive_connection a b c w)) = ids w"
  "\<And>a b c w. ids (snd (receive_channel a b c w)) = ids w"
  "\<And>a b w. ids (snd (receive_exchange a b w)) = ids w"
  "\<And>a b w. ids (snd (receive_queue a b w)) = ids w"
  "\<And>a b w. ids (snd (receive_tx a b w)) = ids w"
  by (simp_all add: receive_basic_def receive_connection_def receive_channel_def receive_exchange_def
      receive_queue_def receive_tx_def split_beta Let_def
      split: basic_method.split connection_method.split channel_method.split exchange_method.split
        queue_method.split tx_method.split)

lemma ids_receive_method [simp]:
  "\<And>a b c w. ids (snd (receive_method a b c w)) = ids w"
  by (simp_all add: receive_method_def split_beta Let_def
      split: amqp_class.split access_method.split confirm_method.split)

lemma ids_calls [simp]:
  "\<And>a b c w. ids (snd (channel_close a b c w)) = ids w"
  "\<And>a b c d e w. ids (snd (basic_consume a b c d e w)) = ids w"
  "\<And>a b c w. ids (snd (basic_get a b c w)) = ids w"
  "\<And>a b c d e w. ids (snd (exchange_declare a b c d e w)) = ids w"
  "\<And>a w. ids (snd (wait_for_confirms a w)) = ids w"
  "\<And>a w. ids (snd (returned_after_confirms a w)) = ids w"
  by (simp_all add: channel_close_def basic_consume_def basic_get_def exchange_declare_def
      wait_for_confirms_def returned_after_confirms_def split_beta Let_def
      split: option.split sum.split)

lemma ids_recovery_call [simp]: "ids (snd (recovery_call i s w)) = ids w"
  by (simp add: recovery_call_def split_beta Let_def split: recovery_step.split)

lemma ids_recovery_run [simp]: "ids (snd (recovery_run i ss w)) = ids w"
  by (induction ss arbitrary: w) (simp_all add: split_beta Let_def split: option.split call_outcome.split)

lemma ids_start_recovery [simp]: "ids (snd (start_recovery i w)) = ids w"
  by (simp add: start_recovery_def split_beta Let_def split: option.split)

lemma ids_start [simp]:
  "\<And>a w. ids (connection_closer_drop a w) = ids w"
  "\<And>a w. ids (channel_closer_drop a w) = ids w"
  "\<And>a b c w. ids (snd (connection_start a b c w)) = ids w"
  "\<And>w. ids (snd (connection_create_channel w)) = ids w"
  "\<And>a b w. ids (snd (close_application_connection a b w)) = ids w"
  "\<And>a b w. ids (snd (connection_update_application_secret a b w)) = ids w"
  by (simp_all add: connection_closer_drop_def channel_closer_drop_def connection_start_def
      connection_create_channel_def close_application_connection_def connection_update_application_secret_def
      split_beta Let_def
      split: option.split sum.split)

section \<open>The table of the channels\<close>

text \<open>
  What the table consists of: the ids of the channel objects, the entries, the object of channel 0, and whether
  the allocator hands out 0.  With it go the commands that start the heartbeat and the tasks that refresh
  the secret.
\<close>

definition shape ::
  "channel_id list \<times> 'a rpc_state_ext channels_state_ext \<times> internal_command option list
    \<Rightarrow> channel_id list \<times> (channel_id \<times> nat) list \<times> nat \<times> bool \<times> internal_command option list \<times> nat list" where
  "shape x = (let w = world.extend undefined (fst (snd x))
    in (fst x, cs_channels w, cs_channel0 w, ids_allow_zero (cs_ids w), snd (snd x), rpc_secret_tasks w))"

abbreviation table ::
  "'a rpc_state_scheme \<Rightarrow> channel_id list \<times> (channel_id \<times> nat) list \<times> nat \<times> bool \<times> internal_command option list \<times> nat list" where
  "table w \<equiv> shape (ids w)"

lemma table_eq:
  "table w = (map ch_id (chan_objs w), cs_channels w, cs_channel0 w, ids_allow_zero (cs_ids w),
    filter starts_heartbeat (rpc w), rpc_secret_tasks w)"
  by (cases w) (simp add: shape_def ids_def world.defs)

lemma table_updates [simp]:
  "table (w\<lparr>rpc_status := a\<rparr>) = table w" "table (w\<lparr>rpc_heartbeat := b\<rparr>) = table w" "table (w\<lparr>rpc_secret := c\<rparr>) = table w"
  "table (w\<lparr>rpc_tasks := d\<rparr>) = table w" "table (w\<lparr>rpc_heartbeat_tasks := e\<rparr>) = table w"
  "table (w\<lparr>rpc_delegated := f\<rparr>) = table w"
  by (simp_all add: table_eq)

text \<open>Channel 0 has the id 0, and every entry leads to a channel object with the id of the entry.\<close>

fun well_formed ::
  "channel_id list \<times> (channel_id \<times> nat) list \<times> nat \<times> bool \<times> internal_command option list \<times> nat list \<Rightarrow> bool" where
  "well_formed (xs, cs, z, allow_zero, _, _) \<longleftrightarrow> z < length xs \<and> xs ! z = 0 \<and> \<not> allow_zero \<and> distinct (keys cs)
    \<and> list_all (\<lambda>(c, i). c \<noteq> 0 \<and> i < length xs \<and> xs ! i = c) cs"

subsection \<open>Operations that leave the table alone\<close>

lemma table_with_channel [simp]:
  "(\<And>i w. table (snd (f i w)) = table w) \<Longrightarrow> table (snd (with_channel c f w)) = table w"
  by (simp add: with_channel_def split: option.split)

lemma table_received [simp]:
  "\<And>a b c w. table (snd (channels_receive_method a b c w)) = table w"
  "\<And>a b c d w. table (snd (channels_handle_content_header_frame a b c d w)) = table w"
  "\<And>a b w. table (snd (channels_handle_body_frame a b w)) = table w"
  by (simp_all add: channels_receive_method_def channels_handle_content_header_frame_def channels_handle_body_frame_def)

lemma table_handle_frame [simp]: "table (snd (handle_frame k f w)) = table w"
  by (simp add: handle_frame_def split_beta Let_def split: amqp_frame.split option.split)

lemma table_fold: "(\<And>x w. table (f x w) = table w) \<Longrightarrow> table (fold f xs w) = table w"
  by (induction xs arbitrary: w) simp_all

lemma table_each_channel [simp]: "(\<And>i w. table (f i w) = table w) \<Longrightarrow> table (each_channel f w) = table w"
  by (simp add: each_channel_def table_fold split_beta)

lemma table_fold_recovery:
  "table (snd (fold (\<lambda>(_, i) (e, w). init_recovery i e w) cs x)) = table (snd x)"
  by (induction cs arbitrary: x) (simp_all add: split_beta)

lemma ids_set_conn_state [simp]: "ids (snd (set_conn_state x w)) = ids w"
  by (simp add: set_conn_state_def split_beta Let_def)

lemma table_connection [simp]:
  "\<And>w. table (set_connection_closing w) = table w"
  "\<And>e w. table (set_connection_closed e w) = table w"
  "\<And>w. table (snd (should_init_connection_recovery w)) = table w"
  "\<And>e w. table (set_connection_error e w) = table w"
  "\<And>e w. table (snd (init_connection_recovery e w)) = table w"
  "\<And>e r w. table (init_connection_shutdown e r w) = table w"
  "\<And>w. table (finish_connection_shutdown w) = table w"
  by (simp_all add: set_connection_closing_def set_connection_closed_def should_init_connection_recovery_def
      set_connection_error_def init_connection_recovery_def init_connection_shutdown_def finish_connection_shutdown_def
      split_beta Let_def table_fold_recovery split: option.split)

lemma table_of_call [simp]: "table (snd (of_call k x)) = table (snd x)"
  by (simp add: of_call_def split: prod.split call_outcome.split)

lemma table_recover_channels [simp]: "table (snd (recover_channels is w)) = table w"
proof (induction "is" arbitrary: w)
  case (Cons i "is")
  have "ids (snd (start_recovery i w)) = ids w" by simp
  then show ?case
    by (cases "start_recovery i w") (auto simp: Cons.IH split: recovery_state.split sum.split)
qed simp

lemma table_tasks [simp]:
  "\<And>w. table (snd (channels_start_recovery w)) = table w"
  "\<And>f w. table (snd (run_future f w)) = table w"
  "\<And>n s w. table (set_task n s w) = table w"
  "\<And>j w. table (register_internal_future j w) = table w"
  "\<And>j r w. table (register_internal_future_with_resolver j r w) = table w"
  by (simp_all add: channels_start_recovery_def run_future_def set_task_def register_internal_future_def
      register_internal_future_with_resolver_def split_beta Let_def split: internal_future.split)

lemma table_resume [simp]: "table (snd (resume k v w)) = table w"
proof (cases k)
  case (ContRecovery i ss "is")
  have "ids (snd (recovery_run i ss w)) = ids w" by simp
  then show ?thesis
    by (cases "recovery_run i ss w") (auto simp: resume_def ContRecovery split: recovery_state.split sum.split)
qed (simp_all add: resume_def)

lemma table_settle_task [simp]: "table (settle_task n x) = table (snd x)"
  by (simp add: settle_task_def Let_def split: prod.split progress.split option.split sum.split)

lemma table_run_on_channel [simp]:
  "(\<And>i w. table (snd (f i w)) = table w) \<Longrightarrow> table (snd (run_on_channel c f w)) = table w"
  by (simp add: run_on_channel_def split: sum.split)

lemma table_unless_failed [simp]:
  "(\<And>w. table (snd (f w)) = table w) \<Longrightarrow> table (snd (unless_failed x f w)) = table w"
  by (simp add: unless_failed_def split: option.split sum.split)

subsection \<open>Operations that change the table\<close>

lemma next_id_keeps [simp]: "ids_allow_zero (snd (next_id s)) = ids_allow_zero s"
  by (simp add: next_id_def Let_def)

lemma next_id_not_zero: "\<not> ids_allow_zero s \<Longrightarrow> fst (next_id s) \<noteq> 0"
  by (simp add: next_id_nonzero)

lemma create_loop_fresh:
  assumes "create_loop used first c met s = Some x" "\<not> ids_allow_zero s" "c \<noteq> 0"
  shows "\<not> ids_allow_zero (snd x) \<and> (\<forall>d. fst x = Some d \<longrightarrow> d \<notin> set used \<and> d \<noteq> 0)"
proof -
  have "\<not> ids_allow_zero s \<longrightarrow> c \<noteq> 0 \<longrightarrow> \<not> ids_allow_zero (snd x) \<and> (\<forall>d. fst x = Some d \<longrightarrow> d \<notin> set used \<and> d \<noteq> 0)"
  proof (rule create_loop.raw_induct[OF _ assms(1), where P = "\<lambda>used _ c _ s x. \<not> ids_allow_zero s \<longrightarrow> c \<noteq> 0
      \<longrightarrow> \<not> ids_allow_zero (snd x) \<and> (\<forall>d. fst x = Some d \<longrightarrow> d \<notin> set used \<and> d \<noteq> 0)"], goal_cases)
    case (1 f used first c met s x)
    then show ?case using next_id_not_zero[of s] by (simp split: if_splits) auto
  qed
  then show ?thesis using assms(2,3) by simp
qed

lemma well_formed_create:
  assumes "channels_create w = Some (r, w')" "well_formed (table w)"
  shows "well_formed (table w')"
proof (cases "unat (nc_channel_max (w_negotiated w)) \<le> length (cs_channels w)")
  case True
  then show ?thesis using assms by (auto simp: channels_create_def Let_def table_eq set_max_def)
next
  case False
  define s where "s = set_max (nc_channel_max (w_negotiated w)) (cs_ids w)"
  have s: "\<not> ids_allow_zero (snd (next_id s))" "fst (next_id s) \<noteq> 0"
    using assms(2) next_id_not_zero[of s] by (auto simp: table_eq s_def set_max_def)
  obtain x where x: "create_loop (keys (cs_channels w)) (fst (next_id s)) (fst (next_id s)) False (snd (next_id s)) = Some x"
    using assms(1) False by (auto simp: channels_create_def s_def Let_def split_beta)
  note fresh = create_loop_fresh[OF x s]
  show ?thesis
  proof (cases "fst x")
    case None
    then show ?thesis using assms False x fresh
      by (auto simp: channels_create_def s_def Let_def split_beta table_eq)
  next
    case (Some c)
    obtain i w2 where new: "channel_new c (cs_auto_recover w) (w\<lparr>cs_ids := snd x\<rparr>) = (i, w2)" by fastforce
    have w': "w' = w2\<lparr>cs_channels := AList.update c i (cs_channels w2)\<rparr>"
      using assms(1) False x Some new by (cases x) (simp add: channels_create_def s_def Let_def split_beta)
    have objs: "map ch_id (chan_objs w2) = map ch_id (chan_objs w) @ [c]"
      using new by (auto simp: channel_new_def channel_status_new_def switch_new_def update_rpc_status_def
          rpc_send_def wake_def Let_def)
    have "AList.update c i cs = cs @ [(c, i)]" if "c \<notin> set (keys cs)" for cs
      using that by (induction cs) auto
    then show ?thesis using assms(2) fresh Some objs channel_new_fields[OF new]
      by (auto simp: w' table_eq nth_append list_all_iff)
  qed
qed

lemma well_formed_remove:
  assumes "well_formed (table w)"
  shows "well_formed (table (snd (channels_remove c e w)))"
proof -
  define v where "v = clear_expected_replies c e w"
  have "well_formed (table v)" using assms by (simp add: v_def)
  then show ?thesis
    by (auto simp: channels_remove_def v_def[symmetric] Let_def table_eq list_all_iff AList.distinct_delete mem_delete)
qed

lemma well_formed_run_job: "well_formed (table w) \<Longrightarrow> well_formed (table (snd (run_job j w)))"
  by (cases j) (simp_all add: run_job_def well_formed_remove split_beta Let_def)

lemma poll_task_keeps:
  assumes "\<And>j. P (table (snd (run_job j w)))" "P (table w)"
  shows "P (table (poll_task n w))"
proof (cases "n < length (rpc_tasks w)")
  case True
  then show ?thesis
  proof (cases "task_state (rpc_tasks w ! n)")
    case (TaskWaiting p k)
    obtain r w1 where r: "promise_poll p w = (r, w1)" by fastforce
    have "table (snd (promise_poll p w)) = table w" by simp
    then show ?thesis using True TaskWaiting assms(2) r
      by (auto simp: poll_task_def split: poll.split sum.split)
  qed (use assms in \<open>simp_all add: poll_task_def\<close>)
qed (use assms(2) in \<open>simp add: poll_task_def\<close>)

lemma well_formed_poll_task: "well_formed (table w) \<Longrightarrow> well_formed (table (poll_task n w))"
  by (simp add: poll_task_keeps[where P = well_formed] well_formed_run_job)

lemma table_when_channel_ok:
  "when_channel_ok c f w = Some w' \<Longrightarrow> (\<And>w. table (f w) = table w) \<Longrightarrow> table w' = table w"
  by (auto simp: when_channel_ok_def)

lemma table_run_command:
  assumes "run_command now cmd w = Some w'" "\<nexists>r. cmd = CmdCreateChannel r" "\<not> starts_heartbeat (Some cmd)"
  shows "table w' = table w"
  using assms
  by (cases cmd) (auto simp: run_command_def split_beta Let_def split: option.split sum.split
      dest!: table_when_channel_ok)

lemma well_formed_run_command:
  assumes "run_command now cmd w = Some w'" "well_formed (table w)"
  shows "well_formed (table w')"
proof (cases "(\<exists>r. cmd = CmdCreateChannel r) \<or> starts_heartbeat (Some cmd)")
  case True
  then show ?thesis
  proof
    assume "\<exists>r. cmd = CmdCreateChannel r"
    then show ?thesis using assms well_formed_create[of w] by (auto simp: run_command_def split: sum.split)
  next
    assume "starts_heartbeat (Some cmd)"
    then show ?thesis using assms by (cases cmd) (auto simp: run_command_def table_eq wake_def Let_def)
  qed
next
  case False
  then show ?thesis using table_run_command[OF assms(1)] assms(2) by simp
qed

lemma well_formed_rpc [simp]: "well_formed (table (w\<lparr>rpc := cs\<rparr>)) = well_formed (table w)"
  by (simp add: table_eq)

lemma well_formed_rpc_turn:
  "rpc_turn now w = Some w' \<Longrightarrow> well_formed (table w) \<Longrightarrow> well_formed (table w')"
  using well_formed_run_command[of now _ "w\<lparr>rpc := cs\<rparr>" for cs]
  by (auto simp: rpc_turn_def simp del: well_formed.simps split: list.splits option.splits)

subsection \<open>The thread\<close>

lemma ids_io [simp]:
  "\<And>s w. ids (snd (poll_events s w)) = ids w"
  "\<And>s w. ids (snd (poll_socket_events s w)) = ids w"
  "\<And>r s w. ids (snd (snd (handle_io_result r s w))) = ids w"
  "\<And>e s w. ids (snd (clear_serialized_frames e s w)) = ids w"
  "\<And>e x w. ids (retry x w) = ids w"
  by (simp_all add: poll_events_def poll_socket_events_def handle_io_result_def clear_serialized_frames_def retry_def
      split_beta Let_def split: sum.split)

lemma ids_account [simp]: "ids (snd (account n xs w)) = ids w"
  by (induction n xs w rule: account.induct) auto

lemma table_critical_error [simp]: "table (snd (snd (critical_error e s w))) = table w"
  by (simp add: critical_error_def split_beta Let_def split: option.split)

lemma table_handle_result [simp]: "table (snd (snd (io_handle_result r s w))) = table w"
proof -
  have "ids (snd (snd (handle_io_result r (io_socket s) w))) = ids w" by simp
  then show ?thesis
    by (cases "handle_io_result r (io_socket s) w") (auto simp: io_handle_result_def split: sum.split)
qed

lemma table_attempt_flush [simp]: "table (snd (snd (attempt_flush socket s w))) = table w"
  by (simp add: attempt_flush_def split_beta Let_def)

text \<open>The setup after the handshake starts the heartbeat, and with it the refresh of the secret, unless none was negotiated.\<close>

definition kept :: "'a rpc_state_scheme \<Rightarrow> 'a rpc_state_scheme \<Rightarrow> bool" where
  "kept w w' \<longleftrightarrow> well_formed (table w') = well_formed (table w)
    \<and> (nc_heartbeat (w_negotiated w) = 0 \<longrightarrow> table w' = table w)"

lemma kept_table: "table w' = table w \<Longrightarrow> kept w w'"
  by (simp add: kept_def)

lemma kept_setup: "ensure_setup throttles s w = Some (b, s', w') \<Longrightarrow> kept w w'"
  by (auto simp: ensure_setup_def finish_setup_def kept_def table_eq rpc_send_def wake_def Let_def bind_eq_Some_conv
      split: io_status.splits if_splits)

lemma ids_socket_wait: "socket_wait s w = Some (s', w') \<Longrightarrow> ids w' = ids w"
  by (auto simp: socket_wait_def split: list.splits)

lemma table_serialize: "io_serialize g s w = Some x \<Longrightarrow> table (snd (snd x)) = table w"
proof (induction g s w rule: io_serialize.induct)
  case (1 g s w)
  obtain r w1 where pop: "pop (channels_flow w) w = (r, w1)" by fastforce
  have "ids (snd (pop (channels_flow w) w)) = ids w" by simp
  then have w1: "ids w1 = ids w" by (simp add: pop)
  show ?case
  proof (cases r)
    case None
    then show ?thesis using 1(2) pop w1 by (subst (asm) io_serialize.simps) auto
  next
    case (Some y)
    from 1(2) show ?thesis
      using pop w1 Some 1(1)[OF pop[symmetric] Some refl]
      by (subst (asm) io_serialize.simps) (auto simp: Let_def split: option.splits sum.splits gen_error.splits)
  qed
qed

lemma table_write_to_stream:
  assumes "write_to_stream now socket g s w = Some x"
  shows "table (snd (snd x)) = table w"
proof -
  have "table (snd (account n xs (v\<lparr>rpc_heartbeat := b\<rparr>))) = table v" for n xs b and v :: "'a rpc_state_scheme"
    by simp
  then have account: "table y = table v" if "account n xs (v\<lparr>rpc_heartbeat := b\<rparr>) = (ys, y)"
    for n xs b ys y and v :: "'a rpc_state_scheme"
    using that by (metis snd_conv)
  obtain r s1 where f: "io_flush socket s = (r, s1)" by fastforce
  show ?thesis
  proof (cases r)
    case (Inl e)
    then show ?thesis using assms f by (auto simp: write_to_stream_def)
  next
    case (Inr u)
    obtain r2 s2 w2 where i: "io_serialize g s1 w = Some (r2, s2, w2)"
      using assms f Inr by (auto simp: write_to_stream_def split: option.splits)
    from table_serialize[OF i] have w2: "table w2 = table w" by simp
    show ?thesis using assms f Inr i w2
      by (auto simp: write_to_stream_def Let_def split_beta account split: sum.splits poll.splits if_splits)
  qed
qed

lemma table_write:
  assumes "io_write now socket g s w = Some x"
  shows "table (snd (snd x)) = table w"
proof (rule io_write.raw_induct[OF _ assms, where P = "\<lambda>_ _ _ _ w x. table (snd (snd x)) = table w"], goal_cases)
  case (1 f now socket g s w x)
  show ?case
  proof (cases "can_write s w")
    case True
    then obtain r s1 w1 where p: "write_to_stream now socket g s w = Some (r, s1, w1)"
      using 1(2) by (auto simp: bind_eq_Some_conv)
    obtain r2 s2 w2 where h: "io_handle_result r s1 w1 = (r2, s2, w2)" by (metis prod_cases3)
    have "table w2 = table w"
      using table_write_to_stream[OF p] table_handle_result[of r s1 w1] by (simp add: h)
    then show ?thesis using 1 p True h by (cases r2) auto
  qed (use 1 in auto)
qed

lemma table_parse:
  assumes "io_parse p base s w = Some x"
  shows "table (snd (snd x)) = table w"
proof (cases "p (parsing_context_of base (io_receive s))")
  case (Parsed pc f)
  define n y where "n = offset base pc (io_receive s)"
    and "y = (if unat (nc_frame_max (w_negotiated w)) > 0 \<and> n > unat (nc_frame_max (w_negotiated w))
      then (case report_protocol_violation (cs_channel0 w)
          \<lparr>ae_kind = frame_error, ae_message = ''frame too large: '' @ show_nat n @ '' bytes''\<rparr> 0 0 w of
          (Inl e, w1) \<Rightarrow> critical_error e s w1
        | (Inr _, w1) \<Rightarrow> (Inr (), s, w1))
      else (Inr (), s, w))"
  have y: "table (snd (snd y)) = table w" unfolding y_def by (simp add: split_beta split: sum.split)
  have "io_parse p base s w = (case y of (r, s1, w1) \<Rightarrow> (case r of
      Inl e \<Rightarrow> Some (Inl e, s1, w1)
    | Inr () \<Rightarrow> map_option (\<lambda>(_, b). (Inr (Some f), s1\<lparr>io_receive := b\<rparr>, w1)) (consume n (io_receive s1))))"
    unfolding io_parse_def Parsed y_def n_def Let_def parsed.case by (rule refl)
  then have x: "Some x = (case y of (r, s1, w1) \<Rightarrow> (case r of
      Inl e \<Rightarrow> Some (Inl e, s1, w1)
    | Inr () \<Rightarrow> map_option (\<lambda>(_, b). (Inr (Some f), s1\<lparr>io_receive := b\<rparr>, w1)) (consume n (io_receive s1))))"
    using assms by (rule trans[OF sym, rotated])
  obtain r s1 w1 where "y = (r, s1, w1)" by (rule prod_cases3)
  with x y show ?thesis by (cases r) (auto simp: map_option_case split: option.splits unit.splits)
next
  case Incomplete
  then show ?thesis using assms by (auto simp: io_parse_def)
next
  case (Unparsable e)
  then show ?thesis using assms by (auto simp: io_parse_def)
qed

lemma table_handle_frames:
  assumes "handle_frames k p base d s w = Some x"
  shows "table (snd (snd x)) = table w"
proof (rule handle_frames.raw_induct[OF _ assms, where P = "\<lambda>_ _ _ _ _ w x. table (snd (snd x)) = table w"], goal_cases)
  case (1 f k p base d s w x)
  show ?case
  proof (cases "can_parse s")
    case True
    then obtain r s1 w1 where q: "io_parse p base s w = Some (r, s1, w1)" using 1(2) by (auto simp: bind_eq_Some_conv)
    have w1: "table w1 = table w" using table_parse[OF q] by simp
    have handled: "table (snd (handle_frame k y w1)) = table w" for y by (simp add: w1)
    show ?thesis
    proof (cases "\<exists>y. r = Inr (Some y)")
      case False
      then show ?thesis using 1(2) q True w1 by (auto split: sum.splits option.splits)
    next
      case t: True
      then obtain y where y: "r = Inr (Some y)" by blast
      obtain r2 w2 where h: "handle_frame k y w1 = (r2, w2)" by fastforce
      then show ?thesis using 1 q True y handled[of y] by (cases r2) auto
    qed
  qed (use 1 in auto)
qed

lemma table_half_closed [simp]: "table (snd (snd (handle_half_closed_connection s w))) = table w"
proof -
  have "ids (snd (snd (handle_io_result (Inl (error_of (IOError ConnectionAborted))) (io_socket s) w))) = ids w"
    by simp
  then show ?thesis
    by (cases "handle_io_result (Inl (error_of (IOError ConnectionAborted))) (io_socket s) w")
       (auto simp: handle_half_closed_connection_def split: sum.split)
qed

lemma table_read_from_stream:
  assumes "read_from_stream k now socket p base s w = Some x"
  shows "table (snd (snd x)) = table w"
proof -
  define q where "q = socket (io_polls s)"
  obtain r b where r: "poll_read_from (sp_read q) (sp_read_vectored q) (io_receive s) = (r, b)" by fastforce
  define s1 where "s1 = s\<lparr>io_polls := Suc (io_polls s), io_receive := b\<rparr>"
  have frames: "\<And>x. handle_frames k p base False (s1\<lparr>io_half_closed := True\<rparr>) w = Some x \<Longrightarrow> table (snd (snd x)) = table w"
    by (rule table_handle_frames)
  note unfold = read_from_stream_def q_def[symmetric] r s1_def[symmetric]
  show ?thesis
    using assms frames
    by (cases "cn_state (w_conn_status w)"; cases r)
       (auto simp: unfold map_option_case split: option.splits sum.splits if_splits prod.splits)
qed

lemma table_read:
  assumes "io_read k now socket p base s w = Some x"
  shows "table (snd (snd x)) = table w"
proof (rule io_read.raw_induct[OF _ assms, where P = "\<lambda>_ _ _ _ _ _ w x. table (snd (snd x)) = table w"], goal_cases)
  case (1 f k now socket p base s w x)
  show ?case
  proof (cases "can_read s")
    case True
    then obtain r s1 w1 where q: "read_from_stream k now socket p base s w = Some (r, s1, w1)"
      using 1(2) by (auto simp: bind_eq_Some_conv)
    obtain r2 s2 w2 where h: "io_handle_result (map_sum id (\<lambda>_. ()) r) s1 w1 = (r2, s2, w2)" by (metis prod_cases3)
    have w1: "table w1 = table w" using table_read_from_stream[OF q] by simp
    then have "table w2 = table w" using table_handle_result[of "map_sum id (\<lambda>_. ()) r" s1 w1] by (simp add: h)
    then show ?thesis using 1 q True h w1 by (cases r2) (auto split: if_splits)
  qed (use 1 in auto)
qed

lemma table_after_write:
  assumes "Option.bind (if c then io_read k now socket p base s w else Some (Inr (), s, w)) (\<lambda>(r9, s9, w9).
      case r9 of
        Inl e \<Rightarrow> Some (Inl e, s9, w9)
      | Inr _ \<Rightarrow>
          map_option (\<lambda>(r, s10, w10).
            (case r of Inl e \<Rightarrow> (Inl e, s10, w10) | Inr _ \<Rightarrow> (Inr (), check_connection_state s10 w10, w10)))
            (handle_frames k p base False s9 w9)) = Some x"
  shows "table (snd (snd x)) = table w"
proof -
  obtain r9 s9 w9 where 9: "(if c then io_read k now socket p base s w else Some (Inr (), s, w)) = Some (r9, s9, w9)"
    using assms by (auto simp: bind_eq_Some_conv)
  have w9: "table w9 = table w" using 9 table_read[of k now socket p base s w] by (fastforce split: if_splits)
  show ?thesis
  proof (cases r9)
    case (Inl e)
    then show ?thesis using assms 9 w9 by auto
  next
    case (Inr u)
    then obtain r10 s10 w10 where "handle_frames k p base False s9 w9 = Some (r10, s10, w10)"
      and "x = (case r10 of Inl e \<Rightarrow> (Inl e, s10, w10) | Inr _ \<Rightarrow> (Inr (), check_connection_state s10 w10, w10))"
      using assms 9 by auto
    then show ?thesis using table_handle_frames[of k p base False s9 w9] w9 by (auto split: sum.split)
  qed
qed

lemma kept_io_run:
  assumes "io_run env s w = Some x"
  shows "kept w (snd (snd x))"
proof -
  have poll: "table v' = table v" if "poll_socket_events s v = (s', v')" for s s' v' and v :: "'a rpc_state_scheme"
    using arg_cong[OF that, of "\<lambda>x. table (snd x)"] by simp
  obtain s1 w1 where 1: "poll_socket_events s w = (s1, w1)" by fastforce
  from assms obtain p s2 w2 where 2: "ensure_setup (env_throttles env) s1 w1 = Some (p, s2, w2)"
    by (auto simp: io_run_def 1 bind_eq_Some_conv)
  have "w_negotiated w1 = w_negotiated w" using 1 by (auto simp: poll_socket_events_def poll_events_def)
  then have k: "kept w w2" using kept_setup[OF 2] poll[OF 1] by (simp add: kept_def)
  have "table (snd (snd x)) = table w2"
  proof (cases p)
    case False
    then show ?thesis using assms by (auto simp: io_run_def 1 2)
  next
    case True
    define s3 where "s3 = check_connection_state s2 w2"
    obtain s4 w4 where 4: "(if \<not> can_read s3 \<and> \<not> can_write s3 w2 \<and> should_continue s3 w2
        then map_option (\<lambda>(k, w3). (s3\<lparr>io_socket := k\<rparr>, w3)) (socket_wait (io_socket s3) w2) else Some (s3, w2)) = Some (s4, w4)"
      using assms True by (auto simp: io_run_def 1 2 s3_def[symmetric] bind_eq_Some_conv)
    obtain s5 w5 where 5: "poll_socket_events s4 w4 = (s5, w5)" by fastforce
    obtain r6 s6 w6 where 6: "attempt_flush (env_socket env) s5 w5 = (r6, s6, w6)" by (metis prod_cases3)
    have "table w4 = table w2" using 4 ids_socket_wait[of "io_socket s3" w2] by (auto split: if_splits)
    then have w6: "table w6 = table w2"
      using poll[OF 5] arg_cong[OF 6, of "\<lambda>x. table (snd (snd x))"] by simp
    note run = assms[unfolded io_run_def 1 prod.case Let_def 2 Option.bind.simps, folded s3_def]
    show ?thesis
    proof (cases r6)
      case (Inl e)
      then show ?thesis using run w6 by (auto simp: True 4 5 6)
    next
      case (Inr u)
      with run obtain r7 s7 w7 where 7: "io_write (env_now env) (env_socket env) (env_gen env) s6 w6 = Some (r7, s7, w7)"
        by (auto simp: True 4 5 6 bind_eq_Some_conv)
      have w7: "table w7 = table w2" using table_write[OF 7] w6 by simp
      note after = table_after_write[of _ "env_error_kind env" "env_now env" "env_socket env"
          "env_parse env" "env_base env" "check_connection_state s7 w7" w7 x]
      show ?thesis using run 7 Inr after w7 by (cases r7) (auto simp: True 4 5 6)
    qed
  qed
  with k show ?thesis by (simp add: kept_def)
qed

lemma table_end_session: "table (snd (snd (end_session res s w))) = table w"
  by (simp add: end_session_def next_attempt_def io_exit_def split_beta Let_def split: list.split)

lemma kept_thread_step:
  assumes "io_thread_step env connected (ph, s, w) = Some x"
  shows "kept w (snd (snd x))"
proof (cases ph)
  case PhConnect
  then show ?thesis using assms by (auto simp: io_thread_step_def intro: kept_table split: sum.splits)
next
  case (PhEnded res)
  then show ?thesis using assms by (auto simp: io_thread_step_def intro: kept_table)
next
  case (PhLoop res)
  show ?thesis
  proof (cases "should_continue s w")
    case False
    then show ?thesis using assms PhLoop by (auto simp: io_thread_step_def intro: kept_table table_end_session)
  next
    case True
    then obtain r s1 w1 where run: "io_run env s w = Some (r, s1, w1)"
      using assms PhLoop by (auto simp: io_thread_step_def)
    have w1: "kept w w1" using kept_io_run[OF run] by simp
    show ?thesis
    proof (cases r)
      case (Inr u)
      then show ?thesis using assms True PhLoop run w1 by (auto simp: io_thread_step_def)
    next
      case (Inl e)
      obtain r2 s2 w2 where c: "critical_error e s1 w1 = (r2 :: error + unit, s2, w2)" by (metis prod_cases3)
      have "table w2 = table w1" using arg_cong[OF c, of "\<lambda>x. table (snd (snd x))"] by simp
      then have "kept w w2" using w1 by (simp add: kept_def)
      moreover have "kept w y" if "kept w v" "table y = table v" for v y using that by (simp add: kept_def)
      ultimately show ?thesis using assms True PhLoop run Inl c table_end_session[of r2 s2 w2]
        by (auto simp: io_thread_step_def split: if_splits)
    qed
  qed
qed

section \<open>Every run keeps the table well formed\<close>

text \<open>The states that the client reaches, with no bound on the frames.\<close>

inductive client_reaches :: "io_env \<Rightarrow> client \<Rightarrow> bool" for env where
  reaches_start: "connector now throttles cfg status = (r, x) \<Longrightarrow> client_reaches env x"
| reaches_step: "client_reaches env x \<Longrightarrow> client_step env x y \<Longrightarrow> client_reaches env y"

lemma table_application_call: "application_call f \<Longrightarrow> table (f w) = table w"
  by (induction rule: application_call.induct) simp_all

lemma client_step_cases:
  assumes "client_step env x y"
  obtains "kept (snd (snd x)) (snd (snd y))"
  | now where "rpc_turn now (snd (snd x)) = Some (snd (snd y))"
  | n where "snd (snd y) = poll_task n (snd (snd x))"
  using assms
proof cases
  case (step_thread now connected ph s w)
  then show ?thesis using kept_thread_step[OF step_thread(2)] that(1) by simp
next
  case (step_command now w w' ph s)
  then show ?thesis using that(2) by simp
next
  case (step_task ph s w n)
  then show ?thesis using that(3) by simp
next
  case (step_heartbeat k w now d b w' ph s)
  have "ids w' = ids w" using arg_cong[OF step_heartbeat(4), of "\<lambda>x. ids (snd (snd x))"] by simp
  then show ?thesis using step_heartbeat(1,2) that(1) by (simp add: kept_table)
next
  case (step_secret w refreshed d w' ph s)
  have "ids w' = ids w" using arg_cong[OF step_secret(4), of "\<lambda>x. ids (snd x)"] by simp
  then show ?thesis using step_secret(1,2) that(1) by (simp add: kept_table)
next
  case (step_application f ph s w)
  then show ?thesis using table_application_call[of f w] that(1) by (simp add: kept_table)
qed

lemma well_formed_step:
  assumes "client_step env x y" "well_formed (table (snd (snd x)))"
  shows "well_formed (table (snd (snd y)))"
  using assms(1)
  by (cases rule: client_step_cases) (use assms(2) in \<open>auto simp: kept_def dest: well_formed_rpc_turn well_formed_poll_task\<close>)

lemma well_formed_start:
  assumes "connector now throttles cfg status = (r, ph, s, w)"
  shows "well_formed (table w)"
proof -
  let ?v = "client_new now cfg status"
  have "\<not> ids_allow_zero (cs_ids ?v)"
    by (simp add: client_new_def channels_new_def id_sequence_new_def Let_def split_beta)
  then have "well_formed (table ?v)"
    using client_new_simps(1,2,3,6)[of now cfg status] by (simp add: table_eq chan_def)
  moreover have "w = snd (connection_start False (connection_of cfg) (cs_channel0 (wake ?v)) (wake ?v))"
    using assms by (auto simp: connector_def Let_def split: prod.splits)
  then have "table w = table ?v" by simp
  ultimately show ?thesis by simp
qed

lemma reaches_well_formed: "client_reaches env x \<Longrightarrow> well_formed (table (snd (snd x)))"
proof (induction rule: client_reaches.induct)
  case (reaches_start now throttles cfg status r x)
  then show ?case using well_formed_start by (cases x) fastforce
next
  case (reaches_step x y)
  then show ?case using well_formed_step by blast
qed

text \<open>
  C6: the table of the channels is well typed in every state that the client reaches, whatever the order of the
  steps of its parts, and across reconnections: an id of the table leads to an existing channel object that
  has this id, 0 leads to channel 0, and no id has two entries.
\<close>

theorem client_table_typed:
  assumes "client_reaches env (ph, s, w)"
  shows "wf_map (cs_channels w)
    \<and> (\<forall>c i. channels_get c w = Some i \<longrightarrow> i < length (chan_objs w) \<and> ch_id (chan i w) = c)"
proof -
  have "well_formed (table w)" using reaches_well_formed[OF assms] by simp
  then show ?thesis
    by (auto simp: table_eq wf_map_def channels_get_def chan_def list_all_iff dest!: map_of_SomeD split: if_splits)
qed

theorem client_table_typed_witness:
  "case snd (connector 0 [] example_configuration connection_status_default) of (ph, s, w) \<Rightarrow>
    client_reaches example_env (ph, s, w) \<and> channels_get 0 w = Some 0 \<and> 0 < length (chan_objs w) \<and> ch_id (chan 0 w) = 0"
proof -
  obtain r ph s w where c: "connector 0 [] example_configuration connection_status_default = (r, ph, s, w)" by (metis prod_cases4)
  have run: "client_reaches example_env (ph, s, w)" by (rule reaches_start[OF c])
  let ?v = "wake (client_new 0 example_configuration connection_status_default)"
  have "w = snd (connection_start False (connection_of example_configuration) (cs_channel0 ?v) ?v)"
    using c by (auto simp: connector_def Let_def split: prod.splits)
  then have "table w = table (client_new 0 example_configuration connection_status_default)" by simp
  then have "channels_get 0 w = Some 0" by (simp add: table_eq channels_get_def)
  with run client_table_typed[OF run] show ?thesis by (auto simp: c)
qed

section \<open>The refresh of the secret\<close>

text \<open>No command waits to start the heartbeat, and no task refreshes the secret.\<close>

fun unarmed ::
  "channel_id list \<times> (channel_id \<times> nat) list \<times> nat \<times> bool \<times> internal_command option list \<times> nat list \<Rightarrow> bool" where
  "unarmed (_, _, _, _, cs, ts) \<longleftrightarrow> cs = [] \<and> ts = []"

lemma unarmed_create:
  assumes "channels_create w = Some (r, w')" "unarmed (table w)"
  shows "unarmed (table w')"
proof -
  have new: "rpc_secret_tasks (snd (channel_new c b v)) = rpc_secret_tasks v"
    "filter starts_heartbeat (rpc (snd (channel_new c b v))) = filter starts_heartbeat (rpc v)" for c b and v :: "'a rpc_state_scheme"
    by (simp_all add: channel_new_def channel_status_new_def switch_new_def update_rpc_status_def rpc_send_def wake_def Let_def)
  show ?thesis using assms new
    by (auto simp: channels_create_def table_eq Let_def split_beta split: if_splits option.splits)
qed

lemma unarmed_remove: "unarmed (table w) \<Longrightarrow> unarmed (table (snd (channels_remove c e w)))"
proof -
  define v where "v = clear_expected_replies c e w"
  assume "unarmed (table w)"
  then have "unarmed (table v)" by (simp add: v_def)
  then show ?thesis by (auto simp: channels_remove_def v_def[symmetric] Let_def table_eq)
qed

lemma unarmed_run_job: "unarmed (table w) \<Longrightarrow> unarmed (table (snd (run_job j w)))"
  by (cases j) (simp_all add: run_job_def unarmed_remove split_beta Let_def)

lemma unarmed_poll_task: "unarmed (table w) \<Longrightarrow> unarmed (table (poll_task n w))"
  by (simp add: poll_task_keeps[where P = unarmed] unarmed_run_job)

lemma unarmed_rpc_turn:
  assumes "rpc_turn now w = Some w'" "unarmed (table w)"
  shows "unarmed (table w')"
proof (cases "rpc w")
  case (Cons x cs)
  show ?thesis
  proof (cases x)
    case (Some cmd)
    have cmd: "\<not> starts_heartbeat (Some cmd)" "unarmed (table (w\<lparr>rpc := cs\<rparr>))"
      using assms(2) Cons Some by (auto simp: table_eq split: if_splits)
    have run: "run_command now cmd (w\<lparr>rpc := cs\<rparr>) = Some w'"
      using assms(1) Cons Some by (simp add: rpc_turn_def)
    show ?thesis
    proof (cases "\<exists>r. cmd = CmdCreateChannel r")
      case True
      then show ?thesis using run cmd(2) unarmed_create[of "w\<lparr>rpc := cs\<rparr>"]
        by (auto simp: run_command_def split: sum.split)
    next
      case False
      then show ?thesis using table_run_command[OF run False cmd(1)] cmd(2) by simp
    qed
  qed (use assms Cons in \<open>simp add: rpc_turn_def\<close>)
qed (use assms in \<open>simp add: rpc_turn_def\<close>)

lemma unarmed_step:
  assumes "client_step env x y" "unarmed (table (snd (snd x)))" "nc_heartbeat (w_negotiated (snd (snd x))) = 0"
  shows "unarmed (table (snd (snd y)))"
  using assms(1)
  by (cases rule: client_step_cases) (use assms(2,3) in \<open>auto simp: kept_def dest: unarmed_rpc_turn unarmed_poll_task\<close>)

text \<open>The runs in which no heartbeat is negotiated.\<close>

inductive no_heartbeat_run :: "io_env \<Rightarrow> client \<Rightarrow> bool" for env where
  silent_start: "connector now throttles cfg status = (r, x) \<Longrightarrow> nc_heartbeat (w_negotiated (snd (snd x))) = 0
    \<Longrightarrow> no_heartbeat_run env x"
| silent_step: "no_heartbeat_run env x \<Longrightarrow> client_step env x y \<Longrightarrow> nc_heartbeat (w_negotiated (snd (snd y))) = 0
    \<Longrightarrow> no_heartbeat_run env y"

lemma unarmed_start:
  assumes "connector now throttles cfg status = (r, ph, s, w)"
  shows "unarmed (table w)"
proof -
  let ?v = "client_new now cfg status"
  have "rpc_secret_tasks ?v = []"
    by (simp add: client_new_def channels_new_def channel_new_def channel_status_new_def switch_new_def heartbeat_new_def
        update_rpc_status_def rpc_send_def wake_def channel_set_state_def update_status_def update_chan_def Let_def split_beta heap.defs)
  then have "unarmed (table ?v)" by (simp add: table_eq)
  moreover have "w = snd (connection_start False (connection_of cfg) (cs_channel0 (wake ?v)) (wake ?v))"
    using assms by (auto simp: connector_def Let_def split: prod.splits)
  then have "table w = table ?v" by simp
  ultimately show ?thesis by simp
qed

text \<open>
  C39: the refresh of the secret is started together with the heartbeat, and only then.  When no heartbeat is
  negotiated, no task refreshes the secret in any state of the client, whatever the authentication provider says
  about the validity of its tokens.
\<close>

theorem no_heartbeat_no_refresh:
  assumes "no_heartbeat_run env (ph, s, w)"
  shows "rpc_secret_tasks w = []"
proof -
  have "unarmed (table (snd (snd x))) \<and> nc_heartbeat (w_negotiated (snd (snd x))) = 0" if "no_heartbeat_run env x" for x
    using that
  proof induction
    case (silent_start now throttles cfg status r x)
    then show ?case using unarmed_start by (cases x) fastforce
  next
    case (silent_step x y)
    then show ?case using unarmed_step by blast
  qed
  from this[OF assms] show ?thesis by (simp add: table_eq)
qed

theorem no_heartbeat_no_refresh_witness:
  "case snd (connector 0 [] example_configuration connection_status_default) of (_, s, w) \<Rightarrow>
    no_heartbeat_run example_env (PhLoop (Inr ()), s\<lparr>io_half_closed := False\<rparr>, w) \<and> rpc_secret_tasks w = []"
proof -
  obtain r ph s w where c: "connector 0 [] example_configuration connection_status_default = (r, ph, s, w)" by (metis prod_cases4)
  have s: "ph = PhConnect" "nc_heartbeat (w_negotiated w) = 0"
    using c connection_start_negotiated[of False "connection_of example_configuration" 0
        "wake (client_new 0 example_configuration connection_status_default)"]
    by (auto simp: connector_def example_configuration_def configuration_new_def negotiated_config_new_def
        wake_def Let_def split: prod.splits)
  have "no_heartbeat_run example_env (ph, s, w)" using silent_start[OF c] s by simp
  moreover have "client_step example_env (ph, s, w) (PhLoop (Inr ()), s\<lparr>io_half_closed := False\<rparr>, w)"
    using step_thread[where env = example_env and connected = "Inr ()" and ph = ph and s = s and w = w] s(1)
    by (simp add: io_thread_step_def)
  ultimately have run: "no_heartbeat_run example_env (PhLoop (Inr ()), s\<lparr>io_half_closed := False\<rparr>, w)"
    using silent_step s(2) by fastforce
  show ?thesis using no_heartbeat_no_refresh[OF run] run by (simp add: c)
qed

end
