(* ===== verification/Handshake.thy ===== *)
theory Handshake
  imports Client
begin

text \<open>
  The handshake that \<^verbatim>\<open>Connection::start\<close> of \<^verbatim>\<open>src/connection.rs\<close> waits for, from the protocol header to the opened
  connection: the methods of the server, the commands and the tasks that they cause, and the frames that
  the client sends.
\<close>

section \<open>A round\<close>

text \<open>The thread writes what is queued, and the senders that wait for it are told.\<close>

definition transmit :: "'a frames_state_scheme \<Rightarrow> amqp_frame list \<times> 'a frames_state_scheme" where
  "transmit w = (map fe_frame (frames_queue w),
    fold (\<lambda>x. sending_resolve (fe_sending x)) (frames_queue w) (w\<lparr>frames_queue := []\<rparr>))"

text \<open>A method of the server arrives; the command that it causes spawns a task, which runs up to its first wait.\<close>

definition server_sends ::
  "(reply_code \<Rightarrow> amqp_error_kind option) \<Rightarrow> nat \<Rightarrow> connection_method \<Rightarrow> 'a rpc_state_scheme
    \<Rightarrow> amqp_frame list \<times> 'a rpc_state_scheme" where
  "server_sends error_kind_of now m w =
    (case rpc_turn now (snd (handle_frame error_kind_of (Method 0 (Connection m)) w)) of
       None \<Rightarrow> ([], w)
     | Some w1 \<Rightarrow> transmit (poll_task (length (rpc_tasks w)) w1))"

primrec secure_rounds ::
  "(reply_code \<Rightarrow> amqp_error_kind option) \<Rightarrow> nat \<Rightarrow> string list \<Rightarrow> 'a rpc_state_scheme
    \<Rightarrow> amqp_frame list \<times> 'a rpc_state_scheme" where
  "secure_rounds error_kind_of now [] w = ([], w)"
| "secure_rounds error_kind_of now (c # cs) w =
    (let (fs, w1) = server_sends error_kind_of now (ConnectionSecure c) w;
         (gs, w2) = secure_rounds error_kind_of now cs w1
     in (fs @ gs, w2))"

definition handshake ::
  "(reply_code \<Rightarrow> amqp_error_kind option) \<Rightarrow> nat \<Rightarrow> string \<Rightarrow> string \<Rightarrow> string list
    \<Rightarrow> channel_id \<Rightarrow> frame_size \<Rightarrow> heartbeat_secs \<Rightarrow> 'a rpc_state_scheme \<Rightarrow> amqp_frame list \<times> 'a rpc_state_scheme" where
  "handshake error_kind_of now mechanisms locales challenges channel_max frame_max heartbeat w =
    (let (f0, w1) = transmit (case rpc_turn now w of Some v \<Rightarrow> v | None \<Rightarrow> w);
         (f1, w2) = server_sends error_kind_of now (ConnectionStart mechanisms locales) w1;
         (f2, w3) = secure_rounds error_kind_of now challenges w2;
         (f3, w4) = server_sends error_kind_of now (ConnectionTune channel_max frame_max heartbeat) w3;
         (f4, w5) = transmit (poll_task (length (rpc_tasks w3)) w4)
     in (f0 @ f1 @ f2 @ f3 @ f4, snd (handle_frame error_kind_of (Method 0 (Connection ConnectionOpenOk)) w5)))"

section \<open>What holds between the rounds\<close>

text \<open>Channel 0 works, nothing is queued, and the caller of \<^verbatim>\<open>connect\<close> waits.\<close>

definition connecting :: "nat \<Rightarrow> connection_status \<Rightarrow> negotiated_config \<Rightarrow> 'a rpc_state_scheme \<Rightarrow> bool" where
  "connecting p s n w \<longleftrightarrow> w_conn_status w = s \<and> cn_state s = CsConnecting \<and> w_negotiated w = n
    \<and> ch_id (chan (cs_channel0 w) w) = 0 \<and> st_connected (chan_status (cs_channel0 w) w)
    \<and> check_poison 0 w = None \<and> rpc w = [] \<and> frames_queue w = []
    \<and> p < length (promises w) \<and> promises w ! p = None"

lemma connecting_channel [simp]:
  "connecting p s n w \<Longrightarrow> ch_id (chan (cs_channel0 w) w) = 0"
  "connecting p s n w \<Longrightarrow> can_receive_messages (chan_status (cs_channel0 w) w)"
  by (simp_all add: connecting_def connected_can_receive)

lemma chan_updates [simp]:
  "chan i (w\<lparr>expected_replies := rs\<rparr>) = chan i w" "chan i (w\<lparr>promises := ps\<rparr>) = chan i w"
  "chan i (w\<lparr>frames_queue := fs\<rparr>) = chan i w" "chan i (w\<lparr>socket_events := es\<rparr>) = chan i w"
  "chan i (w\<lparr>rpc := cs\<rparr>) = chan i w" "chan i (w\<lparr>rpc_tasks := ts\<rparr>) = chan i w"
  "chan i (w\<lparr>w_negotiated := n\<rparr>) = chan i w" "chan i (w\<lparr>w_conn_status := s\<rparr>) = chan i w"
  by (simp_all add: chan_def)

lemma check_poison_updates [simp]:
  "check_poison c (w\<lparr>expected_replies := rs\<rparr>) = check_poison c w" "check_poison c (w\<lparr>promises := ps\<rparr>) = check_poison c w"
  "check_poison c (w\<lparr>frames_queue := fs\<rparr>) = check_poison c w" "check_poison c (w\<lparr>socket_events := es\<rparr>) = check_poison c w"
  "check_poison c (w\<lparr>rpc := cs\<rparr>) = check_poison c w" "check_poison c (w\<lparr>rpc_tasks := ts\<rparr>) = check_poison c w"
  "check_poison c (w\<lparr>w_negotiated := n\<rparr>) = check_poison c w"
  by (simp_all add: check_poison_def split: option.split)

lemma replies_updates [simp]:
  "replies_of c (w\<lparr>expected_replies := AList.update c rs m\<rparr>) = rs" "replies_of c (w\<lparr>promises := ps\<rparr>) = replies_of c w"
  "replies_of c (w\<lparr>frames_queue := fs\<rparr>) = replies_of c w" "replies_of c (w\<lparr>socket_events := es\<rparr>) = replies_of c w"
  "replies_of c (w\<lparr>rpc := cs\<rparr>) = replies_of c w" "replies_of c (w\<lparr>rpc_tasks := ts\<rparr>) = replies_of c w"
  "replies_of c (w\<lparr>w_negotiated := n\<rparr>) = replies_of c w"
  by (simp_all add: replies_of_def update_conv')

lemma connection_step_found:
  assumes "replies_of c w = [ExpectedReply (ReplyConnectionStep st) q]"
  shows "find_connection_step c w = (Some st, w\<lparr>expected_replies := AList.update c [] (expected_replies w)\<rparr>)"
  using assms by (auto simp: find_connection_step_def find_expected_reply_def replies_of_def split: option.splits)

text \<open>A round in which the task of the client sends one more request.\<close>

lemma request_round:
  fixes w :: "'a rpc_state_scheme"
  assumes w: "connecting p s n w"
    and received: "handle_frame error_kind_of (Method 0 (Connection m)) w
      = (Inr (), rpc_spawn f (w\<lparr>expected_replies := AList.update 0 [] (expected_replies w)\<rparr>))"
    and run: "\<And>v :: 'a rpc_state_scheme. run_future f v = of_call ContReturn (awaiting (request (cs_channel0 w) a (\<lambda>_. r) v))"
  shows "\<exists>w'. server_sends error_kind_of now m w = ([Method 0 a], w') \<and> connecting p s n w'
    \<and> (\<exists>q. replies_of 0 w' = [ExpectedReply r q])"
  using w received
  by (simp add: server_sends_def rpc_turn_def rpc_spawn_def rpc_send_def wake_def run_command_def connecting_def
      register_internal_future_def poll_task_def run_job_def run request_effect awaiting_def of_call_def
      settle_task_def set_task_def transmit_def sending_resolve_def nth_append)

section \<open>The rounds of the handshake\<close>

text \<open>What the received methods have in common: they take the step that the client waits for.\<close>

lemmas received_defs = handle_frame_def channels_receive_method_def receive_method_def receive_connection_def
  on_channel0_def assert_channel0_def at_connection_step_def

text \<open>The connection that the client describes to the server.\<close>

definition described :: "connection \<Rightarrow> connection" where
  "described con = con\<lparr>conn_client_properties := start_client_properties (conn_client_properties con)\<rparr>"

lemma start_round:
  assumes w: "connecting p s n w" "replies_of 0 w = [ExpectedReply (ReplyConnectionStep (StepProtocolHeader p con)) q]"
    and "auth_starter (conn_auth_provider con) = Inr response"
  shows "\<exists>w'. server_sends error_kind_of now (ConnectionStart mechanisms locales) w
      = ([Method 0 (Connection (ConnectionStartOk (conn_client_properties (described con))
            (auth_mechanism (conn_auth_provider con)) response (conn_locale con)))], w')
    \<and> connecting p s n w'
    \<and> (\<exists>q. replies_of 0 w' = [ExpectedReply (ReplyConnectionStep (StepStartOk p (described con) (conn_auth_provider con))) q])"
proof (rule request_round[OF w(1)])
  show "handle_frame error_kind_of (Method 0 (Connection (ConnectionStart mechanisms locales))) w
    = (Inr (), rpc_spawn (FutConnectionStartOk (cs_channel0 w) (conn_client_properties (described con))
        (auth_mechanism (conn_auth_provider con)) response (conn_locale con) p (described con) (conn_auth_provider con))
        (w\<lparr>expected_replies := AList.update 0 [] (expected_replies w)\<rparr>))"
    using assms by (simp add: received_defs receive_connection_start_def connection_step_found
        on_connection_start_received_def described_def Let_def connecting_def connected_can_receive)
qed (simp add: run_future_def connection_start_ok_def)

lemma secure_round:
  assumes w: "connecting p s n w" "replies_of 0 w = [ExpectedReply (ReplyConnectionStep st) q]"
    and st: "st = StepStartOk p con auth \<or> st = StepSecureOk p con auth" and "auth_continue auth challenge = Inr response"
  shows "\<exists>w'. server_sends error_kind_of now (ConnectionSecure challenge) w
      = ([Method 0 (Connection (ConnectionSecureOk response))], w') \<and> connecting p s n w'
    \<and> (\<exists>q. replies_of 0 w' = [ExpectedReply (ReplyConnectionStep (StepSecureOk p con auth)) q])"
proof (rule request_round[OF w(1)])
  show "handle_frame error_kind_of (Method 0 (Connection (ConnectionSecure challenge))) w
    = (Inr (), rpc_spawn (FutConnectionSecureOk (cs_channel0 w) response p con auth)
        (w\<lparr>expected_replies := AList.update 0 [] (expected_replies w)\<rparr>))"
    using assms by (auto simp: received_defs receive_connection_secure_def connection_step_found
        on_connection_secure_received_def connecting_def connected_can_receive)
qed (simp add: run_future_def connection_secure_ok_def)

lemma all_secure_rounds:
  assumes "connecting p s n w" "replies_of 0 w = [ExpectedReply (ReplyConnectionStep st) q]"
    and "st = StepStartOk p con auth \<or> st = StepSecureOk p con auth"
    and "\<And>c. c \<in> set challenges \<Longrightarrow> auth_continue auth c = Inr (answer c)"
  shows "\<exists>w' st' q'. secure_rounds error_kind_of now challenges w
      = (map (\<lambda>c. Method 0 (Connection (ConnectionSecureOk (answer c)))) challenges, w')
    \<and> connecting p s n w' \<and> replies_of 0 w' = [ExpectedReply (ReplyConnectionStep st') q']
    \<and> (st' = StepStartOk p con auth \<or> st' = StepSecureOk p con auth)"
  using assms
proof (induction challenges arbitrary: w st q)
  case (Cons c cs)
  obtain w1 q1 where 1: "server_sends error_kind_of now (ConnectionSecure c) w
      = ([Method 0 (Connection (ConnectionSecureOk (answer c)))], w1)" "connecting p s n w1"
    "replies_of 0 w1 = [ExpectedReply (ReplyConnectionStep (StepSecureOk p con auth)) q1]"
    using secure_round[OF Cons.prems(1-3)] Cons.prems(4) by (metis list.set_intros(1))
  from Cons.IH[OF 1(2,3)] Cons.prems(4) 1(1) show ?case by auto
qed auto

text \<open>The answer to the server's limits is a notice; once it is written the task goes on to open the virtual host.\<close>

lemma notice_effect:
  assumes "check_poison (ch_id (chan i w)) w = None"
  shows "notice i m w =
    (length (promises w),
     w\<lparr>promises := promises w @ [None],
       frames_queue := frames_queue w @
         [\<lparr>fe_frame = Method (ch_id (chan i w)) m,
           fe_sending = \<lparr>fs_canceler = Some (length (promises w)), fs_resolver = Some (length (promises w))\<rparr>\<rparr>],
       socket_events := socket_events w @ [SocketWake]\<rparr>)"
  using assms
  by (simp add: notice_def promise_new_def promise_build_def send_method_frame_def send_frame_def push_def
      wake_def frame_entry_new_def frame_sending_new_def Let_def)

lemma tune_round:
  assumes w: "connecting p s n w" "replies_of 0 w = [ExpectedReply (ReplyConnectionStep st) q]"
    and st: "st = StepStartOk p con auth \<or> st = StepSecureOk p con auth"
    and m: "m = tune_connection_configuration channel_max frame_max heartbeat n"
  shows "\<exists>w' q'. server_sends error_kind_of now (ConnectionTune channel_max frame_max heartbeat) w
      = ([Method 0 (Connection (ConnectionTuneOk (nc_channel_max m) (nc_frame_max m) (nc_heartbeat m)))], w')
    \<and> connecting p s m w' \<and> replies_of 0 w' = [] \<and> length (rpc_tasks w') = Suc (length (rpc_tasks w))
    \<and> task_state (rpc_tasks w' ! length (rpc_tasks w)) = TaskWaiting q' (ContOpen (cs_channel0 w') con p)
    \<and> q' < length (promises w') \<and> promises w' ! q' = Some (Inr VUnit) \<and> q' \<noteq> p"
proof -
  have received: "handle_frame error_kind_of (Method 0 (Connection (ConnectionTune channel_max frame_max heartbeat))) w
    = (Inr (), rpc_spawn (FutConnectionTuneOk (cs_channel0 w) p con)
        (w\<lparr>expected_replies := AList.update 0 [] (expected_replies w), w_negotiated := m\<rparr>))"
    using assms by (auto simp: received_defs receive_connection_tune_def connection_step_found
        on_connection_tune_received_def connecting_def connected_can_receive)
  show ?thesis using w(1) received
    by (simp add: server_sends_def rpc_turn_def rpc_spawn_def rpc_send_def wake_def run_command_def connecting_def
        register_internal_future_def poll_task_def run_job_def run_future_def connection_tune_ok_def notice_effect
        awaiting_def of_call_def settle_task_def set_task_def transmit_def sending_resolve_def promise_resolve_def
        promise_complete_def promise_get_def nth_append nth_list_update)
qed

lemma open_round:
  assumes w: "connecting p s n w" "replies_of 0 w = []" "k < length (rpc_tasks w)"
    and task: "task_state (rpc_tasks w ! k) = TaskWaiting q (ContOpen (cs_channel0 w) con p)"
    and q: "q < length (promises w)" "promises w ! q = Some (Inr VUnit)" "q \<noteq> p"
  shows "\<exists>w' r. transmit (poll_task k w) = ([Method 0 (Connection (ConnectionOpen (cn_vhost s)))], w')
    \<and> connecting p s n w' \<and> replies_of 0 w' = [ExpectedReply (ReplyConnectionOpenOk r con p) r] \<and> r \<noteq> p"
  using assms
  by (simp add: poll_task_def promise_poll_def promise_try_wait_def promise_get_def resume_def connection_open_def
      connecting_def request_effect awaiting_def of_call_def settle_task_def set_task_def transmit_def
      sending_resolve_def nth_append nth_list_update)

lemma open_ok_round:
  assumes w: "connecting p s n w" "replies_of 0 w = [ExpectedReply (ReplyConnectionOpenOk r con p) r]" "r \<noteq> p"
  shows "\<exists>w'. handle_frame error_kind_of (Method 0 (Connection ConnectionOpenOk)) w = (Inr (), w')
    \<and> w_conn_status w' = s\<lparr>cn_state := CsConnected\<rparr> \<and> w_negotiated w' = n
    \<and> promise_get p w' = Some (Inr (VConnection con)) \<and> replies_of 0 w' = []"
  using assms
  by (simp add: received_defs receive_connection_open_ok_def receive_reply_def match_only_reply completing_def
      on_connection_open_ok_received_def connecting_def connected_can_receive cn_set_state_def send_event_def
      promise_resolve_def promise_complete_def promise_get_def replies_of_def update_conv' Let_def nth_list_update)

lemma connector_round:
  assumes "connector now throttles cfg status = (Await p, ph, s, w)"
  shows "\<exists>w'. transmit (case rpc_turn now w of Some v \<Rightarrow> v | None \<Rightarrow> w) = ([ProtocolHeader amqp_0_9_1], w')
    \<and> connecting p (status\<lparr>cn_state := CsConnecting, cn_poison := None\<rparr>) (cfg_negotiated cfg) w'
    \<and> (\<exists>q. replies_of 0 w' = [ExpectedReply (ReplyConnectionStep (StepProtocolHeader p (connection_of cfg))) q])"
proof -
  define v where "v = wake (client_new now cfg status)"
  have v: "cs_channel0 v = 0" "ch_id (chan 0 v) = 0" "st_connected (chan_status 0 v)" "expected_replies v = []"
    "frames_queue v = []" "check_poison 0 v = None" "promises v = []" "rpc v = [Some (CmdSetChannelStatus 0 3)]"
    "w_conn_status v = status" "w_negotiated v = cfg_negotiated cfg"
    using client_new_simps[of now cfg status]
    by (simp_all add: v_def wake_def st_connected_def check_poison_def chan_def)
  have start: "connection_start False (connection_of cfg) 0 v = (Await p, w)"
    using assms v(1) by (auto simp: connector_def v_def[symmetric] Let_def split: prod.splits)
  then have "w = wake (v\<lparr>promises := [None], w_conn_status := status\<lparr>cn_state := CsConnecting, cn_poison := None\<rparr>,
      frames_queue := [\<lparr>fe_frame = ProtocolHeader amqp_0_9_1, fe_sending = \<lparr>fs_canceler = Some 0, fs_resolver = None\<rparr>\<rparr>],
      expected_replies := [(0, [ExpectedReply (ReplyConnectionStep (StepProtocolHeader 0 (connection_of cfg))) 0])]\<rparr>)" "p = 0"
    using v by (auto simp: connection_start_def promise_new_def promise_build_def cn_set_connecting_def send_frame_def push_def
        replies_of_def check_poison_def frame_entry_new_def frame_sending_new_def Let_def split: option.splits)
  then show ?thesis using v
    by (simp add: rpc_turn_def run_command_def transmit_def sending_resolve_def connecting_def replies_of_def
        check_poison_def wake_def chan_def split: option.splits)
qed

lemma handshake_result:
  assumes "connector now throttles cfg status = (Await p, ph, s, w)"
    and "auth_starter (cfg_auth_provider cfg) = Inr response"
    and "\<And>c. c \<in> set challenges \<Longrightarrow> auth_continue (cfg_auth_provider cfg) c = Inr (answer c)"
    and "n = tune_connection_configuration channel_max frame_max heartbeat (cfg_negotiated cfg)"
  shows "\<exists>w'. handshake error_kind_of now mechanisms locales challenges channel_max frame_max heartbeat w =
      ([ProtocolHeader amqp_0_9_1,
        Method 0 (Connection (ConnectionStartOk (start_client_properties (cfg_client_properties cfg))
          (auth_mechanism (cfg_auth_provider cfg)) response (cfg_locale cfg)))]
       @ map (\<lambda>c. Method 0 (Connection (ConnectionSecureOk (answer c)))) challenges
       @ [Method 0 (Connection (ConnectionTuneOk (nc_channel_max n) (nc_frame_max n) (nc_heartbeat n))),
          Method 0 (Connection (ConnectionOpen (cn_vhost status)))], w')
    \<and> cn_state (w_conn_status w') = CsConnected \<and> w_negotiated w' = n \<and> replies_of 0 w' = []
    \<and> promise_get p w' = Some (Inr (VConnection (described (connection_of cfg))))"
proof -
  let ?s = "status\<lparr>cn_state := CsConnecting, cn_poison := None\<rparr>" and ?con = "connection_of cfg"
  have con: "conn_auth_provider ?con = cfg_auth_provider cfg" "conn_locale ?con = cfg_locale cfg"
    "conn_client_properties (described ?con) = start_client_properties (cfg_client_properties cfg)"
    by (simp_all add: connection_of_def described_def)
  obtain w1 q1 where 1: "transmit (case rpc_turn now w of Some v \<Rightarrow> v | None \<Rightarrow> w) = ([ProtocolHeader amqp_0_9_1], w1)"
    "connecting p ?s (cfg_negotiated cfg) w1"
    "replies_of 0 w1 = [ExpectedReply (ReplyConnectionStep (StepProtocolHeader p ?con)) q1]"
    using connector_round[OF assms(1)] by blast
  obtain w2 q2 where 2: "server_sends error_kind_of now (ConnectionStart mechanisms locales) w1
      = ([Method 0 (Connection (ConnectionStartOk (start_client_properties (cfg_client_properties cfg))
          (auth_mechanism (cfg_auth_provider cfg)) response (cfg_locale cfg)))], w2)"
    "connecting p ?s (cfg_negotiated cfg) w2"
    "replies_of 0 w2 = [ExpectedReply (ReplyConnectionStep (StepStartOk p (described ?con) (cfg_auth_provider cfg))) q2]"
    using start_round[OF 1(2,3), of response error_kind_of now mechanisms locales] assms(2) con by auto
  obtain w3 st q3 where 3: "secure_rounds error_kind_of now challenges w2
      = (map (\<lambda>c. Method 0 (Connection (ConnectionSecureOk (answer c)))) challenges, w3)"
    "connecting p ?s (cfg_negotiated cfg) w3" "replies_of 0 w3 = [ExpectedReply (ReplyConnectionStep st) q3]"
    "st = StepStartOk p (described ?con) (cfg_auth_provider cfg) \<or> st = StepSecureOk p (described ?con) (cfg_auth_provider cfg)"
    using all_secure_rounds[OF 2(2,3) disjI1[OF refl] assms(3)] by blast
  obtain w4 q4 where 4: "server_sends error_kind_of now (ConnectionTune channel_max frame_max heartbeat) w3
      = ([Method 0 (Connection (ConnectionTuneOk (nc_channel_max n) (nc_frame_max n) (nc_heartbeat n)))], w4)"
    "connecting p ?s n w4" "replies_of 0 w4 = []" "length (rpc_tasks w3) < length (rpc_tasks w4)"
    "task_state (rpc_tasks w4 ! length (rpc_tasks w3)) = TaskWaiting q4 (ContOpen (cs_channel0 w4) (described ?con) p)"
    "q4 < length (promises w4)" "promises w4 ! q4 = Some (Inr VUnit)" "q4 \<noteq> p"
    using tune_round[OF 3(2-4) assms(4), of error_kind_of now] by auto
  obtain w5 r where 5: "transmit (poll_task (length (rpc_tasks w3)) w4)
      = ([Method 0 (Connection (ConnectionOpen (cn_vhost status)))], w5)" "connecting p ?s n w5"
    "replies_of 0 w5 = [ExpectedReply (ReplyConnectionOpenOk r (described ?con) p) r]" "r \<noteq> p"
    using open_round[OF 4(2-8)] by auto
  show ?thesis using 1(1) 2(1) 3(1) 4(1) 5(1) open_ok_round[OF 5(2-4), of error_kind_of]
    by (auto simp: handshake_def)
qed

text \<open>
  C4: when the authentication provider can answer the server, however often the server asks, connecting
  ends with a connection: the client sends the protocol header, its answer to the start, one answer per challenge,
  the limits as it has negotiated them, and opens the virtual host of the URI; then the caller of \<^verbatim>\<open>connect\<close>
  gets the connection, and no step of the handshake is left.
\<close>

theorem handshake_connects:
  assumes "connector now throttles cfg status = (Await p, ph, s, w)"
    and "auth_starter (cfg_auth_provider cfg) = Inr response"
    and "\<And>c. c \<in> set challenges \<Longrightarrow> auth_continue (cfg_auth_provider cfg) c = Inr (answer c)"
    and "n = tune_connection_configuration channel_max frame_max heartbeat (cfg_negotiated cfg)"
  shows "\<exists>w'. handshake error_kind_of now mechanisms locales challenges channel_max frame_max heartbeat w =
      ([ProtocolHeader amqp_0_9_1,
        Method 0 (Connection (ConnectionStartOk (start_client_properties (cfg_client_properties cfg))
          (auth_mechanism (cfg_auth_provider cfg)) response (cfg_locale cfg)))]
       @ map (\<lambda>c. Method 0 (Connection (ConnectionSecureOk (answer c)))) challenges
       @ [Method 0 (Connection (ConnectionTuneOk (nc_channel_max n) (nc_frame_max n) (nc_heartbeat n))),
          Method 0 (Connection (ConnectionOpen (cn_vhost status)))], w')
    \<and> cn_state (w_conn_status w') = CsConnected \<and> w_negotiated w' = n \<and> replies_of 0 w' = []
    \<and> promise_get p w' = Some (Inr (VConnection (described (connection_of cfg))))"
  using assms by (rule handshake_result)

definition challenge_configuration :: configuration where
  "challenge_configuration =
    configuration_new (default_auth_provider ''RABBIT-CR-DEMO'' True ''guest'' ''Please tell me your password'' ''My password is guest'')
      None (Some 8192) None connection_properties_default"

theorem handshake_connects_witness:
  "\<exists>p ph s w w'. connector 0 [] challenge_configuration connection_status_default = (Await p, ph, s, w)
    \<and> snd (handshake (\<lambda>_. None) 0 ''RABBIT-CR-DEMO'' ''en_US'' [''Please tell me your password''] 2047 131072 60 w) = w'
    \<and> cn_state (w_conn_status w') = CsConnected \<and> nc_frame_max (w_negotiated w') = 8192
    \<and> promise_get p w' = Some (Inr (VConnection (described (connection_of challenge_configuration))))"
proof -
  obtain p ph s w where c: "connector 0 [] challenge_configuration connection_status_default = (Await p, ph, s, w)"
    by (auto simp: connector_def connection_start_def wake_def cn_set_connecting_def
        connection_status_default_def connection_status_new_def promise_new_def promise_build_def Let_def)
  have auth: "auth_starter (cfg_auth_provider challenge_configuration) = Inr ''guest''"
    "\<And>x. x \<in> set [''Please tell me your password''] \<Longrightarrow>
      auth_continue (cfg_auth_provider challenge_configuration) x = Inr ''My password is guest''"
    by (simp_all add: challenge_configuration_def configuration_new_def connection_properties_default_def
        default_auth_provider_def default_continue_auth_def)
  have frame_max: "nc_frame_max (tune_connection_configuration 2047 131072 60 (cfg_negotiated challenge_configuration)) = 8192"
    by (simp add: challenge_configuration_def configuration_new_def negotiated_config_new_def tune_connection_configuration_def
        set_heartbeat_def set_channel_max_def set_frame_max_def Let_def)
  show ?thesis using handshake_connects[where challenges = "[''Please tell me your password'']", OF c auth refl,
      where error_kind_of = "\<lambda>_. None"
      and mechanisms = "''RABBIT-CR-DEMO''" and locales = "''en_US''"
      and channel_max = 2047 and frame_max = 131072 and heartbeat = 60]
    c frame_max by auto
qed

end
