(* ===== verification/Connect.thy ===== *)
theory Connect
  imports Handshake
begin

text \<open>
  The ways to open a connection: the variants of \<^verbatim>\<open>connect\<close> and the trait \<^verbatim>\<open>Connect\<close> of \<^verbatim>\<open>src/connection.rs\<close>, and the
  builder of \<^verbatim>\<open>src/connection_builder.rs\<close>; waiting for the thread (\<^verbatim>\<open>src/thread.rs\<close>, \<^verbatim>\<open>Connection::run\<close>); and the
  built-in source of tokens (\<^verbatim>\<open>DefaultTokenProvider\<close> of \<^verbatim>\<open>src/auth.rs\<close>).  The URI and its parser, the mechanisms of
  authentication, the TLS settings, the runtime and the pauses of the backoff belong to other crates.
\<close>

section \<open>What other crates provide\<close>

text \<open>The parts of a URI that the source reads.\<close>

record 'm amqp_uri =
  uri_vhost :: string
  uri_username :: string
  uri_password :: string
  uri_channel_max :: "channel_id option"
  uri_frame_max :: "frame_size option"
  uri_heartbeat :: "heartbeat_secs option"
  uri_auth_mechanism :: "'m option"

text \<open>The functions on mechanisms and credentials, and the other parameters of a connection.\<close>

record ('m, 't, 'r) platform =
  sasl_default :: 'm
  sasl_cr_demo :: 'm
  sasl_name :: "'m \<Rightarrow> short_string"
  sasl_auth_string :: "string \<Rightarrow> string \<Rightarrow> 'm \<Rightarrow> string"
  sasl_challenge :: "string \<Rightarrow> string \<Rightarrow> string"
  sasl_answer :: "string \<Rightarrow> string \<Rightarrow> string"
  parse_uri :: "string \<Rightarrow> string + 'm amqp_uri"
  default_tls :: 't
  default_runtime :: "error + 'r"
  backoff_pauses :: "nat \<Rightarrow> nat list"

section \<open>Connecting\<close>

definition default_provider_of :: "('m, 't, 'r) platform \<Rightarrow> 'm amqp_uri \<Rightarrow> auth_provider" where
  "default_provider_of pf uri =
    (let m = (case uri_auth_mechanism uri of Some m \<Rightarrow> m | None \<Rightarrow> sasl_default pf)
     in default_auth_provider (sasl_name pf m) (m = sasl_cr_demo pf)
          (sasl_auth_string pf (uri_username uri) (uri_password uri) m)
          (sasl_challenge pf (uri_username uri) (uri_password uri))
          (sasl_answer pf (uri_username uri) (uri_password uri)))"

definition error_other :: "string \<Rightarrow> error" where
  "error_other msg = error_of (IOError (OtherIo msg))"

text \<open>
  An attempt: what the thread needs to reach the server, and the client with the state of the call.  The
  configuration and the status are the ones that \<^verbatim>\<open>connector\<close> derives from the URI.
\<close>

record ('m, 't, 'r) attempt =
  at_uri :: "'m amqp_uri"
  at_tls :: 't
  at_runtime :: 'r
  at_call :: call_outcome
  at_client :: client

definition uri_configuration ::
  "('m, 't, 'r) platform \<Rightarrow> 'm amqp_uri \<Rightarrow> connection_properties \<Rightarrow> configuration" where
  "uri_configuration pf uri = configuration_new (default_provider_of pf uri) (uri_channel_max uri) (uri_frame_max uri)
    (uri_heartbeat uri)"

definition uri_connect_with_config ::
  "('m, 't, 'r) platform \<Rightarrow> nat \<Rightarrow> 'm amqp_uri \<Rightarrow> connection_properties \<Rightarrow> 't \<Rightarrow> 'r \<Rightarrow> error + ('m, 't, 'r) attempt" where
  "uri_connect_with_config pf now uri opts tls rt =
    (let cfg = uri_configuration pf uri opts;
         (r, c) = connector now (backoff_pauses pf (cfg_backoff_max_times cfg)) cfg
           (connection_status_new (uri_vhost uri) (uri_username uri))
     in Inr \<lparr>at_uri = uri, at_tls = tls, at_runtime = rt, at_call = r, at_client = c\<rparr>)"

definition str_connect_with_config ::
  "('m, 't, 'r) platform \<Rightarrow> nat \<Rightarrow> string \<Rightarrow> connection_properties \<Rightarrow> 't \<Rightarrow> 'r \<Rightarrow> error + ('m, 't, 'r) attempt" where
  "str_connect_with_config pf now s opts tls rt =
    (case parse_uri pf s of
       Inr uri \<Rightarrow> uri_connect_with_config pf now uri opts tls rt
     | Inl e \<Rightarrow> Inl (error_other e))"

text \<open>The default method of the trait: the default runtime may not exist.\<close>

definition trait_connect ::
  "('m, 't, 'r) platform \<Rightarrow> (connection_properties \<Rightarrow> 't \<Rightarrow> 'r \<Rightarrow> error + ('m, 't, 'r) attempt)
    \<Rightarrow> connection_properties \<Rightarrow> error + ('m, 't, 'r) attempt" where
  "trait_connect pf connect_with opts =
    (case default_runtime pf of Inl e \<Rightarrow> Inl e | Inr rt \<Rightarrow> connect_with opts (default_tls pf) rt)"

definition connection_connect ::
  "('m, 't, 'r) platform \<Rightarrow> nat \<Rightarrow> string \<Rightarrow> connection_properties \<Rightarrow> error + ('m, 't, 'r) attempt" where
  "connection_connect pf now s = trait_connect pf (str_connect_with_config pf now s)"

definition connect_with_runtime ::
  "('m, 't, 'r) platform \<Rightarrow> nat \<Rightarrow> string \<Rightarrow> connection_properties \<Rightarrow> 'r \<Rightarrow> error + ('m, 't, 'r) attempt" where
  "connect_with_runtime pf now s opts = str_connect_with_config pf now s opts (default_tls pf)"

definition connect_with_config ::
  "('m, 't, 'r) platform \<Rightarrow> nat \<Rightarrow> string \<Rightarrow> connection_properties \<Rightarrow> 't \<Rightarrow> 'r \<Rightarrow> error + ('m, 't, 'r) attempt" where
  "connect_with_config = str_connect_with_config"

definition connect_uri ::
  "('m, 't, 'r) platform \<Rightarrow> nat \<Rightarrow> 'm amqp_uri \<Rightarrow> connection_properties \<Rightarrow> error + ('m, 't, 'r) attempt" where
  "connect_uri pf now uri = trait_connect pf (uri_connect_with_config pf now uri)"

definition connect_uri_with_runtime ::
  "('m, 't, 'r) platform \<Rightarrow> nat \<Rightarrow> 'm amqp_uri \<Rightarrow> connection_properties \<Rightarrow> 'r \<Rightarrow> error + ('m, 't, 'r) attempt" where
  "connect_uri_with_runtime pf now uri opts = uri_connect_with_config pf now uri opts (default_tls pf)"

definition connect_uri_with_config ::
  "('m, 't, 'r) platform \<Rightarrow> nat \<Rightarrow> 'm amqp_uri \<Rightarrow> connection_properties \<Rightarrow> 't \<Rightarrow> 'r \<Rightarrow> error + ('m, 't, 'r) attempt" where
  "connect_uri_with_config = uri_connect_with_config"

section \<open>The builder\<close>

datatype 'm uri_builder = UriStr string | UriParsed "'m amqp_uri" | UriUnset

record ('m, 't, 'r) connection_builder =
  cb_runtime :: 'r
  cb_uri :: "'m uri_builder"
  cb_properties :: "connection_properties option"
  cb_tls_config :: "'t option"

definition new_with_runtime :: "'r \<Rightarrow> ('m, 't, 'r) connection_builder" where
  "new_with_runtime rt = \<lparr>cb_runtime = rt, cb_uri = UriUnset, cb_properties = None, cb_tls_config = None\<rparr>"

definition builder_new :: "('m, 't, 'r) platform \<Rightarrow> error + ('m, 't, 'r) connection_builder" where
  "builder_new pf = map_sum id new_with_runtime (default_runtime pf)"

definition with_uri :: "'m amqp_uri \<Rightarrow> ('m, 't, 'r) connection_builder \<Rightarrow> ('m, 't, 'r) connection_builder" where
  "with_uri uri b = b\<lparr>cb_uri := UriParsed uri\<rparr>"

definition with_uri_str :: "string \<Rightarrow> ('m, 't, 'r) connection_builder \<Rightarrow> ('m, 't, 'r) connection_builder" where
  "with_uri_str s b = b\<lparr>cb_uri := UriStr s\<rparr>"

definition with_properties ::
  "connection_properties \<Rightarrow> ('m, 't, 'r) connection_builder \<Rightarrow> ('m, 't, 'r) connection_builder" where
  "with_properties p b = b\<lparr>cb_properties := Some p\<rparr>"

definition with_tls_config :: "'t \<Rightarrow> ('m, 't, 'r) connection_builder \<Rightarrow> ('m, 't, 'r) connection_builder" where
  "with_tls_config t b = b\<lparr>cb_tls_config := Some t\<rparr>"

definition builder_connect ::
  "('m, 't, 'r) platform \<Rightarrow> nat \<Rightarrow> ('m, 't, 'r) connection_builder \<Rightarrow> error + ('m, 't, 'r) attempt" where
  "builder_connect pf now b =
    (let properties = (case cb_properties b of Some p \<Rightarrow> p | None \<Rightarrow> connection_properties_default);
         tls = (case cb_tls_config b of Some t \<Rightarrow> t | None \<Rightarrow> default_tls pf);
         rt = cb_runtime b
     in (case cb_uri b of
           UriStr s \<Rightarrow> str_connect_with_config pf now s properties tls rt
         | UriParsed uri \<Rightarrow> uri_connect_with_config pf now uri properties tls rt
         | UriUnset \<Rightarrow> Inl (error_other ''No AMQPUri given to ConnectionBuilder'')))"

text \<open>The settings that a caller makes on a builder, in the order of the calls.\<close>

datatype ('m, 't) setting = SetUri "'m amqp_uri" | SetUriStr string | SetProperties connection_properties | SetTls 't

fun apply_setting ::
  "('m, 't) setting \<Rightarrow> ('m, 't, 'r) connection_builder \<Rightarrow> ('m, 't, 'r) connection_builder" where
  "apply_setting (SetUri uri) = with_uri uri"
| "apply_setting (SetUriStr s) = with_uri_str s"
| "apply_setting (SetProperties p) = with_properties p"
| "apply_setting (SetTls t) = with_tls_config t"

text \<open>The last of the settings of one kind.\<close>

definition last_setting :: "('s \<Rightarrow> 'v option) \<Rightarrow> 's list \<Rightarrow> 'v \<Rightarrow> 'v" where
  "last_setting f xs d = fold (\<lambda>x v. case f x of Some y \<Rightarrow> y | None \<Rightarrow> v) xs d"

fun uri_setting :: "('m, 't) setting \<Rightarrow> 'm uri_builder option" where
  "uri_setting (SetUri uri) = Some (UriParsed uri)"
| "uri_setting (SetUriStr s) = Some (UriStr s)"
| "uri_setting _ = None"

fun properties_setting :: "('m, 't) setting \<Rightarrow> connection_properties option" where
  "properties_setting (SetProperties p) = Some p"
| "properties_setting _ = None"

fun tls_setting :: "('m, 't) setting \<Rightarrow> 't option" where
  "tls_setting (SetTls t) = Some t"
| "tls_setting _ = None"

lemma fold_apply_setting:
  "cb_runtime (fold apply_setting xs b) = cb_runtime b"
  "cb_uri (fold apply_setting xs b) = last_setting uri_setting xs (cb_uri b)"
  "(case cb_properties (fold apply_setting xs b) of Some p \<Rightarrow> p | None \<Rightarrow> d)
    = last_setting properties_setting xs (case cb_properties b of Some p \<Rightarrow> p | None \<Rightarrow> d)"
  "(case cb_tls_config (fold apply_setting xs b) of Some t \<Rightarrow> t | None \<Rightarrow> e)
    = last_setting tls_setting xs (case cb_tls_config b of Some t \<Rightarrow> t | None \<Rightarrow> e)"
proof (induction xs arbitrary: b)
  case (Cons x xs)
  {
    case 1
    show ?case using Cons(1) by (cases x) (simp_all add: with_uri_def with_uri_str_def with_properties_def with_tls_config_def)
  next
    case 2
    show ?case using Cons(2) by (cases x)
      (simp_all add: last_setting_def with_uri_def with_uri_str_def with_properties_def with_tls_config_def)
  next
    case 3
    show ?case using Cons(3) by (cases x)
      (simp_all add: last_setting_def with_uri_def with_uri_str_def with_properties_def with_tls_config_def)
  next
    case 4
    show ?case using Cons(4) by (cases x)
      (simp_all add: last_setting_def with_uri_def with_uri_str_def with_properties_def with_tls_config_def)
  }
qed (simp_all add: last_setting_def)

text \<open>Whatever the order of the settings, a builder connects as the call with the last setting of each kind does.\<close>

lemma builder_uses_last_settings:
  "builder_connect pf now (fold apply_setting xs (new_with_runtime rt)) =
    (let properties = last_setting properties_setting xs connection_properties_default;
         tls = last_setting tls_setting xs (default_tls pf)
     in (case last_setting uri_setting xs UriUnset of
           UriStr s \<Rightarrow> connect_with_config pf now s properties tls rt
         | UriParsed uri \<Rightarrow> connect_uri_with_config pf now uri properties tls rt
         | UriUnset \<Rightarrow> Inl (error_other ''No AMQPUri given to ConnectionBuilder'')))"
  by (simp add: builder_connect_def fold_apply_setting new_with_runtime_def connect_with_config_def
      connect_uri_with_config_def Let_def split: uri_builder.split)

lemma connector_awaits:
  assumes "cn_poison status = None"
  shows "\<exists>p ph s w. connector now throttles cfg status = (Await p, ph, s, w)"
  using assms
  by (auto simp: connector_def connection_start_def wake_def cn_set_connecting_def promise_new_def promise_build_def Let_def)

text \<open>
  C31: a builder with a URI that parses reaches the server as the URI says: the handshake of its client
  answers with the name of the mechanism and the credentials of the URI, negotiates from the limits of the URI,
  opens its virtual host, and gives the connection to the caller.
\<close>

theorem builder_opens_virtual_host:
  assumes "parse_uri pf str = Inr uri"
    and "m = (case uri_auth_mechanism uri of Some m \<Rightarrow> m | None \<Rightarrow> sasl_default pf)"
    and "n = tune_connection_configuration channel_max frame_max heartbeat
      (negotiated_config_new (uri_channel_max uri) (uri_frame_max uri) (uri_heartbeat uri))"
  shows "\<exists>a p ph s w w'. builder_connect pf now (with_uri_str str (new_with_runtime rt)) = Inr a
    \<and> at_call a = Await p \<and> at_client a = (ph, s, w)
    \<and> handshake error_kind_of now mechanisms locales [] channel_max frame_max heartbeat w =
      ([ProtocolHeader amqp_0_9_1,
        Method 0 (Connection (ConnectionStartOk (start_client_properties []) (sasl_name pf m)
          (sasl_auth_string pf (uri_username uri) (uri_password uri) m) ''en_US'')),
        Method 0 (Connection (ConnectionTuneOk (nc_channel_max n) (nc_frame_max n) (nc_heartbeat n))),
        Method 0 (Connection (ConnectionOpen (uri_vhost uri)))], w')
    \<and> cn_state (w_conn_status w') = CsConnected \<and> (\<exists>con. promise_get p w' = Some (Inr (VConnection con)))"
proof -
  let ?cfg = "uri_configuration pf uri connection_properties_default"
    and ?status = "connection_status_new (uri_vhost uri) (uri_username uri)"
  have cfg: "cfg_client_properties ?cfg = []" "cfg_locale ?cfg = ''en_US''"
    "auth_mechanism (cfg_auth_provider ?cfg) = sasl_name pf m"
    "auth_starter (cfg_auth_provider ?cfg) = Inr (sasl_auth_string pf (uri_username uri) (uri_password uri) m)"
    "cfg_negotiated ?cfg = negotiated_config_new (uri_channel_max uri) (uri_frame_max uri) (uri_heartbeat uri)"
    "cn_vhost ?status = uri_vhost uri" "cn_poison ?status = None"
    by (simp_all add: uri_configuration_def configuration_new_def connection_properties_default_def default_provider_of_def
        default_auth_provider_def assms(2) connection_status_new_def Let_def)
  obtain p ph s w where c: "connector now (backoff_pauses pf (cfg_backoff_max_times ?cfg)) ?cfg ?status = (Await p, ph, s, w)"
    using connector_awaits[OF cfg(7)] by blast
  have "builder_connect pf now (with_uri_str str (new_with_runtime rt))
      = Inr \<lparr>at_uri = uri, at_tls = default_tls pf, at_runtime = rt, at_call = Await p, at_client = (ph, s, w)\<rparr>"
    using assms(1) c
    by (simp add: builder_connect_def with_uri_str_def new_with_runtime_def str_connect_with_config_def
        uri_connect_with_config_def)
  moreover note handshake_result[where challenges = "[]", OF c cfg(4) _ assms(3)[folded cfg(5)],
      of undefined error_kind_of mechanisms locales]
  ultimately show ?thesis using cfg by auto
qed

definition example_platform :: "(string, unit, unit) platform" where
  "example_platform = \<lparr>sasl_default = ''PLAIN'', sasl_cr_demo = ''RABBIT-CR-DEMO'', sasl_name = (\<lambda>m. m),
     sasl_auth_string = (\<lambda>u p _. [CHR 0x00] @ u @ [CHR 0x00] @ p), sasl_challenge = (\<lambda>_ _. ''''),
     sasl_answer = (\<lambda>_ p. p),
     parse_uri = (\<lambda>s. if s = ''amqp://localhost/shop''
       then Inr \<lparr>uri_vhost = ''shop'', uri_username = ''guest'', uri_password = ''guest'', uri_channel_max = None,
         uri_frame_max = None, uri_heartbeat = Some 30, uri_auth_mechanism = None\<rparr>
       else Inl ''invalid URI''),
     default_tls = (), default_runtime = Inr (), backoff_pauses = (\<lambda>n. replicate n 1)\<rparr>"

theorem builder_opens_virtual_host_witness:
  "\<exists>a p ph s w w'. builder_connect example_platform 0 (with_uri_str ''amqp://localhost/shop'' (new_with_runtime ())) = Inr a
    \<and> at_call a = Await p \<and> at_client a = (ph, s, w)
    \<and> handshake (\<lambda>_. None) 0 ''PLAIN'' ''en_US'' [] 2047 131072 60 w =
      ([ProtocolHeader amqp_0_9_1,
        Method 0 (Connection (ConnectionStartOk (start_client_properties []) ''PLAIN''
          ([CHR 0x00] @ ''guest'' @ [CHR 0x00] @ ''guest'') ''en_US'')),
        Method 0 (Connection (ConnectionTuneOk 2047 131072 30)),
        Method 0 (Connection (ConnectionOpen ''shop''))], w')
    \<and> cn_state (w_conn_status w') = CsConnected \<and> (\<exists>con. promise_get p w' = Some (Inr (VConnection con)))"
proof -
  let ?uri = "\<lparr>uri_vhost = ''shop'', uri_username = ''guest'', uri_password = ''guest'', uri_channel_max = None,
    uri_frame_max = None, uri_heartbeat = Some 30, uri_auth_mechanism = None :: string option\<rparr>"
  have uri: "parse_uri example_platform ''amqp://localhost/shop'' = Inr ?uri"
    by (simp add: example_platform_def)
  have mechanism: "''PLAIN'' = (case uri_auth_mechanism ?uri of Some m \<Rightarrow> m | None \<Rightarrow> sasl_default example_platform)"
    by (simp add: example_platform_def)
  have limits: "\<lparr>nc_channel_max = 2047, nc_frame_max = 131072, nc_heartbeat = 30\<rparr> = tune_connection_configuration 2047 131072 60
      (negotiated_config_new (uri_channel_max ?uri) (uri_frame_max ?uri) (uri_heartbeat ?uri))"
    by (simp add: negotiated_config_new_def tune_connection_configuration_def
        set_heartbeat_def set_channel_max_def set_frame_max_def Let_def)
  have names: "sasl_name example_platform m = m" "sasl_auth_string example_platform u p m = [CHR 0x00] @ u @ [CHR 0x00] @ p" for m u p
    by (simp_all add: example_platform_def)
  show ?thesis
    using builder_opens_virtual_host[OF uri mechanism limits, of 0 "()" "\<lambda>_. None" "''PLAIN''" "''en_US''"]
    unfolding names by simp
qed

section \<open>Waiting for the thread\<close>

text \<open>
  The handle is the thread, until somebody has taken it.  Joining waits for the end of the thread and
  hands on its result or its panic; \<^verbatim>\<open>joined\<close> is what has become of a thread so far.
\<close>

datatype joined = JoinReturned "error + unit" | JoinPanicked

datatype wait_outcome = WaitReturns "error + unit" | WaitPanics | WaitBlocks

definition thread_register :: "nat \<Rightarrow> nat option \<Rightarrow> nat option" where
  "thread_register t h = Some t"

definition thread_wait :: "nat \<Rightarrow> (nat \<Rightarrow> joined option) \<Rightarrow> nat option \<Rightarrow> wait_outcome \<times> nat option" where
  "thread_wait current threads h =
    (case h of
       Some t \<Rightarrow>
         (if t \<noteq> current
          then (case threads t of
                  Some (JoinReturned r) \<Rightarrow> WaitReturns r
                | Some JoinPanicked \<Rightarrow> WaitPanics
                | None \<Rightarrow> WaitBlocks)
          else WaitReturns (Inr ()), None)
     | None \<Rightarrow> (WaitReturns (Inr ()), None))"

text \<open>
  \<^verbatim>\<open>Connection::run\<close> drops the connection first; this asks for its close, unless a channel still holds the closer.
\<close>

definition connection_run ::
  "bool \<Rightarrow> nat \<Rightarrow> (nat \<Rightarrow> joined option) \<Rightarrow> nat option \<Rightarrow> 'a world_scheme \<Rightarrow> wait_outcome \<times> nat option \<times> 'a world_scheme" where
  "connection_run shared current threads h w =
    (let w1 = (if shared then w else connection_closer_drop False w);
         (r, h1) = thread_wait current threads h
     in (r, h1, w1))"

text \<open>What has become of the thread of the client.\<close>

definition thread_of :: "nat \<Rightarrow> io_phase \<Rightarrow> nat \<Rightarrow> joined option" where
  "thread_of t ph = (\<lambda>u. if u = t then (case ph of PhEnded r \<Rightarrow> Some (JoinReturned r) | _ \<Rightarrow> None) else None)"

text \<open>
  The first call of \<^verbatim>\<open>run\<close> from another thread returns exactly when the thread has ended, with its result; a
  later one returns at once, whether the thread has ended or not.
\<close>

lemma run_waits_for_thread:
  assumes "current \<noteq> t" "connection_run shared current (thread_of t ph) (thread_register t None) w = (r, h, w')"
  shows "r = (case ph of PhEnded x \<Rightarrow> WaitReturns x | _ \<Rightarrow> WaitBlocks)"
    and "fst (connection_run shared current (thread_of t ph') h w'') = WaitReturns (Inr ())"
  using assms
  by (auto simp: connection_run_def thread_register_def thread_wait_def thread_of_def Let_def split: io_phase.split)

section \<open>Tokens\<close>

text \<open>The closures of the application are \<^verbatim>\<open>tp_valid_for\<close>, and \<^verbatim>\<open>created\<close>, what the call for a new token returns.\<close>

record token_provider =
  tp_valid_for :: "string \<Rightarrow> nat option"
  tp_token :: string

definition token_provider_new :: "(string \<Rightarrow> nat option) \<Rightarrow> token_provider" where
  "token_provider_new f = \<lparr>tp_valid_for = f, tp_token = ''''\<rparr>"

definition token_valid_for :: "token_provider \<Rightarrow> nat option" where
  "token_valid_for tp = tp_valid_for tp (tp_token tp)"

definition create_token :: "string + string \<Rightarrow> token_provider \<Rightarrow> (string + string) \<times> token_provider" where
  "create_token created tp = (case created of Inl e \<Rightarrow> (Inl e, tp) | Inr t \<Rightarrow> (Inr t, tp\<lparr>tp_token := t\<rparr>))"

text \<open>
  After a round of the secret update the next pause is the validity of the token that was sent to the
  server; when no token could be made, nothing is sent and the pause is that of the old token.
\<close>

lemma refresh_round:
  assumes "create_token created tp = (x, tp')" "su_refresh x h = (r, h')" "\<not> killed k h'" "cn_connected s"
  shows "su_poll_timeout (token_valid_for tp') k s h' = tp_valid_for tp (case created of Inl _ \<Rightarrow> tp_token tp | Inr t \<Rightarrow> t)"
    and "rpc h' = rpc h @ (case created of
      Inl _ \<Rightarrow> [] | Inr t \<Rightarrow> [Some (CmdUpdateSecret t ''Automatic periodical refresh'' (length (promises h)))])"
  using assms
  by (auto simp: create_token_def su_refresh_def su_poll_timeout_def token_valid_for_def rpc_update_secret_def
      promise_new_def promise_build_def rpc_send_def wake_def Let_def split: sum.splits)

end
