(* ===== verification/Spec2Isabelle.thy ===== *)
theory Spec2Isabelle
  imports Id_Sequence Ring_Buffer Parsing Errors Types Messages Store Acker_Model Confirms Topology
    Frames_Model Receiver Channel_Status Consumers_Model Connection_State Heartbeat_Model Socket_Model
    Channel_Model Channel_Methods Channels_Model Recovery_Model
    Rpc_Model Io_Loop Io_Wire Client Typing Handshake Connect
begin

text \<open>
  Verification of \<^verbatim>\<open>lapin\<close>, an asynchronous client for AMQP 0-9-1.  The paths below are relative to
  \<^verbatim>\<open>src/src/\<close>.

  \<^bold>\<open>The program.\<close>  An application opens a connection (\<^verbatim>\<open>connection.rs\<close>), creates channels on it and calls their
  methods (\<^verbatim>\<open>channel.rs\<close>, \<^verbatim>\<open>generated/channel.rs\<close>).  A method puts frames into shared queues together with the
  reply it expects (\<^verbatim>\<open>frames.rs\<close>) and waits for a promise (\<^verbatim>\<open>promise.rs\<close>).  A thread (\<^verbatim>\<open>io_loop.rs\<close>) moves the frames
  into a ring buffer (\<^verbatim>\<open>buffer.rs\<close>) and writes it to the socket, reads bytes into another ring buffer, parses
  frames and hands them to the channels (\<^verbatim>\<open>channels.rs\<close>), whose handlers complete the promises, feed the
  consumers and send commands to a loop (\<^verbatim>\<open>internal_rpc.rs\<close>) that does everything which must not run inside
  a handler.  When the connection is lost it is made again and the topology is declared again.

  \<^bold>\<open>How it is modelled.\<close>  A shared object of the program (an \<^verbatim>\<open>Arc\<close> with its lock) is an index into a store, and the
  stores are the fields of one extensible record: \<^verbatim>\<open>heap\<close> (promises, kill switches, notifiers, error holders,
  the queue of commands, the events of the socket), \<^verbatim>\<open>frames_state\<close>, \<^verbatim>\<open>consumers_state\<close>, \<^verbatim>\<open>world\<close> (channels, connection
  status, limits, events), \<^verbatim>\<open>channels_state\<close> and \<^verbatim>\<open>rpc_state\<close>.  An operation takes and returns the part of the state
  that it uses, whatever extends it.  A critical section is one application of a function; what can
  interleave are the functions, and the theorems about runs quantify over their order.  An
  asynchronous function is modelled up to the promise that it waits for, with what it does afterwards
  as a value (\<^verbatim>\<open>call_outcome\<close>, \<^verbatim>\<open>recovery_state\<close>, \<^verbatim>\<open>continuation\<close>).  Errors are values of \<^verbatim>\<open>error + 'a\<close>; \<^term>\<open>None\<close> is a panic or a call
  that does not return.  Integers of the protocol are words of their width; sizes and times are natural
  numbers, and the conversions between the two are written out.

  \<^bold>\<open>The theories.\<close>
  \<^item> \<^verbatim>\<open>Prelude\<close>: collections of rules, association lists, machine integers, polling, decimal printing.
  \<^item> \<^verbatim>\<open>Id_Sequence\<close> (\<^verbatim>\<open>id_sequence.rs\<close>): the ids of channels and tags; a full cycle hands out every id once.
  \<^item> \<^verbatim>\<open>Parsing\<close>, \<^verbatim>\<open>Ring_Buffer\<close> (\<^verbatim>\<open>parsing.rs\<close>, \<^verbatim>\<open>buffer.rs\<close>): the two buffers and the parser's view of them.  The locale
    \<^verbatim>\<open>byte_queue\<close> is the contract of a bounded queue of bytes, and the buffer is an instance of it.
  \<^item> \<^verbatim>\<open>Errors\<close>, \<^verbatim>\<open>Types\<close>, \<^verbatim>\<open>Messages\<close> (\<^verbatim>\<open>error.rs\<close>, \<^verbatim>\<open>message.rs\<close>, \<^verbatim>\<open>acker.rs\<close>, \<^verbatim>\<open>publisher_confirm.rs\<close>, \<^verbatim>\<open>queue.rs\<close>, \<^verbatim>\<open>exchange.rs\<close>,
    \<^verbatim>\<open>connection_step.rs\<close>): the data; the methods and frames are those of the protocol.
  \<^item> \<^verbatim>\<open>Store\<close> (\<^verbatim>\<open>promise.rs\<close>, \<^verbatim>\<open>killswitch.rs\<close>, \<^verbatim>\<open>notifier.rs\<close>, \<^verbatim>\<open>error_holder.rs\<close>, the handle of \<^verbatim>\<open>internal_rpc.rs\<close>): the shared cells.  The
    locale \<^verbatim>\<open>write_once\<close> is the contract of promises and error holders.
  \<^item> \<^verbatim>\<open>Acker_Model\<close> (\<^verbatim>\<open>acker.rs\<close>), \<^verbatim>\<open>Confirms\<close> (\<^verbatim>\<open>acknowledgement.rs\<close>, \<^verbatim>\<open>returned_messages.rs\<close>): acknowledgements in both directions.
  \<^item> \<^verbatim>\<open>Topology\<close> (\<^verbatim>\<open>topology.rs\<close>, \<^verbatim>\<open>registry.rs\<close>): what was declared.  The locale \<^verbatim>\<open>entity_table\<close> is the contract of the tables of
    exchanges and of queues.
  \<^item> \<^verbatim>\<open>Frames_Model\<close> (\<^verbatim>\<open>frames.rs\<close>): the queues of frames and the expected replies.
  \<^item> \<^verbatim>\<open>Receiver\<close>, \<^verbatim>\<open>Channel_Status\<close>, \<^verbatim>\<open>Consumers_Model\<close> (\<^verbatim>\<open>channel_receiver_state.rs\<close>, \<^verbatim>\<open>basic_get_delivery.rs\<close>, \<^verbatim>\<open>channel_status.rs\<close>,
    \<^verbatim>\<open>channel_recovery_context.rs\<close>, \<^verbatim>\<open>consumer*.rs\<close>): contents under way, the states of a channel, consumers.  The locale
    \<^verbatim>\<open>content_sink\<close> is the contract of whoever assembles a content: a consumer, a get, a returned message.
  \<^item> \<^verbatim>\<open>Connection_State\<close>, \<^verbatim>\<open>Heartbeat_Model\<close>, \<^verbatim>\<open>Socket_Model\<close> (\<^verbatim>\<open>configuration.rs\<close>, \<^verbatim>\<open>connection_properties.rs\<close>, \<^verbatim>\<open>connection_status.rs\<close>,
    \<^verbatim>\<open>events.rs\<close>, \<^verbatim>\<open>auth.rs\<close>, \<^verbatim>\<open>heartbeat.rs\<close>, \<^verbatim>\<open>secret_update.rs\<close>, \<^verbatim>\<open>socket_state.rs\<close>).
  \<^item> \<^verbatim>\<open>Channel_Model\<close>, \<^verbatim>\<open>Channel_Methods\<close> (\<^verbatim>\<open>channel.rs\<close>, \<^verbatim>\<open>generated/channel.rs\<close>): every method that the client sends and every
    handler of a method that it receives, with the hooks that the generated code calls.
  \<^item> \<^verbatim>\<open>Channels_Model\<close> (\<^verbatim>\<open>channels.rs\<close>): the table of channels, the dispatch of frames, the ends of a connection.
  \<^item> \<^verbatim>\<open>Recovery_Model\<close>: the recovery of a channel, as the list of calls that is left.
  \<^item> \<^verbatim>\<open>Rpc_Model\<close> (\<^verbatim>\<open>internal_rpc.rs\<close>, \<^verbatim>\<open>connection.rs\<close>, \<^verbatim>\<open>connection_closer.rs\<close>, \<^verbatim>\<open>channel_closer.rs\<close>): the loop of the commands and the
    tasks that it spawns; a task is the job it has not begun, or the promise it waits for and what
    follows.
  \<^item> \<^verbatim>\<open>Io_Loop\<close> (\<^verbatim>\<open>io_loop.rs\<close>): the thread, one definition per function, and \<^verbatim>\<open>Io_Wire\<close>: what it does to the bytes.
  \<^item> \<^verbatim>\<open>Client\<close>: what \<^verbatim>\<open>connector\<close> starts, and the runs of all the parts together.
  \<^item> \<^verbatim>\<open>Typing\<close>: which operations leave the ids of the channels and their table alone, that every step keeps the
    table well formed, and what starts the refresh of the secret.
  \<^item> \<^verbatim>\<open>Handshake\<close>: the rounds from the protocol header to the opened connection.
  \<^item> \<^verbatim>\<open>Connect\<close> (\<^verbatim>\<open>connection.rs\<close>, \<^verbatim>\<open>connection_builder.rs\<close>, \<^verbatim>\<open>thread.rs\<close>, \<^verbatim>\<open>auth.rs\<close>): the variants of \<^verbatim>\<open>connect\<close>, the builder,
    waiting for the thread, and the tokens of the built-in provider.

  \<^bold>\<open>What is shown.\<close>
  \<^item> \<^emph>\<open>Bytes.\<close>  The ring buffer is a bounded queue of bytes through any sequence of operations, also when it
    wraps, is rolled back or grows; a round of writing refines an abstract backlog in which a frame is
    reported as sent exactly when its last byte was taken; the loop of the writes ends; the received
    bytes are handled as the frames they encode.  In every run of the client the buffer holds exactly
    the unwritten bytes of the frames whose senders wait.
  \<^item> \<^emph>\<open>Frames and promises.\<close>  The frames of a publish leave together and in order whatever else is queued; when
    the connection fails every promise that waits for a frame or a reply is completed; a promise is
    completed once; an acker sends one command.
  \<^item> \<^emph>\<open>Connections.\<close>  The handshake ends with an open connection for the caller whatever the number of
    challenges; a builder connects as its URI says, with the last setting of each kind.
  \<^item> \<^emph>\<open>Channels.\<close>  In every state of the client an id leads to the channel object that has it.  A new channel
    gets a free id; a method that is refused closes the connection; a body is cut
    into frames that fit; the limits are negotiated to the lower wishes; contents are reassembled.
  \<^item> \<^emph>\<open>Recovery.\<close>  The first loss is remembered; the registry is the live topology; a recovery declares it
    again.
  \<^item> \<^emph>\<open>Time.\<close>  A heartbeat is sent in time and a silent server is detected.
  \<^item> \<^emph>\<open>Errors.\<close>  Some theorems state what the code does where it does not do what it means to, among them
    that the close of the server is never acknowledged, that a recovery doubles the bindings, that without a
    heartbeat no secret is ever refreshed, and that an acknowledgement overtaken by the failure of its channel is
    forgotten.

  \<^bold>\<open>Parameters and hypotheses.\<close>  The generator and the parser of frames belong to the protocol crate.  They are
  arguments, with the hypotheses \<^verbatim>\<open>generates\<close> and \<^verbatim>\<open>parses\<close> on an encoding of frames.  The socket is an argument:
  what it answers to each poll; \<^verbatim>\<open>honest_writer\<close> is the contract of the trait for writing.  The table from reply
  codes to protocol errors, the providers of secrets, the parser of URIs, the mechanisms of authentication, the
  TLS settings, the runtime, the times and the pauses of the backoff are arguments, too.  Each theorem with such a hypothesis has a witness with a concrete parameter.

  \<^bold>\<open>Loops.\<close>  Loops over data are structural or have a measure.  The loops that wait for the environment (\<^verbatim>\<open>write\<close>,
  \<^verbatim>\<open>read\<close>, \<^verbatim>\<open>handle_frames\<close>, the search for a free id) are partial functions into options; for the writes, the
  frames and the ids it is proved that they return.  No fuel is used.

  \<^bold>\<open>Not modelled.\<close>
  \<^item> Logging (\<^verbatim>\<open>tracing\<close>), the \<^verbatim>\<open>Debug\<close> implementations and the wakers of futures: no effect on the protocol.
  \<^item> \<^verbatim>\<open>runtime.rs\<close>, \<^verbatim>\<open>shared.rs\<close>, \<^verbatim>\<open>listener.rs\<close>, \<^verbatim>\<open>future.rs\<close>, \<^verbatim>\<open>lib.rs\<close>: the choice of a runtime by features, wrappers of locks, wake-ups
    through an event of another crate, boxed futures, and exports.
  \<^item> The sleeps of the thread and the closing of the stream at its end; the code of delegates and
    providers, which is the application's.
  \<^item> The templates from which \<^verbatim>\<open>generated/channel.rs\<close> is made; the output is what is modelled.  Tests and examples.
\<close>

end
